theory Spec2Isabelle
  imports Complex_Main "HOL-Library.Char_ord"
begin

section \<open>JavaScript strings\<close>

text \<open>
  The sources are TypeScript. A JavaScript string is a sequence of UTF-16 code units; here
  a string is an Isabelle \<open>string\<close>, that is a list of 8-bit characters, read as the code
  units 0 to 255 (Latin-1), ordered as code units. On these, the white space of \<^verbatim>\<open>trim\<close> and of the regular
  expression class \<^verbatim>\<open>\s\<close> is tab, line feed, vertical tab, form feed, carriage return,
  space and no-break space; the line terminators that the regular expression dot refuses
  are line feed and carriage return; and case conversion maps A-Z and the accented capitals
  0xC0-0xDE (0xD7 apart) to the letters 32 places further.
\<close>

definition isWhiteSpace :: "char \<Rightarrow> bool" where
  "isWhiteSpace c =
     (c \<in> set [CHR 0x09, CHR 0x0A, CHR 0x0B, CHR 0x0C, CHR 0x0D, CHR 0x20, CHR 0xA0])"

definition isLineTerminator :: "char \<Rightarrow> bool" where
  "isLineTerminator c = (c \<in> set [CHR 0x0A, CHR 0x0D])"

definition isDigit :: "char \<Rightarrow> bool" where
  "isDigit c = (CHR ''0'' \<le> c \<and> c \<le> CHR ''9'')"

definition isWordChar :: "char \<Rightarrow> bool" where
  "isWordChar c =
     ((CHR ''0'' \<le> c \<and> c \<le> CHR ''9'') \<or> (CHR ''A'' \<le> c \<and> c \<le> CHR ''Z'') \<or>
      (CHR ''a'' \<le> c \<and> c \<le> CHR ''z'') \<or> c = CHR ''_'')"

text \<open>
  The two cases of a letter are 32 code units apart, which is bit 5 of the code unit: set in
  the small letters 0x61-0x7A and 0xE0-0xFE, clear in the capitals 0x41-0x5A and 0xC0-0xDE.
\<close>

definition charToUpper :: "char \<Rightarrow> char" where
  "charToUpper c =
     (if (CHR ''a'' \<le> c \<and> c \<le> CHR ''z'') \<or> (CHR 0xE0 \<le> c \<and> c \<le> CHR 0xFE \<and> c \<noteq> CHR 0xF7)
      then (case c of Char b0 b1 b2 b3 b4 b5 b6 b7 \<Rightarrow> Char b0 b1 b2 b3 b4 False b6 b7)
      else c)"

definition charToLower :: "char \<Rightarrow> char" where
  "charToLower c =
     (if (CHR ''A'' \<le> c \<and> c \<le> CHR ''Z'') \<or> (CHR 0xC0 \<le> c \<and> c \<le> CHR 0xDE \<and> c \<noteq> CHR 0xD7)
      then (case c of Char b0 b1 b2 b3 b4 b5 b6 b7 \<Rightarrow> Char b0 b1 b2 b3 b4 True b6 b7)
      else c)"

definition toLowerCase :: "string \<Rightarrow> string" where
  "toLowerCase s = map charToLower s"

fun startsWith :: "string \<Rightarrow> string \<Rightarrow> bool" where
  "startsWith s [] = True"
| "startsWith [] (p # ps) = False"
| "startsWith (c # cs) (p # ps) = (c = p \<and> startsWith cs ps)"

text \<open>\<^verbatim>\<open>s.includes(sub)\<close>\<close>

fun strIncludes :: "string \<Rightarrow> string \<Rightarrow> bool" where
  "strIncludes [] sub = (sub = [])"
| "strIncludes (c # cs) sub = (startsWith (c # cs) sub \<or> strIncludes cs sub)"

text \<open>\<^verbatim>\<open>s.indexOf(sub)\<close>, which is -1 when \<open>sub\<close> does not occur.\<close>

fun indexOfFrom :: "int \<Rightarrow> string \<Rightarrow> string \<Rightarrow> int" where
  "indexOfFrom i [] sub = (if sub = [] then i else -1)"
| "indexOfFrom i (c # cs) sub =
     (if startsWith (c # cs) sub then i else indexOfFrom (i + 1) cs sub)"

definition indexOf :: "string \<Rightarrow> string \<Rightarrow> int" where
  "indexOf s sub = indexOfFrom 0 s sub"

text \<open>\<^verbatim>\<open>s.substring(a, b)\<close>: both ends are clamped to the string and swapped when out of order.\<close>

definition substring :: "string \<Rightarrow> int \<Rightarrow> int \<Rightarrow> string" where
  "substring s a b =
     (let n = int (length s);
          a' = min (max a 0) n;
          b' = min (max b 0) n;
          lo = min a' b';
          hi = max a' b'
      in take (nat (hi - lo)) (drop (nat lo) s))"

definition trim :: "string \<Rightarrow> string" where
  "trim s = rev (dropWhile isWhiteSpace (rev (dropWhile isWhiteSpace s)))"

text \<open>\<^verbatim>\<open>s.split(sep)\<close> for a string separator; an empty separator splits into code units.\<close>

function splitAux :: "string \<Rightarrow> string \<Rightarrow> string \<Rightarrow> string list" where
  "splitAux sep cur [] = [cur]"
| "splitAux sep cur (c # cs) =
     (if sep \<noteq> [] \<and> startsWith (c # cs) sep
      then cur # splitAux sep [] (drop (length sep) (c # cs))
      else splitAux sep (cur @ [c]) cs)"
  by pat_completeness auto
termination
  by (relation "measure (\<lambda>(sep, cur, s). length s)") auto

definition splitStr :: "string \<Rightarrow> string \<Rightarrow> string list" where
  "splitStr s sep = (if sep = [] then map (\<lambda>c. [c]) s else splitAux sep [] s)"

section \<open>JavaScript regular expressions\<close>

text \<open>
  The patterns of the sources use literals, the dot, character classes, groups, alternation,
  the quantifiers \<^verbatim>\<open>*\<close>, \<^verbatim>\<open>+\<close>, \<^verbatim>\<open>?\<close> (greedy and lazy), the anchors and the word
  boundary, with the flags \<^verbatim>\<open>i\<close> and \<^verbatim>\<open>g\<close>. A pattern is a term of \<open>regex\<close>; its
  meaning is the backtracking matcher of the ECMAScript specification, written with
  continuations: a matcher takes what is to follow and a state, and answers the end state
  of the first successful way through, in the order the specification tries them.
\<close>

datatype classItem =
    CChar char
  | CRange char char
  | CSpace
  | CNonSpace
  | CDigit

datatype regex =
    Lit string
  | Dot
  | Cls "classItem list"
  | Cat "regex list"
  | Alts "regex list"
  | Rep regex nat "nat option" bool
  | Grp nat regex
  | Bol
  | Eol
  | WordB

abbreviation Star :: "regex \<Rightarrow> regex" where "Star r \<equiv> Rep r 0 None True"
abbreviation Plus :: "regex \<Rightarrow> regex" where "Plus r \<equiv> Rep r 1 None True"
abbreviation Opt :: "regex \<Rightarrow> regex" where "Opt r \<equiv> Rep r 0 (Some 1) True"
abbreviation StarLazy :: "regex \<Rightarrow> regex" where "StarLazy r \<equiv> Rep r 0 None False"
abbreviation PlusLazy :: "regex \<Rightarrow> regex" where "PlusLazy r \<equiv> Rep r 1 None False"
abbreviation Words :: "string list \<Rightarrow> regex" where "Words ws \<equiv> Alts (map Lit ws)"
abbreviation Ws :: regex where "Ws \<equiv> Cls [CSpace]"
abbreviation AnyCh :: regex where "AnyCh \<equiv> Cls [CSpace, CNonSpace]"

record jsregex =
  body :: regex
  ignoreCase :: bool
  globalFlag :: bool

text \<open>
  The state of a match: the character before the current position (none at the start of
  the input), the input from the current position on, and the captures so far.
\<close>

datatype mstate = MState (prev: "char option") (rest: string) (caps: "(nat \<times> string) list")

type_synonym mcont = "mstate \<Rightarrow> mstate option"
type_synonym matcher = "mcont \<Rightarrow> mstate \<Rightarrow> mstate option"

fun itemMatches :: "classItem \<Rightarrow> char \<Rightarrow> bool" where
  "itemMatches (CChar d) c = (c = d)"
| "itemMatches (CRange lo hi) c = (lo \<le> c \<and> c \<le> hi)"
| "itemMatches CSpace c = isWhiteSpace c"
| "itemMatches CNonSpace c = (\<not> isWhiteSpace c)"
| "itemMatches CDigit c = isDigit c"

definition classMatches :: "bool \<Rightarrow> classItem list \<Rightarrow> char \<Rightarrow> bool" where
  "classMatches ic items c =
     (list_ex (\<lambda>it. itemMatches it c) items \<or>
      (ic \<and> (list_ex (\<lambda>it. itemMatches it (charToUpper c)) items \<or>
              list_ex (\<lambda>it. itemMatches it (charToLower c)) items)))"

text \<open>
  Two characters are the same for a pattern when they are equal or, under the flag
  \<^verbatim>\<open>i\<close>, when their canonical (upper case) forms are.
\<close>

definition charEq :: "bool \<Rightarrow> char \<Rightarrow> char \<Rightarrow> bool" where
  "charEq ic c d = (c = d \<or> (ic \<and> charToUpper c = charToUpper d))"

fun litMatch :: "bool \<Rightarrow> string \<Rightarrow> mstate \<Rightarrow> mstate option" where
  "litMatch ic [] s = Some s"
| "litMatch ic (d # ds) s =
    (case rest s of
       [] \<Rightarrow> None
     | c # cs \<Rightarrow> if charEq ic c d then litMatch ic ds (MState (Some c) cs (caps s)) else None)"

fun groupsOf :: "regex \<Rightarrow> nat list" where
  "groupsOf (Lit _) = []"
| "groupsOf Dot = []"
| "groupsOf (Cls _) = []"
| "groupsOf (Cat rs) = concat (map groupsOf rs)"
| "groupsOf (Alts rs) = concat (map groupsOf rs)"
| "groupsOf (Rep r _ _ _) = groupsOf r"
| "groupsOf (Grp n r) = n # groupsOf r"
| "groupsOf Bol = []"
| "groupsOf Eol = []"
| "groupsOf WordB = []"

fun decMax :: "nat option \<Rightarrow> nat option" where
  "decMax None = None"
| "decMax (Some n) = Some (n - 1)"

definition clearCaps :: "nat list \<Rightarrow> mstate \<Rightarrow> mstate" where
  "clearCaps gs s = MState (prev s) (rest s) (filter (\<lambda>(g, _). g \<notin> set gs) (caps s))"

text \<open>
  The specification's RepeatMatcher. Every round clears the captures of the groups inside
  the repeated term; once the minimum is reached, a round that consumes nothing fails;
  a greedy quantifier tries one more round before what follows, a lazy one after it.
\<close>

function repeatMatcher ::
  "matcher \<Rightarrow> nat list \<Rightarrow> nat \<Rightarrow> nat option \<Rightarrow> bool \<Rightarrow> mcont \<Rightarrow> mstate \<Rightarrow> mstate option" where
  "repeatMatcher m gs mn mx greedy k s =
     (if mx = Some 0 then k s
      else if 0 < mn then
        m (\<lambda>y. repeatMatcher m gs (mn - 1) (decMax mx) greedy k y) (clearCaps gs s)
      else if greedy then
        (case m (\<lambda>y. if length (rest y) < length (rest s)
                       then repeatMatcher m gs 0 (decMax mx) greedy k y else None)
                (clearCaps gs s) of
           Some z \<Rightarrow> Some z
         | None \<Rightarrow> k s)
      else
        (case k s of
           Some z \<Rightarrow> Some z
         | None \<Rightarrow>
            m (\<lambda>y. if length (rest y) < length (rest s)
                    then repeatMatcher m gs 0 (decMax mx) greedy k y else None)
              (clearCaps gs s)))"
  by pat_completeness auto
termination
  by (relation "inv_image (less_than <*lex*> less_than)
        (\<lambda>(m, gs, mn, mx, greedy, k, s). (mn, length (rest s)))") auto

declare repeatMatcher.simps [simp del]

fun altMatcher :: "matcher list \<Rightarrow> matcher" where
  "altMatcher [] k s = None"
| "altMatcher (m # ms) k s = (case m k s of Some z \<Rightarrow> Some z | None \<Rightarrow> altMatcher ms k s)"

fun catMatcher :: "matcher list \<Rightarrow> matcher" where
  "catMatcher [] k s = k s"
| "catMatcher (m # ms) k s = m (catMatcher ms k) s"

definition closeGroup :: "nat \<Rightarrow> mstate \<Rightarrow> mstate \<Rightarrow> mstate" where
  "closeGroup n s y =
     MState (prev y) (rest y)
       ((n, take (length (rest s) - length (rest y)) (rest s)) # filter (\<lambda>(g, _). g \<noteq> n) (caps y))"

definition atWordBoundary :: "mstate \<Rightarrow> bool" where
  "atWordBoundary s =
     ((case prev s of None \<Rightarrow> False | Some c \<Rightarrow> isWordChar c)
      \<noteq> (case rest s of [] \<Rightarrow> False | c # _ \<Rightarrow> isWordChar c))"

primrec compile :: "bool \<Rightarrow> regex \<Rightarrow> matcher" where
  "compile ic (Lit ds) = (\<lambda>k s. case litMatch ic ds s of None \<Rightarrow> None | Some s' \<Rightarrow> k s')"
| "compile ic Dot = (\<lambda>k s. case rest s of
        [] \<Rightarrow> None
      | c # cs \<Rightarrow> if \<not> isLineTerminator c then k (MState (Some c) cs (caps s)) else None)"
| "compile ic (Cls items) = (\<lambda>k s. case rest s of
        [] \<Rightarrow> None
      | c # cs \<Rightarrow> if classMatches ic items c then k (MState (Some c) cs (caps s)) else None)"
| "compile ic (Cat rs) = catMatcher (map (compile ic) rs)"
| "compile ic (Alts rs) = altMatcher (map (compile ic) rs)"
| "compile ic (Rep r mn mx greedy) = repeatMatcher (compile ic r) (groupsOf r) mn mx greedy"
| "compile ic (Grp n r) = (\<lambda>k s. compile ic r (\<lambda>y. k (closeGroup n s y)) s)"
| "compile ic Bol = (\<lambda>k s. if prev s = None then k s else None)"
| "compile ic Eol = (\<lambda>k s. if rest s = [] then k s else None)"
| "compile ic WordB = (\<lambda>k s. if atWordBoundary s then k s else None)"

text \<open>
  The result of a match: where it starts, the matched text (element 0 of the match array)
  and the groups 1, 2, ... (undefined when the group took no part).
\<close>

record rmatch =
  mindex :: nat
  mtext :: string
  mgroups :: "string option list"

definition nGroups :: "jsregex \<Rightarrow> nat" where
  "nGroups re = length (groupsOf (body re))"

definition mkMatch :: "jsregex \<Rightarrow> nat \<Rightarrow> string \<Rightarrow> mstate \<Rightarrow> rmatch" where
  "mkMatch re i cs y =
     \<lparr>mindex = i,
      mtext = take (length cs - length (rest y)) cs,
      mgroups = map (\<lambda>g. map_of (caps y) (Suc g)) [0 ..< nGroups re]\<rparr>"

text \<open>A match that starts exactly at the current position (a sticky match).\<close>

definition matchHere :: "jsregex \<Rightarrow> nat \<Rightarrow> char option \<Rightarrow> string \<Rightarrow> rmatch option" where
  "matchHere re i p cs =
     (case compile (ignoreCase re) (body re) Some (MState p cs []) of
        Some y \<Rightarrow> Some (mkMatch re i cs y)
      | None \<Rightarrow> None)"

text \<open>The search of \<^verbatim>\<open>exec\<close>: the first start position, left to right, with a match.\<close>

fun execFrom :: "jsregex \<Rightarrow> nat \<Rightarrow> char option \<Rightarrow> string \<Rightarrow> rmatch option" where
  "execFrom re i p [] = matchHere re i p []"
| "execFrom re i p (c # cs) =
     (case matchHere re i p (c # cs) of
        Some m \<Rightarrow> Some m
      | None \<Rightarrow> execFrom re (Suc i) (Some c) cs)"

text \<open>\<^verbatim>\<open>s.match(re)\<close> and \<^verbatim>\<open>re.exec(s)\<close> for a pattern without the flag \<^verbatim>\<open>g\<close>.\<close>

definition regexMatch :: "string \<Rightarrow> jsregex \<Rightarrow> rmatch option" where
  "regexMatch s re = execFrom re 0 None s"

text \<open>\<^verbatim>\<open>re.test(s)\<close>\<close>

definition regexTest :: "jsregex \<Rightarrow> string \<Rightarrow> bool" where
  "regexTest re s = (regexMatch s re \<noteq> None)"

text \<open>The three ways a pattern literal is written in the sources: plain, with \<^verbatim>\<open>i\<close>, with \<^verbatim>\<open>g\<close>.\<close>

definition rx :: "regex \<Rightarrow> jsregex" where
  "rx r = \<lparr>body = r, ignoreCase = False, globalFlag = False\<rparr>"

definition rxi :: "regex \<Rightarrow> jsregex" where
  "rxi r = \<lparr>body = r, ignoreCase = True, globalFlag = False\<rparr>"

definition rxg :: "regex \<Rightarrow> jsregex" where
  "rxg r = \<lparr>body = r, ignoreCase = False, globalFlag = True\<rparr>"

text \<open>
  \<^verbatim>\<open>s.replace(re, repl)\<close> for a pattern without the flag \<^verbatim>\<open>g\<close> and a replacement text
  without \<^verbatim>\<open>$\<close>: the first match is replaced.
\<close>

definition replaceFirst :: "string \<Rightarrow> jsregex \<Rightarrow> string \<Rightarrow> string" where
  "replaceFirst s re repl =
     (case regexMatch s re of
        None \<Rightarrow> s
      | Some m \<Rightarrow> take (mindex m) s @ repl @ drop (mindex m + length (mtext m)) s)"

text \<open>
  \<^verbatim>\<open>s.replace(re, repl)\<close> for a pattern with the flag \<^verbatim>\<open>g\<close>: every match, left to right,
  each search starting where the last match ended, or one further on after an empty match.
  The walk is over the positions of the string; \<open>skip\<close> counts the characters of a match
  that are still to be passed over.
\<close>

fun replaceWalk :: "jsregex \<Rightarrow> string \<Rightarrow> nat \<Rightarrow> char option \<Rightarrow> nat \<Rightarrow> string \<Rightarrow> string" where
  "replaceWalk re repl i p skip [] =
     (if skip = 0 \<and> matchHere re i p [] \<noteq> None then repl else [])"
| "replaceWalk re repl i p skip (c # cs) =
     (if 0 < skip then replaceWalk re repl (Suc i) (Some c) (skip - 1) cs
      else
        (case matchHere re i p (c # cs) of
           None \<Rightarrow> c # replaceWalk re repl (Suc i) (Some c) 0 cs
         | Some m \<Rightarrow>
             if mtext m = [] then repl @ c # replaceWalk re repl (Suc i) (Some c) 0 cs
             else repl @ replaceWalk re repl (Suc i) (Some c) (length (mtext m) - 1) cs))"

definition replaceAll :: "string \<Rightarrow> jsregex \<Rightarrow> string \<Rightarrow> string" where
  "replaceAll s re repl = replaceWalk re repl 0 None 0 s"

text \<open>
  \<^verbatim>\<open>s.split(re)\<close> for a pattern without groups: at each position the pattern is tried
  there and nowhere else; a match that ends where the current piece starts is passed by;
  any other match closes the piece and is left out. \<open>cur\<close> is the piece so far.
\<close>

fun splitWalk :: "jsregex \<Rightarrow> nat \<Rightarrow> char option \<Rightarrow> nat \<Rightarrow> string \<Rightarrow> string \<Rightarrow> string list" where
  "splitWalk re i p skip cur [] = [cur]"
| "splitWalk re i p skip cur (c # cs) =
     (if 0 < skip then splitWalk re (Suc i) (Some c) (skip - 1) [] cs
      else
        (case matchHere re i p (c # cs) of
           None \<Rightarrow> splitWalk re (Suc i) (Some c) 0 (cur @ [c]) cs
         | Some m \<Rightarrow>
             if mtext m = [] \<and> cur = [] then splitWalk re (Suc i) (Some c) 0 (cur @ [c]) cs
             else if mtext m = [] then cur # splitWalk re (Suc i) (Some c) 0 [c] cs
             else cur # splitWalk re (Suc i) (Some c) (length (mtext m) - 1) [] cs))"

definition splitRegex :: "string \<Rightarrow> jsregex \<Rightarrow> string list" where
  "splitRegex s re =
     (if s = [] then (if matchHere re 0 None [] \<noteq> None then [] else [s])
      else splitWalk re 0 None 0 [] s)"

section \<open>JavaScript objects and JSON\<close>

text \<open>
  An object is kept as the list of its own properties in the order JavaScript enumerates
  them: the keys that are array indices first, in rising order, then the other keys in the
  order they were created. \<open>propSet\<close> is the assignment \<^verbatim>\<open>obj[key] = v\<close> to a data property
  (and the property definition of an object literal and of \<^verbatim>\<open>JSON.parse\<close>).
\<close>

definition digitVal :: "char \<Rightarrow> int" where
  "digitVal c = int (length (takeWhile (\<lambda>d. d \<noteq> c) ''0123456789''))"

definition intOfDigits :: "string \<Rightarrow> int" where
  "intOfDigits ds = foldl (\<lambda>a c. 10 * a + digitVal c) 0 ds"

definition isArrayIndex :: "string \<Rightarrow> bool" where
  "isArrayIndex k =
     (k = ''0'' \<or>
      (k \<noteq> [] \<and> hd k \<noteq> CHR ''0'' \<and> list_all isDigit k \<and> length k \<le> 10
       \<and> intOfDigits k < 4294967295))"

fun propInsertIndex :: "(string \<times> 'v) list \<Rightarrow> string \<Rightarrow> 'v \<Rightarrow> (string \<times> 'v) list" where
  "propInsertIndex [] key v = [(key, v)]"
| "propInsertIndex ((k, x) # ps) key v =
     (if isArrayIndex k \<and> intOfDigits k < intOfDigits key
      then (k, x) # propInsertIndex ps key v
      else (key, v) # (k, x) # ps)"

fun propReplace :: "(string \<times> 'v) list \<Rightarrow> string \<Rightarrow> 'v \<Rightarrow> (string \<times> 'v) list" where
  "propReplace [] key v = []"
| "propReplace ((k, x) # ps) key v =
     (if k = key then (k, v) # ps else (k, x) # propReplace ps key v)"

definition propSet :: "(string \<times> 'v) list \<Rightarrow> string \<Rightarrow> 'v \<Rightarrow> (string \<times> 'v) list" where
  "propSet ps key v =
     (if key \<in> set (map fst ps) then propReplace ps key v
      else if isArrayIndex key then propInsertIndex ps key v
      else ps @ [(key, v)])"

text \<open>
  A JSON value. A number is kept as its text: the source turns it into a double and prints
  the shortest decimal that reads back, which is the same text for the integers below
  \<open>2^53\<close> written without exponent.
\<close>

datatype json =
    JNull
  | JBool bool
  | JNum string
  | JStr string
  | JArr "json list"
  | JObj "(string \<times> json) list"

subsection \<open>\<^verbatim>\<open>JSON.parse\<close>\<close>

text \<open>
  The JSON grammar, read in two passes that each consume one symbol at a time: the
  characters into tokens, and the tokens into a value with a stack of the arrays and
  objects that are still open. The result \<open>None\<close> is the SyntaxError that
  \<^verbatim>\<open>JSON.parse\<close> throws.
\<close>

datatype token =
    TLBrace | TRBrace | TLBracket | TRBracket | TColon | TComma
  | TStr string | TNum string | TTrue | TFalse | TNull

datatype lexMode =
    LStart
  | LString string
  | LEscape string
  | LUnicode string string
  | LNumber string
  | LWord string token

definition isJsonSpace :: "char \<Rightarrow> bool" where
  "isJsonSpace c = (c \<in> set [CHR 0x20, CHR 0x09, CHR 0x0A, CHR 0x0D])"

definition isNumberChar :: "char \<Rightarrow> bool" where
  "isNumberChar c = (isDigit c \<or> c \<in> set ''+-.eE'')"

text \<open>The number grammar: \<^verbatim>\<open>-?(0|[1-9][0-9]*)(\.[0-9]+)?([eE][+-]?[0-9]+)?\<close>\<close>

definition numberPattern :: jsregex where
  "numberPattern = rx (Cat [Bol, Opt (Lit ''-''),
     Alts [Lit ''0'', Cat [Cls [CRange (CHR ''1'') (CHR ''9'')], Star (Cls [CDigit])]],
     Opt (Cat [Lit ''.'', Plus (Cls [CDigit])]),
     Opt (Cat [Cls [CChar (CHR ''e''), CChar (CHR ''E'')],
               Opt (Cls [CChar (CHR ''+''), CChar (CHR ''-'')]), Plus (Cls [CDigit])]),
     Eol])"

definition validNumber :: "string \<Rightarrow> bool" where
  "validNumber lexeme = regexTest numberPattern lexeme"

definition isHexDigit :: "char \<Rightarrow> bool" where
  "isHexDigit c = (charToLower c \<in> set ''0123456789abcdef'')"

definition hexVal :: "char \<Rightarrow> nat" where
  "hexVal c = length (takeWhile (\<lambda>d. d \<noteq> charToLower c) ''0123456789abcdef'')"

text \<open>
  The code unit of an escape \<^verbatim>\<open>\uXXXX\<close>. A code unit above 255 does not fit a character
  of the model and is written as its UTF-8 bytes, as such characters are throughout.
\<close>

definition decodeUnit :: "string \<Rightarrow> string" where
  "decodeUnit hex =
     (let n = foldl (\<lambda>a c. 16 * a + hexVal c) 0 hex in
      if n < 256 then [char_of n]
      else if n < 2048 then [char_of (192 + n div 64), char_of (128 + n mod 64)]
      else [char_of (224 + n div 4096), char_of (128 + (n div 64) mod 64), char_of (128 + n mod 64)])"

definition stepStart :: "char \<Rightarrow> (token list \<times> lexMode) option" where
  \<open>stepStart c =
     (if isJsonSpace c then Some ([], LStart)
      else if c = CHR ''{'' then Some ([TLBrace], LStart)
      else if c = CHR ''}'' then Some ([TRBrace], LStart)
      else if c = CHR ''['' then Some ([TLBracket], LStart)
      else if c = CHR '']'' then Some ([TRBracket], LStart)
      else if c = CHR '':'' then Some ([TColon], LStart)
      else if c = CHR '','' then Some ([TComma], LStart)
      else if c = CHR 0x22 then Some ([], LString [])
      else if c = CHR ''-'' \<or> isDigit c then Some ([], LNumber [c])
      else if c = CHR ''t'' then Some ([], LWord ''rue'' TTrue)
      else if c = CHR ''f'' then Some ([], LWord ''alse'' TFalse)
      else if c = CHR ''n'' then Some ([], LWord ''ull'' TNull)
      else None)\<close>

fun lexStep :: "lexMode \<Rightarrow> char \<Rightarrow> (token list \<times> lexMode) option" where
  "lexStep LStart c = stepStart c"
| "lexStep (LString acc) c =
     (if c = CHR 0x22 then Some ([TStr acc], LStart)
      else if c = CHR 0x5C then Some ([], LEscape acc)
      else if c < CHR 0x20 then None
      else Some ([], LString (acc @ [c])))"
| "lexStep (LEscape acc) c =
     (if c = CHR 0x22 \<or> c = CHR 0x5C \<or> c = CHR ''/'' then Some ([], LString (acc @ [c]))
      else if c = CHR ''b'' then Some ([], LString (acc @ [CHR 0x08]))
      else if c = CHR ''f'' then Some ([], LString (acc @ [CHR 0x0C]))
      else if c = CHR ''n'' then Some ([], LString (acc @ [CHR 0x0A]))
      else if c = CHR ''r'' then Some ([], LString (acc @ [CHR 0x0D]))
      else if c = CHR ''t'' then Some ([], LString (acc @ [CHR 0x09]))
      else if c = CHR ''u'' then Some ([], LUnicode acc [])
      else None)"
| "lexStep (LUnicode acc hex) c =
     (if \<not> isHexDigit c then None
      else if length hex = 3 then Some ([], LString (acc @ decodeUnit (hex @ [c])))
      else Some ([], LUnicode acc (hex @ [c])))"
| "lexStep (LNumber lexeme) c =
     (if isNumberChar c then Some ([], LNumber (lexeme @ [c]))
      else if validNumber lexeme
      then (case stepStart c of None \<Rightarrow> None | Some (ts, m) \<Rightarrow> Some (TNum lexeme # ts, m))
      else None)"
| "lexStep (LWord [] tok) c = None"
| "lexStep (LWord (w # ws) tok) c =
     (if c \<noteq> w then None
      else if ws = [] then Some ([tok], LStart)
      else Some ([], LWord ws tok))"

fun lexAll :: "lexMode \<Rightarrow> string \<Rightarrow> token list option" where
  "lexAll mode [] =
     (case mode of
        LStart \<Rightarrow> Some []
      | LNumber lexeme \<Rightarrow> if validNumber lexeme then Some [TNum lexeme] else None
      | _ \<Rightarrow> None)"
| "lexAll mode (c # cs) =
     (case lexStep mode c of
        None \<Rightarrow> None
      | Some (ts, mode') \<Rightarrow>
          (case lexAll mode' cs of None \<Rightarrow> None | Some others \<Rightarrow> Some (ts @ others)))"

text \<open>
  The open containers: an array with its elements so far, an object with its members so
  far and the key that waits for its value.
\<close>

datatype frame =
    FArr "json list"
  | FObj "(string \<times> json) list" "string option"

datatype pstate =
    PValue
  | PValueOrEnd
  | PKeyOrEnd
  | PKey
  | PColon
  | PAfter
  | PDone json

fun putValue :: "json \<Rightarrow> frame list \<Rightarrow> (pstate \<times> frame list) option" where
  "putValue v [] = Some (PDone v, [])"
| "putValue v (FArr xs # st) = Some (PAfter, FArr (xs @ [v]) # st)"
| "putValue v (FObj ms (Some k) # st) = Some (PAfter, FObj (propSet ms k v) None # st)"
| "putValue v (FObj ms None # st) = None"

fun closeArray :: "frame list \<Rightarrow> (pstate \<times> frame list) option" where
  "closeArray (FArr xs # st) = putValue (JArr xs) st"
| "closeArray _ = None"

fun closeObject :: "frame list \<Rightarrow> (pstate \<times> frame list) option" where
  "closeObject (FObj ms None # st) = putValue (JObj ms) st"
| "closeObject _ = None"

fun setKey :: "string \<Rightarrow> frame list \<Rightarrow> (pstate \<times> frame list) option" where
  "setKey k (FObj ms None # st) = Some (PColon, FObj ms (Some k) # st)"
| "setKey k _ = None"

fun startValue :: "token \<Rightarrow> frame list \<Rightarrow> (pstate \<times> frame list) option" where
  "startValue (TStr s) st = putValue (JStr s) st"
| "startValue (TNum n) st = putValue (JNum n) st"
| "startValue TTrue st = putValue (JBool True) st"
| "startValue TFalse st = putValue (JBool False) st"
| "startValue TNull st = putValue JNull st"
| "startValue TLBracket st = Some (PValueOrEnd, FArr [] # st)"
| "startValue TLBrace st = Some (PKeyOrEnd, FObj [] None # st)"
| "startValue _ st = None"

fun parseStep :: "pstate \<Rightarrow> frame list \<Rightarrow> token \<Rightarrow> (pstate \<times> frame list) option" where
  "parseStep PValue st t = startValue t st"
| "parseStep PValueOrEnd st t = (if t = TRBracket then closeArray st else startValue t st)"
| "parseStep PKeyOrEnd st t =
     (case t of TStr k \<Rightarrow> setKey k st | TRBrace \<Rightarrow> closeObject st | _ \<Rightarrow> None)"
| "parseStep PKey st t = (case t of TStr k \<Rightarrow> setKey k st | _ \<Rightarrow> None)"
| "parseStep PColon st t = (if t = TColon then Some (PValue, st) else None)"
| "parseStep PAfter st t =
     (case t of
        TComma \<Rightarrow> (case st of FArr _ # _ \<Rightarrow> Some (PValue, st)
                             | FObj _ _ # _ \<Rightarrow> Some (PKey, st)
                             | [] \<Rightarrow> None)
      | TRBracket \<Rightarrow> closeArray st
      | TRBrace \<Rightarrow> closeObject st
      | _ \<Rightarrow> None)"
| "parseStep (PDone v) st t = None"

fun parseAll :: "pstate \<Rightarrow> frame list \<Rightarrow> token list \<Rightarrow> json option" where
  "parseAll ps st [] = (case ps of PDone v \<Rightarrow> Some v | _ \<Rightarrow> None)"
| "parseAll ps st (t # ts) =
     (case parseStep ps st t of None \<Rightarrow> None | Some (ps', st') \<Rightarrow> parseAll ps' st' ts)"

definition JSON_parse :: "string \<Rightarrow> json option" where
  "JSON_parse s = (case lexAll LStart s of None \<Rightarrow> None | Some ts \<Rightarrow> parseAll PValue [] ts)"

subsection \<open>\<^verbatim>\<open>JSON.stringify(value, null, 2)\<close>\<close>

definition joinStr :: "string \<Rightarrow> string list \<Rightarrow> string" where
  "joinStr sep xs = (case xs of [] \<Rightarrow> [] | y # ys \<Rightarrow> foldl (\<lambda>a b. a @ sep @ b) y ys)"

definition hexDigit :: "nat \<Rightarrow> char" where
  "hexDigit n = ''0123456789abcdef'' ! (n mod 16)"

definition quoteChar :: "char \<Rightarrow> string" where
  "quoteChar c =
     (if c = CHR 0x22 then [CHR 0x5C, CHR 0x22]
      else if c = CHR 0x5C then [CHR 0x5C, CHR 0x5C]
      else if c = CHR 0x08 then [CHR 0x5C, CHR ''b'']
      else if c = CHR 0x0C then [CHR 0x5C, CHR ''f'']
      else if c = CHR 0x0A then [CHR 0x5C, CHR ''n'']
      else if c = CHR 0x0D then [CHR 0x5C, CHR ''r'']
      else if c = CHR 0x09 then [CHR 0x5C, CHR ''t'']
      else if c < CHR 0x20
      then [CHR 0x5C, CHR ''u'', CHR ''0'', CHR ''0'', hexDigit (of_char c div 16), hexDigit (of_char c)]
      else [c])"

definition quoteJSON :: "string \<Rightarrow> string" where
  "quoteJSON s = [CHR 0x22] @ concat (map quoteChar s) @ [CHR 0x22]"

fun serialize :: "string \<Rightarrow> json \<Rightarrow> string" where
  "serialize ind JNull = ''null''"
| "serialize ind (JBool b) = (if b then ''true'' else ''false'')"
| "serialize ind (JNum n) = n"
| "serialize ind (JStr s) = quoteJSON s"
| "serialize ind (JArr xs) =
     (if xs = [] then ''[]''
      else ''['' @ ''\<newline>'' @ (ind @ ''  '')
           @ joinStr ('','' @ ''\<newline>'' @ (ind @ ''  '')) (map (serialize (ind @ ''  '')) xs)
           @ ''\<newline>'' @ ind @ '']'')"
| "serialize ind (JObj ms) =
     (if ms = [] then ''{}''
      else ''{'' @ ''\<newline>'' @ (ind @ ''  '')
           @ joinStr ('','' @ ''\<newline>'' @ (ind @ ''  ''))
               (map (\<lambda>(k, v). quoteJSON k @ '': '' @ serialize (ind @ ''  '') v) ms)
           @ ''\<newline>'' @ ind @ ''}'')"

definition JSON_stringify2 :: "json \<Rightarrow> string" where
  "JSON_stringify2 v = serialize [] v"


section \<open>Intent detection\<close>

text \<open>The type \<^verbatim>\<open>Intent\<close> of the intent module, and the string each value is in the source.\<close>

datatype Intent =
    Architecture_update
  | Cdk_generation
  | Code_generation
  | Code_explanation
  | Architecture_explanation
  | Architecture_rationale
  | System_design
  | Comparison
  | Question
  | Greeting
  | General_chat

fun intentString :: "Intent \<Rightarrow> string" where
  "intentString Architecture_update = ''architecture_update''"
| "intentString Cdk_generation = ''cdk_generation''"
| "intentString Code_generation = ''code_generation''"
| "intentString Code_explanation = ''code_explanation''"
| "intentString Architecture_explanation = ''architecture_explanation''"
| "intentString Architecture_rationale = ''architecture_rationale''"
| "intentString System_design = ''system_design''"
| "intentString Comparison = ''comparison''"
| "intentString Question = ''question''"
| "intentString Greeting = ''greeting''"
| "intentString General_chat = ''general_chat''"

text \<open>
  The interface \<^verbatim>\<open>IntentRule\<close>. The optional fields \<^verbatim>\<open>keywordSets\<close> and
  \<^verbatim>\<open>requiresContext\<close> are options: \<open>None\<close> where the rule leaves them out.
\<close>

record IntentRule =
  rintent :: Intent
  rpatterns :: "jsregex list"
  keywordSets :: "string list list option"
  requiresContext :: "bool option"
  rweight :: int


definition greetingRule :: IntentRule where
  \<open>greetingRule = \<lparr>
    rintent = Greeting,
    rpatterns = [
      rxi (Cat [Bol, Grp 1 (Alts [Lit ''hi'', Lit ''hello'', Lit ''hey'', Lit ''greetings'',
        Lit ''howdy'', Cat [Lit ''good '', Grp 2 (Words [''morning'', ''afternoon'', ''evening''])],
        Cat [Lit ''what'', Opt (Lit [CHR 0x27]), Lit ''s up'']])])],
    keywordSets = None,
    requiresContext = None,
    rweight = 10\<rparr>\<close>

definition architectureUpdateRule :: IntentRule where
  \<open>architectureUpdateRule = \<lparr>
    rintent = Architecture_update,
    rpatterns = [
      rxi (Cat [Lit ''update '', Grp 1 (Words [''the'', ''this'', ''my'', ''our'']), Lit '' '',
        Grp 2 (Words [''architecture'', ''diagram'', ''system''])]),
      rxi (Cat [Lit ''add '', Plus Dot, Lit '' to '', Grp 1 (Words [''the'', ''this'', ''my'',
        ''our'']), Lit '' '', Grp 2 (Words [''architecture'', ''diagram'', ''system''])]),
      rxi (Cat [Lit ''modify '', Grp 1 (Words [''the'', ''this'', ''my'', ''our'']), Lit '' '',
        Grp 2 (Words [''architecture'', ''diagram'', ''system''])]),
      rxi (Cat [Lit ''change '', Grp 1 (Words [''the'', ''this'', ''my'', ''our'']), Lit '' '',
        Grp 2 (Words [''architecture'', ''diagram'', ''system''])]),
      rxi (Cat [Lit ''redesign '', Grp 1 (Words [''the'', ''this'', ''my'', ''our'']), Lit '' '',
        Grp 2 (Words [''architecture'', ''diagram'', ''system''])])],
    keywordSets = Some [
      [''add'', ''architecture''],
      [''update'', ''architecture''],
      [''modify'', ''architecture''],
      [''change'', ''architecture''],
      [''redesign'', ''architecture'']],
    requiresContext = Some True,
    rweight = 90\<rparr>\<close>

definition architectureRationaleRule :: IntentRule where
  \<open>architectureRationaleRule = \<lparr>
    rintent = Architecture_rationale,
    rpatterns = [
      rxi (Cat [Lit ''provide'', Star Dot, Grp 1 (Words [''rationale'', ''explanation'',
        ''analysis'', ''assessment'', ''evaluation'', ''review'', ''breakdown'', ''cost analysis'',
        ''costing'']), Star Dot, Grp 2 (Words [''for'', ''of'', ''about'']), Star Dot,
        Grp 3 (Words [''this'', ''the'', ''current'', ''existing'']), Star Dot,
        Grp 4 (Words [''architecture'', ''design'', ''system'', ''diagram''])]),
      rxi (Cat [Lit ''generate'', Star Dot, Grp 1 (Words [''rationale'', ''explanation'',
        ''analysis'', ''assessment'', ''evaluation'', ''review'', ''breakdown'', ''cost analysis'',
        ''costing'']), Star Dot, Grp 2 (Words [''for'', ''of'', ''about'']), Star Dot,
        Grp 3 (Words [''this'', ''the'', ''current'', ''existing'']), Star Dot,
        Grp 4 (Words [''architecture'', ''design'', ''system'', ''diagram''])]),
      rxi (Cat [Lit ''explain'', Star Dot, Grp 1 (Alts [Lit ''rationale'', Lit ''reasoning'',
        Lit ''thinking'', Lit ''logic'', Lit ''decision'', Cat [Lit ''cost'', Opt (Lit ''s'')],
        Lit ''pricing'']), Star Dot, Grp 2 (Words [''behind'', ''for'', ''of'']), Star Dot,
        Grp 3 (Words [''this'', ''the'', ''current'', ''existing'']), Star Dot,
        Grp 4 (Words [''architecture'', ''design'', ''system'', ''diagram''])]),
      rxi (Cat [Grp 1 (Words [''analyze'', ''assess'', ''evaluate'', ''review'']), Star Dot,
        Grp 2 (Words [''this'', ''the'', ''current'', ''existing'']), Star Dot,
        Grp 3 (Words [''architecture'', ''design'', ''system'', ''diagram''])]),
      rxi (Cat [Lit ''what'', Grp 1 (Words [([CHR 0x27] @ ''s''), '' is'', '' are'']), Star Dot,
        Grp 2 (Lit ''the''), Star Dot, Grp 3 (Alts [Cat [Lit ''cost'', Opt (Lit ''s'')],
        Lit ''pricing'', Cat [Lit ''expense'', Opt (Lit ''s'')], Lit ''budget'']), Star Dot,
        Grp 4 (Words [''of'', ''for'']), Star Dot, Grp 5 (Words [''this'', ''the'', ''current'',
        ''existing'']), Star Dot, Grp 6 (Words [''architecture'', ''design'', ''system'',
        ''diagram''])]),
      rxi (Cat [Lit ''how much'', Star Dot, Grp 1 (Words [''would'', ''does'', ''will'']), Star Dot,
        Grp 2 (Words [''this'', ''the'', ''current'', ''existing'']), Star Dot,
        Grp 3 (Words [''architecture'', ''design'', ''system'', ''diagram'']), Star Dot,
        Grp 4 (Lit ''cost'')]),
      rxi (Cat [Lit ''break down'', Star Dot, Grp 1 (Words [''this'', ''the'', ''current'']),
        Star Dot, Grp 2 (Words [''architecture'', ''design'', ''system'', ''diagram''])])],
    keywordSets = Some [
      [''rationale'', ''architecture''],
      [''explain'', ''architecture''],
      [''analyze'', ''architecture''],
      [''cost'', ''architecture''],
      [''costs'', ''architecture''],
      [''pricing'', ''architecture''],
      [''evaluation'', ''architecture''],
      [''breakdown'', ''architecture''],
      [''analysis'', ''architecture''],
      [''assessment'', ''architecture'']],
    requiresContext = Some True,
    rweight = 85\<rparr>\<close>

definition cdkGenerationRule :: IntentRule where
  \<open>cdkGenerationRule = \<lparr>
    rintent = Cdk_generation,
    rpatterns = [
      rxi (Cat [Lit ''generate'', Star Dot, Grp 1 (Words [''cdk'', ''cloud development kit'']),
        Star Dot, Grp 2 (Words [''code'', ''implementation''])]),
      rxi (Cat [Lit ''create'', Star Dot, Grp 1 (Words [''cdk'', ''cloud development kit'']),
        Star Dot, Grp 2 (Words [''code'', ''implementation''])]),
      rxi (Cat [Lit ''write'', Star Dot, Grp 1 (Words [''cdk'', ''cloud development kit'']),
        Star Dot, Grp 2 (Words [''code'', ''implementation''])]),
      rxi (Cat [Lit ''implement'', Star Dot, Grp 1 (Words [''architecture'', ''diagram'',
        ''design'']), Star Dot, Grp 2 (Words [''using'', ''with'', ''in'']), Star Dot,
        Grp 3 (Words [''cdk'', ''cloud development kit''])]),
      rxi (Cat [Lit ''convert'', Star Dot, Grp 1 (Words [''architecture'', ''diagram'', ''design'']),
        Star Dot, Grp 2 (Words [''to'', ''into'']), Star Dot, Grp 3 (Words [''cdk'',
        ''cloud development kit''])])],
    keywordSets = Some [
      [''generate'', ''cdk''],
      [''create'', ''cdk''],
      [''write'', ''cdk''],
      [''implement'', ''cdk''],
      [''convert'', ''cdk'']],
    requiresContext = Some True,
    rweight = 100\<rparr>\<close>

definition codeGenerationRule :: IntentRule where
  \<open>codeGenerationRule = \<lparr>
    rintent = Code_generation,
    rpatterns = [
      rxi (Cat [Lit ''generate'', Star Dot, Grp 1 (Words [''code'', ''function'', ''class'',
        ''module''])]),
      rxi (Cat [Lit ''write'', Star Dot, Grp 1 (Words [''code'', ''function'', ''class'',
        ''module''])]),
      rxi (Cat [Lit ''create'', Star Dot, Grp 1 (Words [''code'', ''function'', ''class'',
        ''module''])]),
      rxi (Cat [Lit ''implement'', Star Dot, Grp 1 (Words [''in'', ''using'']), Star Dot,
        Grp 2 (Words [''javascript'', ''typescript'', ''python'', ''java'', ''c#'', ''go''])]),
      rxi (Cat [Lit ''code'', Star Dot, Grp 1 (Words [''for'', ''that'']), Star Dot,
        Grp 2 (Words [''does'', ''performs'', ''handles'', ''implements''])])],
    keywordSets = Some [
      [''generate'', ''code''],
      [''write'', ''code''],
      [''create'', ''code''],
      [''implement'', ''function''],
      [''code'', ''for'']],
    requiresContext = None,
    rweight = 80\<rparr>\<close>

definition codeExplanationRule :: IntentRule where
  \<open>codeExplanationRule = \<lparr>
    rintent = Code_explanation,
    rpatterns = [
      rxi (Cat [Lit ''explain'', Star Dot, Grp 1 (Words [''this'', ''the'']), Star Dot,
        Grp 2 (Words [''code'', ''function'', ''class'', ''module''])]),
      rxi (Cat [Lit ''how'', Star Dot, Grp 1 (Words [''does'', ''do'']), Star Dot,
        Grp 2 (Words [''this'', ''the'']), Star Dot, Grp 3 (Words [''code'', ''function'', ''class'',
        ''module'']), Star Dot, Grp 4 (Words [''work'', ''function''])]),
      rxi (Cat [Lit ''what'', Star Dot, Grp 1 (Words [''does'', ''do'']), Star Dot,
        Grp 2 (Words [''this'', ''the'']), Star Dot, Grp 3 (Words [''code'', ''function'', ''class'',
        ''module'']), Star Dot, Grp 4 (Words [''do'', ''mean''])]),
      rxi (Cat [Lit ''understand'', Star Dot, Grp 1 (Words [''this'', ''the'']), Star Dot,
        Grp 2 (Words [''code'', ''function'', ''class'', ''module''])]),
      rxi (Cat [Lit ''analyze'', Star Dot, Grp 1 (Words [''this'', ''the'']), Star Dot,
        Grp 2 (Words [''code'', ''function'', ''class'', ''module''])])],
    keywordSets = Some [
      [''explain'', ''code''],
      [''how'', ''code'', ''work''],
      [''what'', ''code'', ''do''],
      [''understand'', ''code''],
      [''analyze'', ''code'']],
    requiresContext = None,
    rweight = 70\<rparr>\<close>

definition architectureExplanationRule :: IntentRule where
  \<open>architectureExplanationRule = \<lparr>
    rintent = Architecture_explanation,
    rpatterns = [
      rxi (Cat [Lit ''explain'', Star Dot, Grp 1 (Words [''this'', ''the'']), Star Dot,
        Grp 2 (Words [''architecture'', ''diagram'', ''system'', ''design''])]),
      rxi (Cat [Lit ''how'', Star Dot, Grp 1 (Words [''does'', ''do'']), Star Dot,
        Grp 2 (Words [''this'', ''the'']), Star Dot, Grp 3 (Words [''architecture'', ''diagram'',
        ''system'', ''design'']), Star Dot, Grp 4 (Words [''work'', ''function''])]),
      rxi (Cat [Lit ''what'', Star Dot, Grp 1 (Words [''does'', ''do'']), Star Dot,
        Grp 2 (Words [''this'', ''the'']), Star Dot, Grp 3 (Words [''architecture'', ''diagram'',
        ''system'', ''design'']), Star Dot, Grp 4 (Words [''do'', ''mean''])]),
      rxi (Cat [Lit ''understand'', Star Dot, Grp 1 (Words [''this'', ''the'']), Star Dot,
        Grp 2 (Words [''architecture'', ''diagram'', ''system'', ''design''])]),
      rxi (Cat [Lit ''analyze'', Star Dot, Grp 1 (Words [''this'', ''the'']), Star Dot,
        Grp 2 (Words [''architecture'', ''diagram'', ''system'', ''design''])])],
    keywordSets = Some [
      [''explain'', ''architecture''],
      [''how'', ''architecture'', ''work''],
      [''what'', ''architecture'', ''do''],
      [''understand'', ''architecture''],
      [''analyze'', ''architecture'']],
    requiresContext = Some True,
    rweight = 75\<rparr>\<close>

definition systemDesignRule :: IntentRule where
  \<open>systemDesignRule = \<lparr>
    rintent = System_design,
    rpatterns = [
      rxi (Cat [Lit ''design'', Star Dot, Grp 1 (Words [''a'', ''an'']), Star Dot,
        Grp 2 (Words [''architecture'', ''system'', ''solution''])]),
      rxi (Cat [Lit ''create'', Star Dot, Grp 1 (Words [''a'', ''an'']), Star Dot,
        Grp 2 (Words [''architecture'', ''system'', ''solution'']), Star Dot, Grp 3 (Words [''for'',
        ''that''])]),
      rxi (Cat [Lit ''architect'', Star Dot, Grp 1 (Words [''a'', ''an'']), Star Dot,
        Grp 2 (Words [''system'', ''solution'']), Star Dot, Grp 3 (Words [''for'', ''that''])]),
      rxi (Cat [Lit ''how'', Star Dot, Grp 1 (Words [''would'', ''should'', ''could'']), Star Dot,
        Grp 2 (Words [''you'', ''we'', ''I'']), Star Dot, Grp 3 (Words [''architect'', ''design'',
        ''build'', ''create'']), Star Dot, Grp 4 (Words [''a'', ''an'']), Star Dot,
        Grp 5 (Words [''system'', ''solution''])]),
      rxi (Cat [Lit ''what'', Star Dot, Grp 1 (Words [''architecture'', ''system'', ''solution'']),
        Star Dot, Grp 2 (Words [''would'', ''should'', ''could'']), Star Dot, Grp 3 (Words [''you'',
        ''we'', ''I'']), Star Dot, Grp 4 (Words [''use'', ''implement'', ''create'']), Star Dot,
        Grp 5 (Words [''for'', ''to''])])],
    keywordSets = Some [
      [''design'', ''architecture''],
      [''create'', ''system''],
      [''architect'', ''solution''],
      [''how'', ''design'', ''system''],
      [''what'', ''architecture'', ''use'']],
    requiresContext = None,
    rweight = 85\<rparr>\<close>

definition comparisonRule :: IntentRule where
  \<open>comparisonRule = \<lparr>
    rintent = Comparison,
    rpatterns = [
      rxi (Cat [Lit ''compare'', Star Dot, Grp 1 (Words [''between'', ''with'', ''and''])]),
      rxi (Cat [Lit ''difference'', Star Dot, Grp 1 (Words [''between'', ''with'', ''and''])]),
      rxi (Cat [Lit ''similarities'', Star Dot, Grp 1 (Words [''between'', ''with'', ''and''])]),
      rxi (Cat [Lit ''pros'', Star Dot, Grp 1 (Lit ''and''), Star Dot, Grp 2 (Words [''cons'',
        ''benefits'', ''advantages'', ''disadvantages''])]),
      rxi (Cat [Lit ''better'', Star Dot, Grp 1 (Words [''option'', ''choice'', ''alternative'',
        ''approach''])]),
      rxi (Cat [Lit ''which'', Star Dot, Grp 1 (Words [''is'', ''are'']), Star Dot,
        Grp 2 (Words [''better'', ''best'', ''optimal'', ''preferred''])])],
    keywordSets = Some [
      [''compare''],
      [''difference'', ''between''],
      [''similarities''],
      [''pros'', ''cons''],
      [''better'', ''option''],
      [''which'', ''better'']],
    requiresContext = None,
    rweight = 60\<rparr>\<close>

definition questionRule :: IntentRule where
  \<open>questionRule = \<lparr>
    rintent = Question,
    rpatterns = [
      rxi (Cat [Bol, Grp 1 (Words [''what'', ''how'', ''why'', ''when'', ''where'', ''who'',
        ''which'', ''can'', ''could'', ''would'', ''should'', ''is'', ''are'', ''do'', ''does'',
        ''did'', ''has'', ''have'', ''had''])]),
      rx (Cat [Lit ''?'', Opt (Grp 1 (Star Dot)), Eol])],
    keywordSets = None,
    requiresContext = None,
    rweight = 20\<rparr>\<close>

definition generalChatRule :: IntentRule where
  \<open>generalChatRule = \<lparr>
    rintent = General_chat,
    rpatterns = [
      rx (Plus Dot)],
    keywordSets = None,
    requiresContext = None,
    rweight = 1\<rparr>\<close>

definition intentRules :: "IntentRule list" where
  "intentRules = [greetingRule,
     architectureUpdateRule,
     architectureRationaleRule,
     cdkGenerationRule,
     codeGenerationRule,
     codeExplanationRule,
     architectureExplanationRule,
     systemDesignRule,
     comparisonRule,
     questionRule,
     generalChatRule]"


text \<open>The entries \<^verbatim>\<open>{intent, weight}\<close> that \<^verbatim>\<open>inferIntent\<close> collects.\<close>

record IntentMatch =
  mintent :: Intent
  mweight :: int

text \<open>\<^verbatim>\<open>rule.patterns.some(pattern => pattern.test(message))\<close>\<close>

definition patternMatched :: "IntentRule \<Rightarrow> string \<Rightarrow> bool" where
  "patternMatched rule message = list_ex (\<lambda>pattern. regexTest pattern message) (rpatterns rule)"

text \<open>
  The keyword check: true when the rule has no keyword sets; otherwise some set has every
  keyword, lower-cased, in the lower-cased message.
\<close>

definition keywordMatched :: "IntentRule \<Rightarrow> string \<Rightarrow> bool" where
  "keywordMatched rule message =
     (case keywordSets rule of
        None \<Rightarrow> True
      | Some sets \<Rightarrow>
          list_ex (\<lambda>keywordSet.
            list_all (\<lambda>keyword. strIncludes (toLowerCase message) (toLowerCase keyword)) keywordSet)
            sets)"

text \<open>The loop over the rules, with the array \<^verbatim>\<open>matches\<close> it pushes to.\<close>

fun collectMatches :: "IntentRule list \<Rightarrow> string \<Rightarrow> bool \<Rightarrow> IntentMatch list \<Rightarrow> IntentMatch list" where
  "collectMatches [] message hasArchitectureContext matches = matches"
| "collectMatches (rule # rules) message hasArchitectureContext matches =
     (if requiresContext rule = Some True \<and> \<not> hasArchitectureContext
      then collectMatches rules message hasArchitectureContext matches
      else if patternMatched rule message \<and> keywordMatched rule message
      then collectMatches rules message hasArchitectureContext
             (matches @ [\<lparr>mintent = rintent rule, mweight = rweight rule\<rparr>])
      else collectMatches rules message hasArchitectureContext matches)"

text \<open>
  \<^verbatim>\<open>matches.sort((a, b) => b.weight - a.weight)\<close>: the sort of an array is stable, so the
  result is the stable sort by falling weight, which \<open>sort_key\<close> on the negated weight is.
\<close>

definition sortMatches :: "IntentMatch list \<Rightarrow> IntentMatch list" where
  "sortMatches matches = sort_key (\<lambda>m. - mweight m) matches"

definition inferIntent :: "string \<Rightarrow> bool \<Rightarrow> Intent" where
  "inferIntent message hasArchitectureContext =
     (case sortMatches (collectMatches intentRules message hasArchitectureContext []) of
        [] \<Rightarrow> General_chat
      | m # _ \<Rightarrow> mintent m)"

definition isGreeting :: "string \<Rightarrow> bool" where
  "isGreeting message = (inferIntent message False = Greeting)"

text \<open>
  What the claims call a rule that matches, in their words: one of its patterns matches the
  message and, if it has keyword sets, one of them has all its keywords in the message,
  case apart; and a rule is considered unless it requires context and there is none.
\<close>

definition ruleMatches :: "IntentRule \<Rightarrow> string \<Rightarrow> bool" where
  "ruleMatches r message =
     ((\<exists>p \<in> set (rpatterns r). regexTest p message) \<and>
      (\<forall>sets. keywordSets r = Some sets \<longrightarrow>
         (\<exists>ks \<in> set sets. \<forall>kw \<in> set ks. strIncludes (toLowerCase message) (toLowerCase kw))))"

definition ruleConsidered :: "IntentRule \<Rightarrow> bool \<Rightarrow> bool" where
  "ruleConsidered r hasArchitectureContext = (requiresContext r = Some True \<longrightarrow> hasArchitectureContext)"

definition ruleFires :: "IntentRule \<Rightarrow> string \<Rightarrow> bool \<Rightarrow> bool" where
  "ruleFires r message hasArchitectureContext =
     (ruleConsidered r hasArchitectureContext \<and> ruleMatches r message)"

section \<open>Enhanced intent detection (the integration layer)\<close>

text \<open>
  The interface \<^verbatim>\<open>EnhancedIntentMatch\<close>. The confidence is a JavaScript number in the
  source; it is an exact rational here, and no claim depends on its value. The entities
  are an object used as a dictionary, kept as the list of its properties in insertion order.
\<close>

record EnhancedIntentMatch =
  intentType :: Intent
  confidence :: rat
  subType :: "string option"
  entities :: "(string \<times> string) list option"
  trigger :: "string option"

text \<open>
  An entry of the table \<^verbatim>\<open>architectureIntents\<close>; \<open>patternSource\<close> is what
  \<^verbatim>\<open>pattern.toString()\<close> gives, the text of the pattern literal.
\<close>

record ArchitectureIntent =
  aiPattern :: jsregex
  patternSource :: string
  subTypeName :: string
  entityKeys :: "string list"


definition architectureIntents :: "ArchitectureIntent list" where
  \<open>architectureIntents = [
    \<lparr>aiPattern =
       rxi (Cat [Words [''add'', ''include'', ''incorporate''], Plus Ws, Opt (Words [''a'', ''an'']),
         Star Ws, Grp 1 (Plus (Cls [CRange (CHR ''A'') (CHR ''Z''), CRange (CHR ''a'') (CHR ''z''),
         CRange (CHR ''0'') (CHR ''9''), CSpace])), Opt (Alts [Cat [Plus Ws, Lit ''to''], Cat [Plus Ws,
         Lit ''in''], Cat [Plus Ws, Lit ''into''], Cat [Plus Ws, Lit ''for'']])]),
     patternSource =
       (''/(?:add|include|incorporate)'' @ [CHR 0x5C] @ ''s+(?:a|an)?'' @ [CHR 0x5C]
         @ ''s*([A-Za-z0-9'' @ [CHR 0x5C] @ ''s]+)(?:'' @ [CHR 0x5C] @ ''s+to|'' @ [CHR 0x5C] @ ''s+in|''
         @ [CHR 0x5C] @ ''s+into|'' @ [CHR 0x5C] @ ''s+for)?/i''),
     subTypeName = ''add_service'',
     entityKeys = [''serviceName'']\<rparr>,
    \<lparr>aiPattern =
       rxi (Cat [Words [''remove'', ''delete'', ''exclude''], Plus Ws, Opt (Words [''the'', ''a'',
         ''an'']), Star Ws, Grp 1 (Plus (Cls [CRange (CHR ''A'') (CHR ''Z''),
         CRange (CHR ''a'') (CHR ''z''), CRange (CHR ''0'') (CHR ''9''), CSpace])),
         Opt (Alts [Cat [Plus Ws, Lit ''from''], Cat [Plus Ws, Lit ''in'']]), Star Ws,
         Opt (Words [''the'', ''my'', ''our'']), Star Ws, Opt (Words [''architecture'', ''system'',
         ''diagram'', ''project''])]),
     patternSource =
       (''/(?:remove|delete|exclude)'' @ [CHR 0x5C] @ ''s+(?:the|a|an)?'' @ [CHR 0x5C]
         @ ''s*([A-Za-z0-9'' @ [CHR 0x5C] @ ''s]+)(?:'' @ [CHR 0x5C] @ ''s+from|'' @ [CHR 0x5C]
         @ ''s+in)?'' @ [CHR 0x5C] @ ''s*(?:the|my|our)?'' @ [CHR 0x5C]
         @ ''s*(?:architecture|system|diagram|project)?/i''),
     subTypeName = ''remove_service'',
     entityKeys = [''serviceName'']\<rparr>,
    \<lparr>aiPattern =
       rxi (Cat [Words [''connect'', ''link'', ''integrate''], Plus Ws, Opt (Words [''the'', ''a'',
         ''an'']), Star Ws, Grp 1 (Plus (Cls [CRange (CHR ''A'') (CHR ''Z''),
         CRange (CHR ''a'') (CHR ''z''), CRange (CHR ''0'') (CHR ''9''), CSpace])), Plus Ws,
         Words [''to'', ''with'', ''and''], Plus Ws, Opt (Words [''the'', ''a'', ''an'']), Star Ws,
         Grp 2 (Plus (Cls [CRange (CHR ''A'') (CHR ''Z''), CRange (CHR ''a'') (CHR ''z''),
         CRange (CHR ''0'') (CHR ''9''), CSpace]))]),
     patternSource =
       (''/(?:connect|link|integrate)'' @ [CHR 0x5C] @ ''s+(?:the|a|an)?'' @ [CHR 0x5C]
         @ ''s*([A-Za-z0-9'' @ [CHR 0x5C] @ ''s]+)'' @ [CHR 0x5C] @ ''s+(?:to|with|and)'' @ [CHR 0x5C]
         @ ''s+(?:the|a|an)?'' @ [CHR 0x5C] @ ''s*([A-Za-z0-9'' @ [CHR 0x5C] @ ''s]+)/i''),
     subTypeName = ''connect_services'',
     entityKeys = [''sourceService'', ''targetService'']\<rparr>,
    \<lparr>aiPattern =
       rxi (Cat [Words [''edit'', ''modify'', ''change'', ''update''], Plus Ws, Opt (Words [''the'',
         ''a'', ''an'']), Star Ws, Grp 1 (Plus (Cls [CRange (CHR ''A'') (CHR ''Z''),
         CRange (CHR ''a'') (CHR ''z''), CRange (CHR ''0'') (CHR ''9''), CSpace]))]),
     patternSource =
       (''/(?:edit|modify|change|update)'' @ [CHR 0x5C] @ ''s+(?:the|a|an)?'' @ [CHR 0x5C]
         @ ''s*([A-Za-z0-9'' @ [CHR 0x5C] @ ''s]+)/i''),
     subTypeName = ''edit_service'',
     entityKeys = [''serviceName'']\<rparr>]\<close>


text \<open>
  The inner loop: entity \<open>i\<close> is group \<open>i + 1\<close> of the match, trimmed, or the empty string
  when the group is undefined or empty.
\<close>

fun fillEntities :: "string list \<Rightarrow> string option list \<Rightarrow> (string \<times> string) list \<Rightarrow> (string \<times> string) list" where
  "fillEntities [] groups ents = ents"
| "fillEntities (key # keys) [] ents = ents"
| "fillEntities (key # keys) (g # groups) ents =
     fillEntities keys groups (propSet ents key (case g of None \<Rightarrow> [] | Some t \<Rightarrow> trim t))"

text \<open>The loop over \<^verbatim>\<open>architectureIntents\<close>, which stops at the first pattern that matches.\<close>

fun extractSubType :: "ArchitectureIntent list \<Rightarrow> string \<Rightarrow> EnhancedIntentMatch \<Rightarrow> EnhancedIntentMatch" where
  "extractSubType [] message enhancedIntent = enhancedIntent"
| "extractSubType (ai # ais) message enhancedIntent =
     (case regexMatch message (aiPattern ai) of
        None \<Rightarrow> extractSubType ais message enhancedIntent
      | Some m \<Rightarrow>
          enhancedIntent\<lparr>
            subType := Some (subTypeName ai),
            entities := Some (if 1 < Suc (length (mgroups m)) \<and> 0 < length (entityKeys ai)
                              then fillEntities (entityKeys ai) (mgroups m) [] else []),
            trigger := Some (patternSource ai)\<rparr>)"

definition adjustIntentConfidence :: "EnhancedIntentMatch \<Rightarrow> string \<Rightarrow> EnhancedIntentMatch" where
  "adjustIntentConfidence i0 message =
     (let i1 = (if strIncludes message ''?'' \<and> intentType i0 \<noteq> Question
                then i0\<lparr>confidence := confidence i0 - 15 / 100\<rparr> else i0);
          i2 = (if (strIncludes message ''code'' \<or> strIncludes message ''script''
                    \<or> strIncludes message ''snippet'')
                   \<and> intentType i1 \<noteq> Code_generation \<and> intentType i1 \<noteq> Cdk_generation
                then i1\<lparr>confidence := confidence i1 - 1 / 10\<rparr> else i1);
          i3 = (if strIncludes (toLowerCase message) ''cdk'' \<and> intentType i2 \<noteq> Cdk_generation
                then i2\<lparr>confidence := confidence i2 - 2 / 10\<rparr> else i2);
          i4 = (if intentType i3 = Architecture_update \<and> length message < 15
                then i3\<lparr>confidence := confidence i3 - 3 / 10\<rparr> else i3)
      in i4)"

definition detectEnhancedIntent :: "string \<Rightarrow> bool \<Rightarrow> EnhancedIntentMatch" where
  "detectEnhancedIntent message hasArchitecture =
     (let primaryIntent = inferIntent message hasArchitecture;
          enhancedIntent = \<lparr>intentType = primaryIntent, confidence = 9 / 10,
                            subType = None, entities = None, trigger = None\<rparr>;
          enhancedIntent' = (if primaryIntent = Architecture_update
                             then extractSubType architectureIntents message enhancedIntent
                             else enhancedIntent)
      in adjustIntentConfidence enhancedIntent' message)"

section \<open>Retries with exponential backoff\<close>

text \<open>
  The options of \<^verbatim>\<open>withExponentialBackoff\<close>; a field left out is \<open>None\<close> and takes its
  default. The numbers are JavaScript numbers in the source and finite exact rationals here.
\<close>

record RetryOptions =
  maxRetries :: "rat option"
  initialDelayMs :: "rat option"
  maxDelayMs :: "rat option"
  backoffFactor :: "rat option"
  jitterFactor :: "rat option"
  retryStatusCodes :: "rat list option"

definition maxRetriesOf :: "RetryOptions \<Rightarrow> rat" where
  "maxRetriesOf options = (case maxRetries options of None \<Rightarrow> 3 | Some v \<Rightarrow> v)"

definition initialDelayMsOf :: "RetryOptions \<Rightarrow> rat" where
  "initialDelayMsOf options = (case initialDelayMs options of None \<Rightarrow> 200 | Some v \<Rightarrow> v)"

definition maxDelayMsOf :: "RetryOptions \<Rightarrow> rat" where
  "maxDelayMsOf options = (case maxDelayMs options of None \<Rightarrow> 10000 | Some v \<Rightarrow> v)"

definition backoffFactorOf :: "RetryOptions \<Rightarrow> rat" where
  "backoffFactorOf options = (case backoffFactor options of None \<Rightarrow> 2 | Some v \<Rightarrow> v)"

definition jitterFactorOf :: "RetryOptions \<Rightarrow> rat" where
  "jitterFactorOf options = (case jitterFactor options of None \<Rightarrow> 1 / 4 | Some v \<Rightarrow> v)"

definition retryStatusCodesOf :: "RetryOptions \<Rightarrow> rat list" where
  "retryStatusCodesOf options =
     (case retryStatusCodes options of None \<Rightarrow> [429, 503, 502, 500] | Some v \<Rightarrow> v)"

text \<open>
  What an operation throws: an error object, of which the code reads the status and the
  message. Either may be missing.
\<close>

record jsError =
  errStatus :: "rat option"
  errMessage :: "string option"

text \<open>
  The test \<^verbatim>\<open>shouldRetry\<close>. A status counts when it is truthy (there and not 0) and in
  the list; a message counts when it is truthy and has one of the four texts.
\<close>

definition shouldRetry :: "jsError \<Rightarrow> rat list \<Rightarrow> bool" where
  "shouldRetry error codes =
     ((case errStatus error of None \<Rightarrow> False | Some s \<Rightarrow> s \<noteq> 0 \<and> s \<in> set codes) \<or>
      (case errMessage error of None \<Rightarrow> False
       | Some m \<Rightarrow> m \<noteq> [] \<and> strIncludes m ''Service Unavailable'') \<or>
      (case errMessage error of None \<Rightarrow> False
       | Some m \<Rightarrow> m \<noteq> [] \<and> (strIncludes m ''network'' \<or> strIncludes m ''timeout''
                              \<or> strIncludes m ''overloaded'')))"

text \<open>
  The outcome of the call: a value, or a thrown error. What is thrown after the loop never
  ran is \<^verbatim>\<open>lastError\<close> as declared, that is \<^verbatim>\<open>undefined\<close>: \<open>Threw None\<close>.
\<close>

datatype 'a outcome = Returned 'a | Threw "jsError option"

text \<open>
  A run: its outcome, how often the operation was invoked, and the waits in order, each
  with the delay \<^verbatim>\<open>delayMs\<close> and the jitter added to it.
\<close>

record 'a RetryRun =
  outcome :: "'a outcome"
  invocations :: nat
  waits :: "(rat \<times> rat) list"

text \<open>
  The loop \<^verbatim>\<open>for (let attempt = 0; attempt <= maxRetries; attempt++)\<close>. The operation is
  effectful: \<open>operation k\<close> is what its invocation number \<open>k\<close> (from 0) does, a value
  \<open>Inr\<close> or a thrown error \<open>Inl\<close>; \<open>random k\<close> is what \<^verbatim>\<open>Math.random()\<close> gives in
  round \<open>k\<close>. Invocation \<open>k\<close> is made in round \<open>attempt = k\<close>.
\<close>

function retryLoop ::
  "(nat \<Rightarrow> jsError + 'a) \<Rightarrow> (nat \<Rightarrow> rat) \<Rightarrow> rat \<Rightarrow> rat \<Rightarrow> rat \<Rightarrow> rat \<Rightarrow> rat list
     \<Rightarrow> nat \<Rightarrow> rat \<Rightarrow> jsError option \<Rightarrow> (rat \<times> rat) list \<Rightarrow> 'a RetryRun" where
  "retryLoop operation random maxR maxDelay factor jitterF codes attempt delayMs lastError ws =
     (if of_nat attempt \<le> maxR then
        (case operation attempt of
           Inr v \<Rightarrow> \<lparr>outcome = Returned v, invocations = attempt + 1, waits = ws\<rparr>
         | Inl error \<Rightarrow>
             if \<not> shouldRetry error codes \<or> of_nat attempt = maxR
             then \<lparr>outcome = Threw (Some error), invocations = attempt + 1, waits = ws\<rparr>
             else retryLoop operation random maxR maxDelay factor jitterF codes
                    (attempt + 1) (min (delayMs * factor) maxDelay) (Some error)
                    (ws @ [(delayMs, random attempt * jitterF * delayMs)]))
      else \<lparr>outcome = Threw lastError, invocations = attempt, waits = ws\<rparr>)"
  by pat_completeness auto
termination
proof (relation "measure (\<lambda>(operation, random, maxR, maxDelay, factor, jitterF, codes, attempt,
        delayMs, lastError, ws). nat (\<lfloor>maxR\<rfloor> + 1) - attempt)", goal_cases)
  case 1
  show ?case by simp
next
  case (2 operation random maxR maxDelay factor jitterF codes attempt delayMs lastError ws e)
  from 2(1) have "int attempt \<le> \<lfloor>maxR\<rfloor>"
    using le_floor_iff[of "int attempt" maxR] by simp
  then show ?case by simp
qed

declare retryLoop.simps [simp del]

definition withExponentialBackoff ::
  "(nat \<Rightarrow> jsError + 'a) \<Rightarrow> RetryOptions \<Rightarrow> (nat \<Rightarrow> rat) \<Rightarrow> 'a RetryRun" where
  "withExponentialBackoff operation options random =
     retryLoop operation random (maxRetriesOf options) (maxDelayMsOf options)
       (backoffFactorOf options) (jitterFactorOf options) (retryStatusCodesOf options)
       0 (initialDelayMsOf options) None []"

text \<open>The delay before retry number \<open>i\<close> (from 0), as the loop computes it.\<close>

fun delaySeq :: "rat \<Rightarrow> rat \<Rightarrow> rat \<Rightarrow> nat \<Rightarrow> rat" where
  "delaySeq d0 factor maxDelay 0 = d0"
| "delaySeq d0 factor maxDelay (Suc i) = min (delaySeq d0 factor maxDelay i * factor) maxDelay"

definition defaultOptions :: RetryOptions where
  "defaultOptions = \<lparr>maxRetries = None, initialDelayMs = None, maxDelayMs = None,
     backoffFactor = None, jitterFactor = None, retryStatusCodes = None\<rparr>"

text \<open>Invocation \<open>j\<close> throws an error that the loop retries.\<close>

definition failsRetryably :: "(nat \<Rightarrow> jsError + 'a) \<Rightarrow> rat list \<Rightarrow> nat \<Rightarrow> bool" where
  "failsRetryably operation codes j = (\<exists>e. operation j = Inl e \<and> shouldRetry e codes)"

text \<open>An operation that fails once with status 503 and then returns 7.\<close>

definition failsOnce :: "nat \<Rightarrow> jsError + nat" where
  "failsOnce k = (if k = 0 then Inl \<lparr>errStatus = Some 503, errMessage = None\<rparr> else Inr 7)"


section \<open>The architecture store\<close>

text \<open>
  The interface \<^verbatim>\<open>Architecture\<close>: the arrays of nodes and of edges, and the optional
  metadata, an object with any keys.
\<close>

record Architecture =
  nodes :: "json list"
  edges :: "json list"
  metadata :: "(string \<times> json) list option"

text \<open>
  The store is the object literal \<^verbatim>\<open>{}\<close> used as a dictionary. Such an object has its own
  properties and, behind them, the properties it inherits from its prototype, which is
  \<^verbatim>\<open>Object.prototype\<close>: its methods, and the accessor \<^verbatim>\<open>__proto__\<close>, which reads and
  sets the prototype itself.
\<close>

definition objectPrototypeMethods :: "string list" where
  "objectPrototypeMethods =
     [''constructor'', ''__defineGetter__'', ''__defineSetter__'', ''hasOwnProperty'',
      ''__lookupGetter__'', ''__lookupSetter__'', ''isPrototypeOf'', ''propertyIsEnumerable'',
      ''toString'', ''valueOf'', ''toLocaleString'']"

text \<open>
  The state of \<^verbatim>\<open>architectureStore\<close>: its own properties, and the architecture that an
  assignment to \<^verbatim>\<open>architectureStore['__proto__']\<close> has made its prototype, if any.
\<close>

record ArchitectureStore =
  ownArchitectures :: "string \<rightharpoonup> Architecture"
  prototypeArchitecture :: "Architecture option"

definition emptyStore :: ArchitectureStore where
  "emptyStore = \<lparr>ownArchitectures = Map.empty, prototypeArchitecture = None\<rparr>"

text \<open>
  What \<^verbatim>\<open>architectureStore[key]\<close> can be: a stored architecture, a method of
  \<^verbatim>\<open>Object.prototype\<close>, \<^verbatim>\<open>Object.prototype\<close> itself, or a field of the architecture that
  is the prototype. \<open>None\<close> is \<^verbatim>\<open>undefined\<close>.
\<close>

datatype storeValue =
    StoredArchitecture Architecture
  | PrototypeMethod string
  | ObjectPrototype
  | InheritedArray "json list"
  | InheritedObject "(string \<times> json) list"

definition storeLookup :: "ArchitectureStore \<Rightarrow> string \<Rightarrow> storeValue option" where
  "storeLookup store key =
     (case ownArchitectures store key of
        Some a \<Rightarrow> Some (StoredArchitecture a)
      | None \<Rightarrow>
          if key = ''__proto__''
          then (case prototypeArchitecture store of
                  Some p \<Rightarrow> Some (StoredArchitecture p)
                | None \<Rightarrow> Some ObjectPrototype)
          else if key \<in> set objectPrototypeMethods then Some (PrototypeMethod key)
          else (case prototypeArchitecture store of
                  None \<Rightarrow> None
                | Some p \<Rightarrow>
                    if key = ''nodes'' then Some (InheritedArray (nodes p))
                    else if key = ''edges'' then Some (InheritedArray (edges p))
                    else if key = ''metadata'' then map_option InheritedObject (metadata p)
                    else None))"

text \<open>
  \<^verbatim>\<open>getArchitecture\<close>: \<^verbatim>\<open>null\<close> for an empty id, else \<^verbatim>\<open>architectureStore[id] || null\<close>.
  Every value the lookup can give is an object or a function, hence truthy.
\<close>

definition getArchitecture :: "ArchitectureStore \<Rightarrow> string \<Rightarrow> storeValue option" where
  "getArchitecture store architectureId =
     (if architectureId = [] then None else storeLookup store architectureId)"

text \<open>
  \<^verbatim>\<open>saveArchitecture\<close>: the error for an empty id; else the architecture with the two
  metadata fields set, \<open>now\<close> being \<^verbatim>\<open>new Date().toISOString()\<close>, stored under the id and
  returned. The assignment \<^verbatim>\<open>architectureStore[id] = ...\<close> makes an own property, except
  for the id \<^verbatim>\<open>__proto__\<close>, where it sets the prototype. A missing \<^verbatim>\<open>editedBy\<close> is
  \<^verbatim>\<open>'system'\<close>.
\<close>

datatype storeError = ArchitectureIdRequired

definition stampMetadata :: "Architecture \<Rightarrow> string \<Rightarrow> string \<Rightarrow> Architecture" where
  "stampMetadata architecture now editedBy =
     architecture\<lparr>metadata :=
       Some (propSet (propSet (case metadata architecture of None \<Rightarrow> [] | Some md \<Rightarrow> md)
                        ''lastEditedAt'' (JStr now))
               ''lastEditedBy'' (JStr editedBy))\<rparr>"

definition storeAssign :: "ArchitectureStore \<Rightarrow> string \<Rightarrow> Architecture \<Rightarrow> ArchitectureStore" where
  "storeAssign store key a =
     (if key = ''__proto__'' then store\<lparr>prototypeArchitecture := Some a\<rparr>
      else store\<lparr>ownArchitectures := (ownArchitectures store)(key \<mapsto> a)\<rparr>)"

definition saveArchitecture ::
  "ArchitectureStore \<Rightarrow> string \<Rightarrow> Architecture \<Rightarrow> string option \<Rightarrow> string
     \<Rightarrow> storeError + (Architecture \<times> ArchitectureStore)" where
  "saveArchitecture store architectureId architecture editedBy now =
     (if architectureId = [] then Inl ArchitectureIdRequired
      else
        let updatedArchitecture =
              stampMetadata architecture now (case editedBy of None \<Rightarrow> ''system'' | Some by \<Rightarrow> by)
        in Inr (updatedArchitecture, storeAssign store architectureId updatedArchitecture))"

text \<open>
  \<^verbatim>\<open>deleteArchitecture\<close>: false for an empty id or when the lookup is falsy; else the own
  property is deleted (which does nothing when the value was inherited) and the result is
  true.
\<close>

definition deleteArchitecture :: "ArchitectureStore \<Rightarrow> string \<Rightarrow> bool \<times> ArchitectureStore" where
  "deleteArchitecture store architectureId =
     (if architectureId = [] then (False, store)
      else if storeLookup store architectureId \<noteq> None
      then (True, store\<lparr>ownArchitectures := (ownArchitectures store)(architectureId := None)\<rparr>)
      else (False, store))"


section \<open>Conversation sessions\<close>

record ChatMessage =
  role :: string
  content :: string
  timestamp :: "string option"

text \<open>An entry \<^verbatim>\<open>{intent, timestamp}\<close> of the intent history.\<close>

record IntentEntry =
  entryIntent :: Intent
  entryTimestamp :: nat

text \<open>The interface \<^verbatim>\<open>ConversationSession\<close>; times are what \<^verbatim>\<open>Date.now()\<close> gives.\<close>

record ConversationSession =
  sid :: string
  messageCount :: nat
  lastMessageTimestamp :: nat
  intents :: "IntentEntry list"
  conversationSummary :: "string option"
  messages :: "ChatMessage list option"

text \<open>
  The argument \<^verbatim>\<open>update\<close> of \<^verbatim>\<open>updateSession\<close>, of which the code reads the fields
  \<^verbatim>\<open>messages\<close> and \<^verbatim>\<open>intent\<close>; each may be missing.
\<close>

record SessionUpdate =
  updMessages :: "ChatMessage list option"
  updIntent :: "Intent option"

text \<open>
  The global \<^verbatim>\<open>activeSessions\<close> is an object literal used as a dictionary, like the
  architecture store: a lookup finds an own property or, failing that, a property of
  \<^verbatim>\<open>Object.prototype\<close>. Under the key \<^verbatim>\<open>__proto__\<close> the lookup finds
  \<^verbatim>\<open>Object.prototype\<close> itself, and \<^verbatim>\<open>updateSession\<close> then writes the fields
  \<^verbatim>\<open>messages\<close>, \<^verbatim>\<open>messageCount\<close> and \<^verbatim>\<open>lastMessageTimestamp\<close> on it, where every
  later lookup of these three keys finds them. The state is therefore the own properties
  together with these three properties of \<^verbatim>\<open>Object.prototype\<close>, each absent until written.
\<close>

record SessionStore =
  ownSessions :: "string \<rightharpoonup> ConversationSession"
  prototypeMessages :: "ChatMessage list option"
  prototypeMessageCount :: "nat option"
  prototypeLastMessageTimestamp :: "nat option"

definition noSessions :: SessionStore where
  "noSessions =
     \<lparr>ownSessions = Map.empty, prototypeMessages = None, prototypeMessageCount = None,
      prototypeLastMessageTimestamp = None\<rparr>"

text \<open>
  What \<^verbatim>\<open>activeSessions[key]\<close> is: a session, \<^verbatim>\<open>Object.prototype\<close>, one of its methods,
  the array or a number written on it earlier, or \<^verbatim>\<open>undefined\<close>.
\<close>

datatype sessionLookup =
    OwnSession ConversationSession
  | ObjectPrototype
  | BuiltinFunction string
  | InheritedMessages "ChatMessage list"
  | InheritedNumber nat
  | NoSession

definition lookupSession :: "SessionStore \<Rightarrow> string \<Rightarrow> sessionLookup" where
  "lookupSession activeSessions key =
     (case ownSessions activeSessions key of
        Some session \<Rightarrow> OwnSession session
      | None \<Rightarrow>
          if key = ''__proto__'' then ObjectPrototype
          else if key \<in> set objectPrototypeMethods then BuiltinFunction key
          else if key = ''messages''
          then (case prototypeMessages activeSessions of
                  Some ms \<Rightarrow> InheritedMessages ms | None \<Rightarrow> NoSession)
          else if key = ''messageCount''
          then (case prototypeMessageCount activeSessions of
                  Some n \<Rightarrow> InheritedNumber n | None \<Rightarrow> NoSession)
          else if key = ''lastMessageTimestamp''
          then (case prototypeLastMessageTimestamp activeSessions of
                  Some n \<Rightarrow> InheritedNumber n | None \<Rightarrow> NoSession)
          else NoSession)"

text \<open>Truthiness: objects, arrays and functions are truthy, a number unless it is 0.\<close>

fun lookupTruthy :: "sessionLookup \<Rightarrow> bool" where
  "lookupTruthy NoSession = False"
| "lookupTruthy (InheritedNumber n) = (n \<noteq> 0)"
| "lookupTruthy (OwnSession session) = True"
| "lookupTruthy ObjectPrototype = True"
| "lookupTruthy (BuiltinFunction name) = True"
| "lookupTruthy (InheritedMessages ms) = True"

text \<open>
  \<^verbatim>\<open>getOrCreateSession\<close>: what it returns and the store after it; \<open>now\<close> is
  \<^verbatim>\<open>Date.now()\<close>. Where the lookup is falsy the new session becomes an own property.
\<close>

definition getOrCreateSession ::
  "SessionStore \<Rightarrow> string \<Rightarrow> nat \<Rightarrow> sessionLookup \<times> SessionStore" where
  "getOrCreateSession activeSessions architectureId now =
     (if \<not> lookupTruthy (lookupSession activeSessions architectureId)
      then
        let session = \<lparr>sid = architectureId, messageCount = 0,
                         lastMessageTimestamp = now, intents = [],
                         conversationSummary = None, messages = None\<rparr>
        in (OwnSession session,
            activeSessions\<lparr>ownSessions := (ownSessions activeSessions)(architectureId \<mapsto> session)\<rparr>)
      else (lookupSession activeSessions architectureId, activeSessions))"

text \<open>\<^verbatim>\<open>xs.slice(-20)\<close>: the last 20 elements.\<close>

definition sliceLast :: "nat \<Rightarrow> 'a list \<Rightarrow> 'a list" where
  "sliceLast n xs = drop (length xs - n) xs"

text \<open>
  \<^verbatim>\<open>updateSession\<close>, with the three clock readings it may make: for a new session, for
  the intent entry, for the last message time. It returns normally (\<open>Inr\<close>) or throws a
  TypeError (\<open>Inl\<close>); either way with the store as it then is.

  On a session the three steps are those of \<open>applyUpdate\<close>, and the session is the object
  under the key. On \<^verbatim>\<open>Object.prototype\<close> the messages and their count are written on it,
  the push to its missing \<^verbatim>\<open>intents\<close> throws, and without an intent the time is written on
  it. On a method or on the inherited array the writes go to that object, which the state
  does not hold, and the push throws as well. On an inherited number every step throws:
  the module is strict code, where writing a property of a number is a TypeError, and a
  number has no \<^verbatim>\<open>intents\<close>.
\<close>

datatype jsTypeError = TypeError

definition applyUpdate :: "ConversationSession \<Rightarrow> SessionUpdate \<Rightarrow> nat \<Rightarrow> nat \<Rightarrow> ConversationSession" where
  "applyUpdate session update tIntent tLast =
     (let s1 = (case updMessages update of
                  Some ms \<Rightarrow> session\<lparr>messages := Some ms, messageCount := length ms\<rparr>
                | None \<Rightarrow> session);
          s2 = (case updIntent update of
                  Some i \<Rightarrow>
                    let pushed = intents s1 @ [\<lparr>entryIntent = i, entryTimestamp = tIntent\<rparr>]
                    in s1\<lparr>intents := (if 20 < length pushed then sliceLast 20 pushed else pushed)\<rparr>
                | None \<Rightarrow> s1)
      in s2\<lparr>lastMessageTimestamp := tLast\<rparr>)"

definition updatePrototype ::
  "SessionStore \<Rightarrow> SessionUpdate \<Rightarrow> nat \<Rightarrow> (jsTypeError + unit) \<times> SessionStore" where
  "updatePrototype store update tLast =
     (let store1 = (case updMessages update of
                      Some ms \<Rightarrow> store\<lparr>prototypeMessages := Some ms,
                                         prototypeMessageCount := Some (length ms)\<rparr>
                    | None \<Rightarrow> store)
      in if updIntent update \<noteq> None then (Inl TypeError, store1)
         else (Inr (), store1\<lparr>prototypeLastMessageTimestamp := Some tLast\<rparr>))"

definition updateSession ::
  "SessionStore \<Rightarrow> string \<Rightarrow> SessionUpdate \<Rightarrow> nat \<Rightarrow> nat \<Rightarrow> nat
     \<Rightarrow> (jsTypeError + unit) \<times> SessionStore" where
  "updateSession activeSessions sessionId update tNew tIntent tLast =
     (case getOrCreateSession activeSessions sessionId tNew of
        (OwnSession session, store) \<Rightarrow>
          (Inr (),
           store\<lparr>ownSessions :=
                    (ownSessions store)(sessionId \<mapsto> applyUpdate session update tIntent tLast)\<rparr>)
      | (ObjectPrototype, store) \<Rightarrow> updatePrototype store update tLast
      | (BuiltinFunction name, store) \<Rightarrow>
          if updIntent update \<noteq> None then (Inl TypeError, store) else (Inr (), store)
      | (InheritedMessages ms, store) \<Rightarrow>
          if updIntent update \<noteq> None then (Inl TypeError, store) else (Inr (), store)
      | (InheritedNumber n, store) \<Rightarrow> (Inl TypeError, store)
      | (NoSession, store) \<Rightarrow> (Inl TypeError, store))"

text \<open>
  \<^verbatim>\<open>clearConversationSession\<close>: where the lookup is truthy the own property is deleted
  (nothing, for an inherited property) and the result is true.
\<close>

definition clearConversationSession :: "SessionStore \<Rightarrow> string \<Rightarrow> bool \<times> SessionStore" where
  "clearConversationSession activeSessions architectureId =
     (if lookupTruthy (lookupSession activeSessions architectureId)
      then (True, activeSessions\<lparr>ownSessions := (ownSessions activeSessions)(architectureId := None)\<rparr>)
      else (False, activeSessions))"

text \<open>
  The stores that the three operations can make of the one the module starts with, and the
  bound of 20 on the intent history of every stored session.
\<close>

inductive reachableSessions :: "SessionStore \<Rightarrow> bool" where
  initial: "reachableSessions noSessions"
| getOrCreate:
    "reachableSessions st \<Longrightarrow> reachableSessions (snd (getOrCreateSession st architectureId now))"
| update:
    "reachableSessions st \<Longrightarrow>
       reachableSessions (snd (updateSession st sessionId update tNew tIntent tLast))"
| clear:
    "reachableSessions st \<Longrightarrow> reachableSessions (snd (clearConversationSession st architectureId))"

definition intentsBounded :: "SessionStore \<Rightarrow> bool" where
  "intentsBounded st = (\<forall>k s. ownSessions st k = Some s \<longrightarrow> length (intents s) \<le> 20)"

text \<open>
  A key has a session to update when a session is stored under it or the lookup is falsy,
  so that one is created. That is so for every key other than \<^verbatim>\<open>__proto__\<close>, the names of
  the methods of \<^verbatim>\<open>Object.prototype\<close> and the three field names.
\<close>

definition hasSessionSlot :: "SessionStore \<Rightarrow> string \<Rightarrow> bool" where
  "hasSessionSlot st key =
     (ownSessions st key \<noteq> None \<or> \<not> lookupTruthy (lookupSession st key))"

definition ordinaryKey :: "string \<Rightarrow> bool" where
  "ordinaryKey key =
     (key \<noteq> ''__proto__'' \<and> key \<notin> set objectPrototypeMethods
      \<and> key \<notin> {''messages'', ''messageCount'', ''lastMessageTimestamp''})"

text \<open>The intent history stored under a key, empty when no session is.\<close>

definition historyOf :: "SessionStore \<Rightarrow> string \<Rightarrow> IntentEntry list" where
  "historyOf st key = (case ownSessions st key of None \<Rightarrow> [] | Some s \<Rightarrow> intents s)"

text \<open>A store after \<open>n\<close> requests with a greeting under the key \<^verbatim>\<open>a1\<close>.\<close>

definition greetingUpdate :: SessionUpdate where
  "greetingUpdate = \<lparr>updMessages = None, updIntent = Some Greeting\<rparr>"

fun greeted :: "nat \<Rightarrow> SessionStore" where
  "greeted 0 = noSessions"
| "greeted (Suc n) = snd (updateSession (greeted n) ''a1'' greetingUpdate n n n)"

section \<open>Language detection\<close>

text \<open>The patterns \<^verbatim>\<open>cdkGenerationPatterns\<close> of the intent module.\<close>

definition cdkGenerationPatterns :: "jsregex list" where
  "cdkGenerationPatterns = [
     rxi (Words [''cdk'', ''cloud development kit'']),
     rxi (Lit ''infrastructure as code''),
     rxi (Lit ''iac''),
     rxi (Lit ''cloudformation'')]"

text \<open>
  The tests of \<^verbatim>\<open>detectProgrammingLanguage\<close> in their order, each with the language it
  returns.
\<close>

definition languageTests :: "(jsregex \<times> string) list" where
  "languageTests = [
     (rxi (Words [''python'', ''boto3'', ''django'', ''flask'', ''pandas'', ''numpy'', ''pip'',
       ''.py'']), ''python''),
     (rxi (Words [''typescript'', ''ts'', ''angular'', ''vue'', ''react'', ''.ts'']), ''typescript''),
     (rxi (Words [''javascript'', ''js'', ''node'', ''express'', ''.js'']), ''javascript''),
     (rxi (Words [''java'', ''spring'', ''maven'', ''gradle'', ''.java'']), ''java''),
     (rxi (Words [''c#'', ''.net'', ''asp.net'', ''azure'', ''.cs'']), ''csharp''),
     (rxi (Alts [Lit ''golang'', Cat [Lit ''go'', Plus Ws, Lit ''lang''], Lit ''.go'']), ''go''),
     (rxi (Words [''rust'', ''cargo'', ''.rs'']), ''rust''),
     (rxi (Words [''ruby'', ''rails'', ''.rb'']), ''ruby''),
     (rxi (Words [''php'', ''laravel'', ''symfony'', ''.php'']), ''php''),
     (rxi (Words [''yaml'', ''yml'']), ''yaml''),
     (rxi (Words [''bash'', ''shell'', ''sh'', ''command line'', ''terminal'']), ''bash''),
     (rxi (Cat [WordB, Words [''in'', ''using'', ''with''], Plus Ws, Lit ''python'', WordB]), ''python''),
     (rxi (Cat [WordB, Words [''in'', ''using'', ''with''], Plus Ws, Lit ''typescript'', WordB]), ''typescript''),
     (rxi (Cat [WordB, Words [''in'', ''using'', ''with''], Plus Ws, Lit ''javascript'', WordB]), ''javascript''),
     (rxi (Cat [WordB, Words [''in'', ''using'', ''with''], Plus Ws, Lit ''java'', WordB]), ''java''),
     (rxi (Cat [WordB, Words [''in'', ''using'', ''with''], Plus Ws, Lit ''c#'', WordB]), ''csharp''),
     (rxi (Cat [WordB, Words [''in'', ''using'', ''with''], Plus Ws, Lit ''go'', WordB]), ''go''),
     (rxi (Cat [WordB, Words [''in'', ''using'', ''with''], Plus Ws, Lit ''rust'', WordB]), ''rust''),
     (rxi (Cat [WordB, Words [''in'', ''using'', ''with''], Plus Ws, Lit ''ruby'', WordB]), ''ruby''),
     (rxi (Cat [WordB, Words [''in'', ''using'', ''with''], Plus Ws, Lit ''php'', WordB]), ''php'')]"

text \<open>The chain of tests: the language of the first pattern that matches.\<close>

fun firstLanguage :: "(jsregex \<times> string) list \<Rightarrow> string \<Rightarrow> string option" where
  "firstLanguage [] lowerMessage = None"
| "firstLanguage ((re, language) # tests) lowerMessage =
     (if regexTest re lowerMessage then Some language else firstLanguage tests lowerMessage)"

text \<open>
  \<^verbatim>\<open>detectProgrammingLanguage\<close>: the tests on the lower-cased message, then TypeScript
  when a CDK pattern matches, else \<^verbatim>\<open>null\<close>.
\<close>

definition detectProgrammingLanguage :: "string \<Rightarrow> string option" where
  "detectProgrammingLanguage message =
     (let lowerMessage = toLowerCase message in
      case firstLanguage languageTests lowerMessage of
        Some language \<Rightarrow> Some language
      | None \<Rightarrow>
          if list_ex (\<lambda>pattern. regexTest pattern lowerMessage) cdkGenerationPatterns
          then Some ''typescript'' else None)"

section \<open>Context strings (\<^verbatim>\<open>src/ai/context/contextManager.ts\<close>)\<close>

datatype ContextLevel = LevelNone | LevelMinimal | LevelSummary | LevelFull

fun getContextLevelForIntent :: "Intent \<Rightarrow> ContextLevel" where
  "getContextLevelForIntent Architecture_update = LevelFull"
| "getContextLevelForIntent Cdk_generation = LevelFull"
| "getContextLevelForIntent Code_generation = LevelSummary"
| "getContextLevelForIntent Code_explanation = LevelSummary"
| "getContextLevelForIntent System_design = LevelSummary"
| "getContextLevelForIntent Architecture_explanation = LevelMinimal"
| "getContextLevelForIntent Comparison = LevelMinimal"
| "getContextLevelForIntent Question = LevelMinimal"
| "getContextLevelForIntent Greeting = LevelNone"
| "getContextLevelForIntent General_chat = LevelNone"
| "getContextLevelForIntent Architecture_rationale = LevelNone"

subsection \<open>The values of the nodes and edges\<close>

text \<open>
  Nodes and edges have the type \<^verbatim>\<open>any\<close>. They are taken to be values as \<^verbatim>\<open>JSON.parse\<close>
  builds them: trees without functions, in which no two objects are the same object. A value
  that may be \<^verbatim>\<open>undefined\<close> is a \<open>json option\<close>, \<open>None\<close> being \<^verbatim>\<open>undefined\<close>. An operation
  that can throw a TypeError answers in \<open>jsTypeError + 'a\<close>.
\<close>

type_synonym jsval = "json option"

definition bindE :: "'e + 'a \<Rightarrow> ('a \<Rightarrow> 'e + 'b) \<Rightarrow> 'e + 'b" where
  "bindE m f = (case m of Inl e \<Rightarrow> Inl e | Inr v \<Rightarrow> f v)"

text \<open>\<^verbatim>\<open>xs.map(f)\<close> for a callback that can throw: the first throw ends the traversal.\<close>

fun mapE :: "('a \<Rightarrow> 'e + 'b) \<Rightarrow> 'a list \<Rightarrow> 'e + 'b list" where
  "mapE f [] = Inr []"
| "mapE f (x # xs) = bindE (f x) (\<lambda>y. bindE (mapE f xs) (\<lambda>ys. Inr (y # ys)))"

text \<open>
  \<^verbatim>\<open>v.k\<close>, for the property names this module reads (\<^verbatim>\<open>data\<close>, \<^verbatim>\<open>id\<close>, \<^verbatim>\<open>label\<close>, ...):
  none of them is defined by a built-in prototype, so the property is an own property of an
  object or \<^verbatim>\<open>undefined\<close>. Reading a property of \<^verbatim>\<open>undefined\<close> or \<^verbatim>\<open>null\<close> throws.
\<close>

fun getProp :: "jsval \<Rightarrow> string \<Rightarrow> jsTypeError + jsval" where
  "getProp None k = Inl TypeError"
| "getProp (Some JNull) k = Inl TypeError"
| "getProp (Some (JObj ps)) k = Inr (map_of ps k)"
| "getProp (Some v) k = Inr None"

definition isNullish :: "jsval \<Rightarrow> bool" where
  "isNullish v = (v = None \<or> v = Some JNull)"

text \<open>\<^verbatim>\<open>v?.k\<close>\<close>

definition getPropOpt :: "jsval \<Rightarrow> string \<Rightarrow> jsTypeError + jsval" where
  "getPropOpt v k = (if isNullish v then Inr None else getProp v k)"

text \<open>A number is zero when its digits before the exponent are all zero.\<close>

definition numIsZero :: "string \<Rightarrow> bool" where
  "numIsZero n =
     (filter (\<lambda>c. CHR ''1'' \<le> c \<and> c \<le> CHR ''9'')
        (takeWhile (\<lambda>c. c \<noteq> CHR ''e'' \<and> c \<noteq> CHR ''E'') n) = [])"

fun truthy :: "jsval \<Rightarrow> bool" where
  "truthy None = False"
| "truthy (Some JNull) = False"
| "truthy (Some (JBool b)) = b"
| "truthy (Some (JNum n)) = (\<not> numIsZero n)"
| "truthy (Some (JStr s)) = (s \<noteq> [])"
| "truthy (Some (JArr xs)) = True"
| "truthy (Some (JObj ps)) = True"

text \<open>\<^verbatim>\<open>a || b\<close>\<close>

definition orElse :: "jsval \<Rightarrow> jsval \<Rightarrow> jsval" where
  "orElse a b = (if truthy a then a else b)"

text \<open>\<^verbatim>\<open>a === b\<close>: two objects or arrays of a parsed text are never the same object.\<close>

fun strictEq :: "jsval \<Rightarrow> jsval \<Rightarrow> bool" where
  "strictEq None None = True"
| "strictEq (Some JNull) (Some JNull) = True"
| "strictEq (Some (JBool a)) (Some (JBool b)) = (a = b)"
| "strictEq (Some (JNum a)) (Some (JNum b)) = (a = b)"
| "strictEq (Some (JStr a)) (Some (JStr b)) = (a = b)"
| "strictEq a b = False"

text \<open>
  The text of a value inside a template literal. An array joins the texts of its elements
  with commas, \<^verbatim>\<open>null\<close> elements giving the empty text. An object is \<^verbatim>\<open>[object Object]\<close>,
  unless it has a property \<^verbatim>\<open>toString\<close> of its own: that one is not a function, the
  inherited \<^verbatim>\<open>valueOf\<close> gives back the object, and the conversion throws.
\<close>

fun toStr :: "json \<Rightarrow> jsTypeError + string"
  and elemStrs :: "json list \<Rightarrow> jsTypeError + string list" where
  "toStr JNull = Inr ''null''"
| "toStr (JBool b) = Inr (if b then ''true'' else ''false'')"
| "toStr (JNum n) = Inr n"
| "toStr (JStr s) = Inr s"
| "toStr (JArr xs) = bindE (elemStrs xs) (\<lambda>ss. Inr (joinStr '','' ss))"
| "toStr (JObj ps) =
     (if ''toString'' \<in> set (map fst ps) then Inl TypeError else Inr ''[object Object]'')"
| "elemStrs [] = Inr []"
| "elemStrs (x # xs) =
     bindE (if x = JNull then Inr [] else toStr x)
       (\<lambda>s. bindE (elemStrs xs) (\<lambda>ss. Inr (s # ss)))"

definition templateStr :: "jsval \<Rightarrow> jsTypeError + string" where
  "templateStr v = (case v of None \<Rightarrow> Inr ''undefined'' | Some j \<Rightarrow> toStr j)"

definition digitChar :: "nat \<Rightarrow> char" where
  "digitChar d = ''0123456789'' ! (d mod 10)"

text \<open>The decimal text of a length.\<close>

function showNat :: "nat \<Rightarrow> string" where
  "showNat n = (if n < 10 then [digitChar n] else showNat (n div 10) @ [digitChar (n mod 10)])"
  by pat_completeness auto
termination
  by (relation "measure (\<lambda>n. n)") auto

declare showNat.simps [simp del]

subsection \<open>\<^verbatim>\<open>generateContextString\<close>\<close>

definition nodeDataProp :: "json \<Rightarrow> string \<Rightarrow> jsTypeError + jsval" where
  "nodeDataProp node k = bindE (getProp (Some node) ''data'') (\<lambda>d. getProp d k)"

text \<open>One line of the services summary.\<close>

definition serviceLine :: "json \<Rightarrow> jsTypeError + string" where
  "serviceLine node =
     bindE (nodeDataProp node ''service'') (\<lambda>service.
     bindE (templateStr service) (\<lambda>s1.
     bindE (nodeDataProp node ''label'') (\<lambda>label.
     bindE (templateStr label) (\<lambda>s2.
     bindE (nodeDataProp node ''description'') (\<lambda>description.
     bindE (templateStr (orElse description (Some (JStr ''No description'')))) (\<lambda>s3.
     Inr (s1 @ '' ('' @ s2 @ ''): '' @ s3)))))))"

text \<open>\<^verbatim>\<open>architecture.nodes.find(n => n.id === edge[k])\<close>\<close>

fun findNode :: "json list \<Rightarrow> json \<Rightarrow> string \<Rightarrow> jsTypeError + jsval" where
  "findNode [] edge k = Inr None"
| "findNode (n # ns) edge k =
     bindE (getProp (Some n) ''id'') (\<lambda>a.
     bindE (getProp (Some edge) k) (\<lambda>b.
     if strictEq a b then Inr (Some n) else findNode ns edge k))"

text \<open>\<^verbatim>\<open>node?.data.label\<close>\<close>

definition labelOf :: "jsval \<Rightarrow> jsTypeError + jsval" where
  "labelOf node =
     (if isNullish node then Inr None
      else bindE (getProp node ''data'') (\<lambda>d. getProp d ''label''))"

text \<open>One line of the connections summary.\<close>

definition connectionLine :: "json list \<Rightarrow> json \<Rightarrow> jsTypeError + string" where
  "connectionLine ns edge =
     bindE (findNode ns edge ''source'') (\<lambda>sourceNode.
     bindE (findNode ns edge ''target'') (\<lambda>targetNode.
     bindE (labelOf sourceNode) (\<lambda>sourceLabel.
     bindE (templateStr (orElse sourceLabel (Some (JStr ''Unknown'')))) (\<lambda>s1.
     bindE (labelOf targetNode) (\<lambda>targetLabel.
     bindE (templateStr (orElse targetLabel (Some (JStr ''Unknown'')))) (\<lambda>s2.
     bindE (getProp (Some edge) ''data'') (\<lambda>d.
     bindE (getPropOpt d ''protocol'') (\<lambda>protocol.
     bindE (templateStr (orElse protocol (Some (JStr ''default'')))) (\<lambda>s3.
     Inr (s1 @ ('' '' @ [CHR 0xE2, CHR 0x86, CHR 0x92] @ '' '') @ s2 @ '' ('' @ s3 @ '')''))))))))))"

text \<open>\<^verbatim>\<open>architecture.metadata?.prompt\<close>\<close>

definition metadataPrompt :: "Architecture \<Rightarrow> jsval" where
  "metadataPrompt architecture =
     (case metadata architecture of None \<Rightarrow> None | Some m \<Rightarrow> map_of m ''prompt'')"

definition originalRequirementOf :: "Architecture \<Rightarrow> jsTypeError + string" where
  "originalRequirementOf architecture =
     (if truthy (metadataPrompt architecture)
      then bindE (templateStr (metadataPrompt architecture))
             (\<lambda>p. Inr (''Original requirement: '' @ p))
      else Inr ''No original requirement specified'')"

definition minimalContext :: "nat \<Rightarrow> nat \<Rightarrow> string \<Rightarrow> string" where
  "minimalContext serviceCount connectionCount originalRequirement =
     ''\<newline>'' @ ''CURRENT ARCHITECTURE (MINIMAL):\<newline>'' @ ''- ''
         @ showNat serviceCount @ '' services\<newline>'' @ ''- '' @ showNat connectionCount
         @ '' connections\<newline>'' @ originalRequirement @ ''\<newline>''"

definition summaryContext :: "nat \<Rightarrow> nat \<Rightarrow> string \<Rightarrow> string \<Rightarrow> string \<Rightarrow> string" where
  "summaryContext serviceCount connectionCount servicesSummary connectionsSummary
       originalRequirement =
     ''\<newline>'' @ ''CURRENT ARCHITECTURE SUMMARY:\<newline>'' @ ''Services (''
         @ showNat serviceCount @ ''):\<newline>'' @ ''- '' @ servicesSummary @ ''\<newline>''
         @ ''\<newline>'' @ ''Connections ('' @ showNat connectionCount @ ''):\<newline>'' @ ''- ''
         @ connectionsSummary @ ''\<newline>'' @ ''\<newline>'' @ originalRequirement @ ''\<newline>''"

definition fullContext :: "string \<Rightarrow> string \<Rightarrow> string \<Rightarrow> string \<Rightarrow> string \<Rightarrow> string" where
  "fullContext nodesJson edgesJson servicesSummary connectionsSummary originalRequirement =
     ''\<newline>'' @ ''FULL CURRENT ARCHITECTURE:\<newline>'' @ ''Nodes JSON: \<newline>''
         @ ''```json\<newline>'' @ nodesJson @ ''\<newline>'' @ ''```\<newline>'' @ ''\<newline>''
         @ ''Edges JSON: \<newline>'' @ ''```json\<newline>'' @ edgesJson @ ''\<newline>''
         @ ''```\<newline>'' @ ''\<newline>'' @ ''Services Summary:\<newline>'' @ ''- ''
         @ servicesSummary @ ''\<newline>'' @ ''\<newline>'' @ ''Connections Summary:\<newline>''
         @ ''- '' @ connectionsSummary @ ''\<newline>'' @ ''\<newline>'' @ originalRequirement
         @ ''\<newline>''"

definition generateContextString :: "Architecture \<Rightarrow> ContextLevel \<Rightarrow> jsTypeError + string" where
  "generateContextString architecture level =
     (if level = LevelNone then Inr []
      else
        let serviceCount = length (nodes architecture);
            connectionCount = length (edges architecture)
        in
        bindE (originalRequirementOf architecture) (\<lambda>originalRequirement.
        if level = LevelMinimal
        then Inr (minimalContext serviceCount connectionCount originalRequirement)
        else
          bindE (mapE serviceLine (nodes architecture)) (\<lambda>serviceLines.
          bindE (mapE (connectionLine (nodes architecture)) (edges architecture))
            (\<lambda>connectionLines.
          let servicesSummary = joinStr (''\<newline>'' @ ''- '') serviceLines;
              connectionsSummary = joinStr (''\<newline>'' @ ''- '') connectionLines
          in
          if level = LevelSummary
          then Inr (summaryContext serviceCount connectionCount servicesSummary
                      connectionsSummary originalRequirement)
          else Inr (fullContext (JSON_stringify2 (JArr (nodes architecture)))
                      (JSON_stringify2 (JArr (edges architecture)))
                      servicesSummary connectionsSummary originalRequirement)))))"

subsection \<open>Architectures whose summaries can be written\<close>

text \<open>
  A value that is not an object or an array has a text in every case. A node is described
  when it is an object whose \<^verbatim>\<open>data\<close> is an object with such values for \<^verbatim>\<open>service\<close>,
  \<^verbatim>\<open>label\<close> and \<^verbatim>\<open>description\<close> (each may be missing); an edge is plain when it is an
  object whose \<^verbatim>\<open>data\<close>, if it is an object, has such a value for \<^verbatim>\<open>protocol\<close>.
\<close>

fun primitive :: "jsval \<Rightarrow> bool" where
  "primitive (Some (JArr xs)) = False"
| "primitive (Some (JObj ps)) = False"
| "primitive v = True"

fun describedNode :: "json \<Rightarrow> bool" where
  "describedNode (JObj ps) =
     (case map_of ps ''data'' of
        Some (JObj d) \<Rightarrow>
          primitive (map_of d ''service'') \<and> primitive (map_of d ''label'')
          \<and> primitive (map_of d ''description'')
      | _ \<Rightarrow> False)"
| "describedNode v = False"

fun plainEdge :: "json \<Rightarrow> bool" where
  "plainEdge (JObj ps) =
     (case map_of ps ''data'' of
        Some (JObj d) \<Rightarrow> primitive (map_of d ''protocol'')
      | _ \<Rightarrow> True)"
| "plainEdge v = False"

definition describedArchitecture :: "Architecture \<Rightarrow> bool" where
  "describedArchitecture architecture =
     (primitive (metadataPrompt architecture)
      \<and> (\<forall>n \<in> set (nodes architecture). describedNode n)
      \<and> (\<forall>e \<in> set (edges architecture). plainEdge e))"

definition exampleArchitecture :: Architecture where
  "exampleArchitecture =
     \<lparr>nodes = [JObj [(''id'', JStr ''a''),
                     (''data'', JObj [(''service'', JStr ''S3''), (''label'', JStr ''Bucket'')])]],
      edges = [JObj [(''source'', JStr ''a''), (''target'', JStr ''b'')]],
      metadata = Some [(''prompt'', JStr ''store files'')]\<rparr>"

definition hasData :: "json \<Rightarrow> bool" where
  "hasData n =
     (case getProp (Some n) ''data'' of
        Inr (Some d) \<Rightarrow> d \<noteq> JNull
      | _ \<Rightarrow> False)"

definition bareArchitecture :: Architecture where
  "bareArchitecture = \<lparr>nodes = [JObj []], edges = [], metadata = None\<rparr>"

section \<open>Post-processing of the model output (\<^verbatim>\<open>src/ai/response/formatResponse.ts\<close>)\<close>

text \<open>\<^verbatim>\<open>language || fallback\<close> for a language that may be \<^verbatim>\<open>null\<close>, \<^verbatim>\<open>undefined\<close> or empty.\<close>

definition languageOr :: "string option \<Rightarrow> string \<Rightarrow> string" where
  "languageOr language fallback =
     (case language of None \<Rightarrow> fallback | Some l \<Rightarrow> if l = [] then fallback else l)"

definition codeBlockPattern :: jsregex where
  "codeBlockPattern = rxi (Cat [Lit ''```'', Star (Cls [CRange (CHR ''a'') (CHR ''z'')]), Lit ''\<newline>'', PlusLazy AnyCh, Lit ''```''])"

definition codeMarkerPattern :: jsregex where
  "codeMarkerPattern = rxi (Alts [Cat [Lit ''Here'', Opt (Lit [CHR 0x27]), Lit ''s the code''], Lit ''Implementation:'', Lit ''Code example''])"

definition numberedPattern :: jsregex where
  "numberedPattern = rx (Cat [Bol, Plus (Cls [CDigit]), Lit ''.'', Star Ws])"

definition fence :: string where
  "fence = ''```''"

text \<open>The cases \<^verbatim>\<open>cdk_generation\<close> and \<^verbatim>\<open>code_generation\<close>.\<close>

definition formatCode :: "Intent \<Rightarrow> string \<Rightarrow> string option \<Rightarrow> string" where
  "formatCode intent rawResponse language =
     (if \<not> strIncludes rawResponse fence
      then
        let lang = languageOr language
                     (if intent = Cdk_generation then ''typescript'' else ''javascript'')
        in fence @ lang @ ''\<newline>'' @ trim rawResponse @ ''\<newline>'' @ fence
      else
        (case regexMatch rawResponse codeBlockPattern of
           Some codeBlockMatch \<Rightarrow>
             let introText = trim (substring rawResponse 0 (indexOf rawResponse fence))
             in if length introText < 100
                then (if introText \<noteq> []
                      then introText @ ''\<newline>'' @ ''\<newline>'' @ mtext codeBlockMatch
                      else mtext codeBlockMatch)
                else mtext codeBlockMatch
         | None \<Rightarrow> rawResponse))"

text \<open>The case \<^verbatim>\<open>code_explanation\<close>.\<close>

definition formatCodeExplanation :: "string \<Rightarrow> string option \<Rightarrow> string" where
  "formatCodeExplanation rawResponse language =
     (if \<not> strIncludes rawResponse fence
      then
        let parts = splitRegex rawResponse codeMarkerPattern
        in if 1 < length parts
           then
             let explanation = trim (parts ! 0);
                 code = trim (parts ! 1);
                 lang = languageOr language ''javascript''
             in explanation @ ''\<newline>'' @ ''\<newline>'' @ fence @ lang @ ''\<newline>'' @ code
                  @ ''\<newline>'' @ fence
           else rawResponse
      else rawResponse)"

text \<open>
  The cases \<^verbatim>\<open>architecture_explanation\<close>, \<^verbatim>\<open>system_design\<close>, \<^verbatim>\<open>question\<close> and
  \<^verbatim>\<open>comparison\<close>: a header for a long text without one, bullet points for paragraphs.
\<close>

definition headerFor :: "Intent \<Rightarrow> string option" where
  "headerFor intent =
     (if intent = Architecture_explanation then Some ''## Architecture Explanation''
      else if intent = System_design then Some ''## System Design''
      else if intent = Comparison then Some ''## Comparison''
      else None)"

definition needsHeader :: "string \<Rightarrow> bool" where
  "needsHeader rawResponse =
     (\<not> strIncludes rawResponse ''#'' \<and>
      (let lines = splitStr rawResponse ''\<newline>''
       in 3 < length lines \<and> \<not> startsWith (lines ! 0) ''#''))"

definition formatStructured :: "Intent \<Rightarrow> string \<Rightarrow> string" where
  "formatStructured intent rawResponse =
     (if needsHeader rawResponse \<and> headerFor intent \<noteq> None
      then the (headerFor intent) @ ''\<newline>'' @ ''\<newline>'' @ rawResponse
      else if (intent = Comparison \<or> intent = Question)
              \<and> \<not> strIncludes rawResponse ''-''
              \<and> \<not> strIncludes rawResponse ''*''
              \<and> 2 < length (splitStr rawResponse (''\<newline>'' @ ''\<newline>''))
      then
        let paragraphs = splitStr rawResponse (''\<newline>'' @ ''\<newline>'');
            bulletPoints = map (\<lambda>p. replaceFirst (trim p) numberedPattern ''- '') paragraphs
        in joinStr (''\<newline>'' @ ''\<newline>'') bulletPoints
      else rawResponse)"

fun postProcessResponse :: "Intent \<Rightarrow> string \<Rightarrow> string option \<Rightarrow> string" where
  "postProcessResponse Architecture_update rawResponse language = rawResponse"
| "postProcessResponse Cdk_generation rawResponse language =
     formatCode Cdk_generation rawResponse language"
| "postProcessResponse Code_generation rawResponse language =
     formatCode Code_generation rawResponse language"
| "postProcessResponse Code_explanation rawResponse language =
     formatCodeExplanation rawResponse language"
| "postProcessResponse Architecture_explanation rawResponse language =
     formatStructured Architecture_explanation rawResponse"
| "postProcessResponse System_design rawResponse language =
     formatStructured System_design rawResponse"
| "postProcessResponse Question rawResponse language = formatStructured Question rawResponse"
| "postProcessResponse Comparison rawResponse language =
     formatStructured Comparison rawResponse"
| "postProcessResponse Greeting rawResponse language = trim rawResponse"
| "postProcessResponse General_chat rawResponse language = trim rawResponse"
| "postProcessResponse Architecture_rationale rawResponse language = rawResponse"

text \<open>The character before position \<open>i\<close> of a text, which a pattern may look at.\<close>

definition charBefore :: "string \<Rightarrow> nat \<Rightarrow> char option" where
  "charBefore s i = (if i = 0 then None else Some (s ! (i - 1)))"

text \<open>Two raw responses: two fenced blocks after a short intro; a fence inside the intro.\<close>

definition twoBlocks :: string where
  "twoBlocks = ''Use: ```js\<newline>f()``` or ```py\<newline>g()```''"

definition strayFence :: string where
  "strayFence = ''a```b```js\<newline>c```''"

section \<open>Prompt templates (\<^verbatim>\<open>src/ai/prompt/promptTemplates.ts\<close>)\<close>

definition BASE_SYSTEM_PROMPT :: string where
  "BASE_SYSTEM_PROMPT =
     ''You are Jarvis, an intelligent AI assistant specialized in cloud architecture and system design.\<newline>''
       @ ''You provide helpful, accurate, and concise responses. \<newline>''
       @ ''Always prioritize clarity, security best practices, and scalable design when giving recommendations.\<newline>''"

definition ARCHITECTURE_SYSTEM_PROMPT :: string where
  "ARCHITECTURE_SYSTEM_PROMPT =
     BASE_SYSTEM_PROMPT @ ''\<newline>''
       @ ''You excel at cloud architecture design using AWS services. When analyzing or modifying architectures:\<newline>''
       @ ''1. Focus on security, scalability, and cost-effectiveness\<newline>''
       @ ''2. Use appropriate AWS services for each requirement\<newline>''
       @ ''3. Consider separation of concerns and system boundaries\<newline>''
       @ ''4. Suggest efficient data flows between services\<newline>''
       @ ''5. Recommend appropriate connection protocols between services\<newline>''"

definition CODE_SYSTEM_PROMPT :: string where
  "CODE_SYSTEM_PROMPT =
     BASE_SYSTEM_PROMPT @ ''\<newline>''
       @ ''You excel at writing clean, efficient, and well-documented code. When generating code:\<newline>''
       @ ''1. Follow best practices and design patterns for the target language\<newline>''
       @ ''2. Include necessary error handling and edge cases\<newline>''
       @ ''3. Write clear comments explaining complex logic\<newline>''
       @ ''4. Structure the code for maintainability and extensibility\<newline>''
       @ ''5. Use modern syntax and features when appropriate\<newline>''"

definition CDK_SYSTEM_PROMPT :: string where
  "CDK_SYSTEM_PROMPT =
     CODE_SYSTEM_PROMPT @ ''\<newline>''
       @ ''You specialize in AWS CDK (Cloud Development Kit) using TypeScript. When generating CDK code:\<newline>''
       @ ''1. Use L2 constructs when available for better abstractions\<newline>''
       @ ''2. Apply security best practices (least privilege IAM, encryption)\<newline>''
       @ ''3. Create reusable and modular constructs \<newline>''
       @ ''4. Use proper CDK patterns and idioms\<newline>''
       @ ''5. Include necessary imports and explicit dependencies\<newline>''
       @ ''6. Consider resource removal policies and retention strategies\<newline>''"

record PromptTemplate =
  systemPrompt :: string
  userPromptPrefix :: "string option"
  userPromptSuffix :: "string option"
  temperature :: "rat option"
  model :: "string option"

definition architectureUpdateTemplate :: PromptTemplate where
  "architectureUpdateTemplate =
     \<lparr>systemPrompt =
         ARCHITECTURE_SYSTEM_PROMPT @ ''\<newline>''
         @ ''When updating an architecture based on user requirements:\<newline>''
         @ ''1. Always maintain the structure of the existing architecture where possible\<newline>''
         @ ''2. Add or modify only the necessary components to fulfill the request\<newline>''
         @ ''3. Preserve IDs and relationships of existing components\<newline>''
         @ ''4. Explain your reasoning for each change\<newline>''
         @ ''5. Return the updated nodes and edges JSON that can be directly used to replace the existing architecture'',
      userPromptPrefix = Some ''Please update the current architecture based on this requirement: '',
      userPromptSuffix = None,
      temperature = Some (2 / 10),
      model = None\<rparr>"

definition architectureRationaleTemplate :: PromptTemplate where
  "architectureRationaleTemplate =
     \<lparr>systemPrompt =
         ARCHITECTURE_SYSTEM_PROMPT @ ''\<newline>''
         @ ''When providing a comprehensive architecture rationale:\<newline>''
         @ ''1. Analyze the current architecture in detail including costs, scalability, and security\<newline>''
         @ ''2. Estimate the cost of each AWS service and provide a total monthly cost estimate\<newline>''
         @ ''3. Describe the purpose and importance of each component in the system\<newline>''
         @ ''4. Explain data flows and service connections, including why certain connections exist\<newline>''
         @ ''5. Evaluate the security, compliance, and operational aspects of the design\<newline>''
         @ ''6. Provide relevant best practices and potential improvements\<newline>''
         @ ''7. Format your response with clear markdown headings and structure'',
      userPromptPrefix = Some ''Please provide a comprehensive rationale and analysis for this architecture: '',
      userPromptSuffix = None,
      temperature = Some (3 / 10),
      model = Some ''gpt-4''\<rparr>"

definition cdkGenerationTemplate :: PromptTemplate where
  "cdkGenerationTemplate =
     \<lparr>systemPrompt =
         CDK_SYSTEM_PROMPT @ ''\<newline>''
         @ ''When generating CDK code for the architecture:\<newline>''
         @ ''1. Create TypeScript CDK constructs that implement the entire architecture\<newline>''
         @ ''2. Organize code into logical stacks based on service boundaries\<newline>''
         @ ''3. Include all necessary connections and permissions between services\<newline>''
         @ ''4. Add appropriate comments explaining implementation decisions\<newline>''
         @ ''5. Format your response as compilable TypeScript code in markdown code blocks'',
      userPromptPrefix = Some ''Generate AWS CDK TypeScript code for the following architecture: '',
      userPromptSuffix = None,
      temperature = Some (2 / 10),
      model = Some ''gpt-4''\<rparr>"

definition codeGenerationTemplate :: PromptTemplate where
  "codeGenerationTemplate =
     \<lparr>systemPrompt =
         CODE_SYSTEM_PROMPT @ ''\<newline>''
         @ ''When generating code based on requirements:\<newline>''
         @ ''1. Implement a complete solution that meets all specified requirements\<newline>''
         @ ''2. Structure the code logically with proper separation of concerns\<newline>''
         @ ''3. Include error handling, validation, and edge case management\<newline>''
         @ ''4. Add appropriate comments explaining implementation decisions\<newline>''
         @ ''5. Format your response as compilable code in markdown code blocks'',
      userPromptPrefix = Some ''Please generate code for the following requirement: '',
      userPromptSuffix = None,
      temperature = Some (3 / 10),
      model = None\<rparr>"

definition codeExplanationTemplate :: PromptTemplate where
  "codeExplanationTemplate =
     \<lparr>systemPrompt =
         BASE_SYSTEM_PROMPT @ ''\<newline>'' @ ''When explaining code:\<newline>''
         @ ''1. First summarize what the code does at a high level\<newline>''
         @ ''2. Break down key sections and explain their purpose\<newline>''
         @ ''3. Identify important patterns, algorithms, or techniques used\<newline>''
         @ ''4. Note any potential issues, optimizations, or security concerns\<newline>''
         @ ''5. Use clear, educational language assuming the user has technical background'',
      userPromptPrefix = Some ''Please explain this code: '',
      userPromptSuffix = None,
      temperature = Some (3 / 10),
      model = None\<rparr>"

definition architectureExplanationTemplate :: PromptTemplate where
  "architectureExplanationTemplate =
     \<lparr>systemPrompt =
         ARCHITECTURE_SYSTEM_PROMPT @ ''\<newline>''
         @ ''When explaining an architecture:\<newline>''
         @ ''1. Provide a high-level overview of the system and its purpose\<newline>''
         @ ''2. Describe each component and its role in the architecture\<newline>''
         @ ''3. Explain the data flow and interactions between components\<newline>''
         @ ''4. Highlight key design decisions and their rationales\<newline>''
         @ ''5. Discuss scalability, security, and resilience aspects'',
      userPromptPrefix = Some ''Please explain this architecture: '',
      userPromptSuffix = None,
      temperature = Some (3 / 10),
      model = None\<rparr>"

definition systemDesignTemplate :: PromptTemplate where
  "systemDesignTemplate =
     \<lparr>systemPrompt =
         ARCHITECTURE_SYSTEM_PROMPT @ ''\<newline>''
         @ ''When designing a system from requirements:\<newline>''
         @ ''1. First analyze the functional and non-functional requirements\<newline>''
         @ ''2. Propose a high-level architecture with appropriate services\<newline>''
         @ ''3. Justify your choice of components and their relationships\<newline>''
         @ ''4. Consider scalability, security, reliability, and cost\<newline>''
         @ ''5. Suggest implementation approaches and potential challenges'',
      userPromptPrefix = Some ''Please design a system for these requirements: '',
      userPromptSuffix = None,
      temperature = Some (4 / 10),
      model = None\<rparr>"

definition comparisonTemplate :: PromptTemplate where
  "comparisonTemplate =
     \<lparr>systemPrompt =
         BASE_SYSTEM_PROMPT @ ''\<newline>'' @ ''When making comparisons:\<newline>''
         @ ''1. Identify the key dimensions for comparison\<newline>''
         @ ''2. Objectively evaluate each option against these dimensions\<newline>''
         @ ''3. Highlight the strengths and weaknesses of each option\<newline>''
         @ ''4. Consider contextual factors that might affect the decision\<newline>''
         @ ''5. Provide a balanced assessment without unwarranted bias'',
      userPromptPrefix = Some ''Compare the following: '',
      userPromptSuffix = None,
      temperature = Some (3 / 10),
      model = None\<rparr>"

definition questionTemplate :: PromptTemplate where
  "questionTemplate =
     \<lparr>systemPrompt =
         BASE_SYSTEM_PROMPT,
      userPromptPrefix = None,
      userPromptSuffix = None,
      temperature = Some (4 / 10),
      model = None\<rparr>"

definition greetingTemplate :: PromptTemplate where
  "greetingTemplate =
     \<lparr>systemPrompt =
         BASE_SYSTEM_PROMPT @ ''\<newline>'' @ ''When greeting users:\<newline>''
         @ ''1. Be friendly, concise, and professional\<newline>''
         @ ''2. Briefly mention your capabilities relevant to cloud architecture\<newline>''
         @ ''3. Ask how you can assist them with their cloud architecture needs'',
      userPromptPrefix = None,
      userPromptSuffix = None,
      temperature = Some (7 / 10),
      model = None\<rparr>"

definition generalChatTemplate :: PromptTemplate where
  "generalChatTemplate =
     \<lparr>systemPrompt =
         BASE_SYSTEM_PROMPT,
      userPromptPrefix = None,
      userPromptSuffix = None,
      temperature = Some (5 / 10),
      model = None\<rparr>"

text \<open>\<^verbatim>\<open>promptTemplates[intent] || promptTemplates.general_chat\<close>: the table has every intent.\<close>

fun getPromptTemplateForIntent :: "Intent \<Rightarrow> PromptTemplate" where
  "getPromptTemplateForIntent Architecture_update = architectureUpdateTemplate"
| "getPromptTemplateForIntent Architecture_rationale = architectureRationaleTemplate"
| "getPromptTemplateForIntent Cdk_generation = cdkGenerationTemplate"
| "getPromptTemplateForIntent Code_generation = codeGenerationTemplate"
| "getPromptTemplateForIntent Code_explanation = codeExplanationTemplate"
| "getPromptTemplateForIntent Architecture_explanation = architectureExplanationTemplate"
| "getPromptTemplateForIntent System_design = systemDesignTemplate"
| "getPromptTemplateForIntent Comparison = comparisonTemplate"
| "getPromptTemplateForIntent Question = questionTemplate"
| "getPromptTemplateForIntent Greeting = greetingTemplate"
| "getPromptTemplateForIntent General_chat = generalChatTemplate"

definition buildSystemPrompt :: "Intent \<Rightarrow> string \<Rightarrow> string" where
  "buildSystemPrompt intent contextString =
     (let template = getPromptTemplateForIntent intent
      in if contextString \<noteq> []
         then systemPrompt template @ ''\<newline>'' @ ''    \<newline>'' @ ''CONTEXT:\<newline>''
              @ contextString
         else systemPrompt template)"

definition formatUserMessage :: "Intent \<Rightarrow> string \<Rightarrow> string" where
  "formatUserMessage intent userMessage =
     (let template = getPromptTemplateForIntent intent;
          formattedMessage = userMessage;
          formattedMessage = (case userPromptPrefix template of
                                Some prefix \<Rightarrow> if prefix \<noteq> [] then prefix @ formattedMessage
                                               else formattedMessage
                              | None \<Rightarrow> formattedMessage);
          formattedMessage = (case userPromptSuffix template of
                                Some suffix \<Rightarrow> if suffix \<noteq> [] then formattedMessage @ suffix
                                               else formattedMessage
                              | None \<Rightarrow> formattedMessage)
      in formattedMessage)"

text \<open>\<^verbatim>\<open>template.temperature || 0.4\<close>\<close>

definition getModelConfigForIntent :: "Intent \<Rightarrow> rat \<times> string option" where
  "getModelConfigForIntent intent =
     (let template = getPromptTemplateForIntent intent
      in ((case temperature template of
             Some t \<Rightarrow> if t \<noteq> 0 then t else 4 / 10
           | None \<Rightarrow> 4 / 10),
          model template))"

section \<open>The integration layer (\<^verbatim>\<open>src/ai/jarvis-integration.ts\<close>)\<close>

text \<open>\<^verbatim>\<open>s || fallback\<close> for a text that may be missing or empty.\<close>

definition stringOr :: "string option \<Rightarrow> string \<Rightarrow> string" where
  "stringOr s fallback = (case s of None \<Rightarrow> fallback | Some t \<Rightarrow> if t = [] then fallback else t)"

subsection \<open>\<^verbatim>\<open>generateAIPrompt\<close>\<close>

definition updatePrompt :: "string \<Rightarrow> string \<Rightarrow> string \<Rightarrow> string \<Rightarrow> string" where
  "updatePrompt nodesJson edgesJson message editType =
     ''\<newline>''
     @ ''You are an AWS architecture expert modifying a diagram JSON based on a user request.\<newline>''
     @ ''CURRENT ARCHITECTURE JSON:\<newline>'' @ ''```json\<newline>'' @ ''{ '' @ [CHR 0x22]
     @ ''nodes'' @ [CHR 0x22] @ '': '' @ nodesJson @ '', '' @ [CHR 0x22] @ ''edges''
     @ [CHR 0x22] @ '': '' @ edgesJson @ '' }\<newline>'' @ ''```\<newline>''
     @ ''USER REQUEST: '' @ [CHR 0x22] @ message @ [CHR 0x22] @ ''\<newline>''
     @ ''TASK: Directly modify the architecture JSON to perform the '' @ [CHR 0x27] @ editType
     @ [CHR 0x27] @ '' action.\<newline>'' @ ''OUTPUT FORMAT (Strictly follow):\<newline>''
     @ ''<architecture>\<newline>'' @ ''{ '' @ [CHR 0x22] @ ''nodes'' @ [CHR 0x22]
     @ '': [...], '' @ [CHR 0x22] @ ''edges'' @ [CHR 0x22] @ '': [...] }\<newline>''
     @ ''</architecture>\<newline>'' @ ''<explanation>\<newline>''
     @ ''Brief bullet points of changes made.\<newline>'' @ ''</explanation>\<newline>''
     @ ''IMPORTANT: Return the COMPLETE, modified architecture JSON. Ensure nodes/edges arrays are valid.\<newline>''"

definition rationalePrompt :: "string \<Rightarrow> string \<Rightarrow> string \<Rightarrow> string \<Rightarrow> string" where
  "rationalePrompt nodesJson edgesJson servicesSummary message =
     ''\<newline>''
     @ ''You are an AWS architecture expert providing a comprehensive rationale and analysis.\<newline>''
     @ ''CURRENT ARCHITECTURE JSON:\<newline>'' @ ''```json\<newline>'' @ ''{ '' @ [CHR 0x22]
     @ ''nodes'' @ [CHR 0x22] @ '': '' @ nodesJson @ '', '' @ [CHR 0x22] @ ''edges''
     @ [CHR 0x22] @ '': '' @ edgesJson @ '' }\<newline>'' @ ''```\<newline>'' @ ''\<newline>''
     @ ''Services Summary:\<newline>'' @ ''- '' @ servicesSummary @ ''\<newline>''
     @ ''\<newline>'' @ ''USER REQUEST: '' @ [CHR 0x22] @ message @ [CHR 0x22] @ ''\<newline>''
     @ ''\<newline>''
     @ ''TASK: Provide a detailed rationale and analysis of this AWS architecture, responding to the user's specific request.\<newline>''
     @ ''\<newline>'' @ ''Include in your comprehensive analysis:\<newline>''
     @ ''1. Executive Summary - Brief overview of the architecture's purpose and design\<newline>''
     @ ''2. Cost Analysis - Estimated monthly costs for each AWS service and approximate total cost\<newline>''
     @ ''3. Architecture Components - Detailed explanation of each service's purpose\<newline>''
     @ ''4. Data Flow - How information moves through the system\<newline>''
     @ ''5. Security Assessment - Security features and potential improvements\<newline>''
     @ ''6. Scalability Analysis - How the system handles increased load\<newline>''
     @ ''7. Reliability & Availability - Disaster recovery and high availability features\<newline>''
     @ ''8. Operational Excellence - Monitoring, alerting, and management\<newline>''
     @ ''9. Best Practices - AWS recommendations that are followed or could be implemented\<newline>''
     @ ''10. Trade-offs - Key design decisions and their implications\<newline>''
     @ ''\<newline>''
     @ ''FORMAT: Use proper markdown formatting with clear headings, bullet points, and tables where appropriate.\<newline>''
     @ ''For the cost analysis, include a table with service names, estimated usage, and monthly costs.\<newline>''
     @ ''\<newline>''
     @ ''IMPORTANT: Make all cost estimates realistic based on typical usage patterns for this type of architecture.\<newline>''"

definition cdkPrompt :: "string \<Rightarrow> string \<Rightarrow> string \<Rightarrow> string" where
  "cdkPrompt contextString message targetLanguage =
     ''\<newline>''
     @ ''You are an AWS CDK expert generating COMPLETE, production-ready Infrastructure as Code.\<newline>''
     @ contextString @ ''\<newline>'' @ ''USER REQUEST: '' @ [CHR 0x22] @ message @ [CHR 0x22]
     @ ''\<newline>'' @ ''TASK: Generate complete AWS CDK v2 code in '' @ targetLanguage
     @ '' for the user's request, based on the provided architecture context.\<newline>''
     @ ''OUTPUT FORMAT:\<newline>''
     @ ''- Start with a brief one-sentence description (optional).\<newline>''
     @ ''- Provide the code ONLY within a single markdown code block with the correct language tag (e.g., ```''
     @ targetLanguage @ '' ... ```).\<newline>''
     @ ''- Include necessary imports and structure the code properly (e.g., Stack class).\<newline>''
     @ ''- DO NOT include explanations outside the code block unless specifically asked.\<newline>''"

definition codePrompt :: "string \<Rightarrow> string \<Rightarrow> string \<Rightarrow> string" where
  "codePrompt contextString message targetLanguage =
     ''\<newline>''
     @ ''You are a software engineer generating a concise code snippet.\<newline>''
     @ contextString @ ''\<newline>'' @ ''USER REQUEST: '' @ [CHR 0x22] @ message @ [CHR 0x22]
     @ ''\<newline>'' @ ''TASK: Generate a code snippet in '' @ targetLanguage
     @ '' that fulfills the user's request, referencing the provided architecture context if needed.\<newline>''
     @ ''OUTPUT FORMAT:\<newline>''
     @ ''- Start with a brief one-sentence description (optional, max 1 sentence).\<newline>''
     @ ''- Provide the code ONLY within a single markdown code block with the correct language tag (```''
     @ targetLanguage @ '' ... ```).\<newline>''
     @ ''- Include necessary imports/setup for the snippet to be understandable.\<newline>''
     @ ''- DO NOT include lengthy explanations outside the code block.\<newline>''"

definition standardPrompt :: "string \<Rightarrow> string \<Rightarrow> string" where
  "standardPrompt systemPromptText formattedUserMessage =
     systemPromptText @ ''\<newline>'' @ ''\<newline>'' @ ''USER MESSAGE: ''
     @ formattedUserMessage"

text \<open>
  The context string is computed first, for every intent, and so is the first thing that
  can throw; the rationale prompt writes its own services summary, which can throw too.
\<close>

definition generateAIPrompt ::
  "EnhancedIntentMatch \<Rightarrow> string \<Rightarrow> Architecture \<Rightarrow> string \<Rightarrow> jsTypeError + string" where
  "generateAIPrompt intent message architecture targetLanguage =
     (let contextLevel = getContextLevelForIntent (intentType intent)
      in
      bindE (generateContextString architecture contextLevel) (\<lambda>contextString.
      let systemPromptText = buildSystemPrompt (intentType intent) contextString;
          formattedUserMessage = formatUserMessage (intentType intent) message
      in
      if intentType intent = Architecture_update
      then
        let nodesJson = JSON_stringify2 (JArr (nodes architecture));
            edgesJson = JSON_stringify2 (JArr (edges architecture));
            editType = stringOr (subType intent) ''modify''
        in Inr (updatePrompt nodesJson edgesJson message editType)
      else if intentType intent = Architecture_rationale
      then
        let nodesJson = JSON_stringify2 (JArr (nodes architecture));
            edgesJson = JSON_stringify2 (JArr (edges architecture))
        in
        bindE (mapE serviceLine (nodes architecture)) (\<lambda>serviceLines.
        let servicesSummary = joinStr (''\<newline>'' @ ''- '') serviceLines
        in Inr (rationalePrompt nodesJson edgesJson servicesSummary message))
      else if intentType intent = Cdk_generation
      then Inr (cdkPrompt contextString message targetLanguage)
      else if intentType intent = Code_generation
      then Inr (codePrompt contextString message targetLanguage)
      else Inr (standardPrompt systemPromptText formattedUserMessage)))"

subsection \<open>\<^verbatim>\<open>processArchitectureUpdate\<close>\<close>

text \<open>The four patterns, in the order in which they are tried, and the two others.\<close>

definition tagPattern :: jsregex where
  "tagPattern =
     rx (Cat [Lit ''<architecture>'', Grp 1 (StarLazy AnyCh), Lit ''</architecture>''])"

definition labelledBlockPattern :: jsregex where
  "labelledBlockPattern =
     rx (Cat [Lit ''```'', Opt (Lit ''json''), Star Ws, Opt (Words [''architecture'',
     ''diagram'']), Star Ws, Grp 1 (StarLazy AnyCh), Lit ''```''])"

definition jsonBlockPattern :: jsregex where
  "jsonBlockPattern =
     rx (Cat [Lit ''```json'', Star Ws, Grp 1 (StarLazy AnyCh), Lit ''```''])"

definition lastResortPattern :: jsregex where
  "lastResortPattern =
     rx (Grp 1 (Cat [Lit ''{'', StarLazy AnyCh, Lit ([CHR 0x22] @ ''nodes'' @ [CHR 0x22]),
     Star Ws, Lit '':'', Star Ws, Lit ''['', StarLazy AnyCh, Lit ([CHR 0x22] @ ''edges''
     @ [CHR 0x22]), Star Ws, Lit '':'', Star Ws, Lit ''['', StarLazy AnyCh, Lit ''}'']))"

definition patterns :: "jsregex list" where
  "patterns = [tagPattern, labelledBlockPattern, jsonBlockPattern, lastResortPattern]"

definition artifactPattern :: jsregex where
  "artifactPattern =
     rxg (Alts [Cat [Bol, Lit ''```json'', Star Ws], Cat [Star Ws, Lit ''```'', Eol]])"

definition explanationRegex :: jsregex where
  "explanationRegex =
     rx (Cat [Lit ''<explanation>'', Grp 1 (StarLazy AnyCh), Lit ''</explanation>''])"

text \<open>
  \<^verbatim>\<open>match && match[1]\<close>: the text of group 1 of the first match, when there is a match
  and the group is neither undefined nor empty.
\<close>

definition firstGroup :: "string \<Rightarrow> jsregex \<Rightarrow> string option" where
  "firstGroup s re =
     (case regexMatch s re of
        None \<Rightarrow> None
      | Some m \<Rightarrow>
          (case mgroups m ! 0 of
             None \<Rightarrow> None
           | Some g \<Rightarrow> if g = [] then None else Some g))"

text \<open>
  \<^verbatim>\<open>parsed && Array.isArray(parsed.nodes) && Array.isArray(parsed.edges)\<close>: only an object
  has properties that are arrays.
\<close>

fun isArray :: "json option \<Rightarrow> bool" where
  "isArray (Some (JArr xs)) = True"
| "isArray v = False"

fun validArchitecture :: "json \<Rightarrow> bool" where
  "validArchitecture (JObj ps) = (isArray (map_of ps ''nodes'') \<and> isArray (map_of ps ''edges''))"
| "validArchitecture v = False"

text \<open>
  The body of the loop for one pattern: the captured text, trimmed and without the fence
  artifacts, is parsed; the result is the parsed value when it has the shape of an
  architecture, and nothing when the pattern finds no text, the text does not parse (the
  SyntaxError is caught), or the value has another shape.
\<close>

definition candidate :: "string \<Rightarrow> jsregex \<Rightarrow> json option" where
  "candidate rawResponse pattern =
     (case firstGroup rawResponse pattern of
        None \<Rightarrow> None
      | Some g \<Rightarrow>
          let architectureText = trim g;
              architectureText = replaceAll architectureText artifactPattern []
          in (case JSON_parse architectureText of
                None \<Rightarrow> None
              | Some parsedArchitecture \<Rightarrow>
                  if validArchitecture parsedArchitecture then Some parsedArchitecture
                  else None))"

text \<open>
  The loop over the patterns: \<^verbatim>\<open>parsedArchitecture\<close> is \<^verbatim>\<open>null\<close> whenever a round starts,
  and the first round with a valid architecture ends the loop.
\<close>

fun tryPatterns :: "jsregex list \<Rightarrow> string \<Rightarrow> json option" where
  "tryPatterns [] rawResponse = None"
| "tryPatterns (pattern # others) rawResponse =
     (case candidate rawResponse pattern of
        Some parsedArchitecture \<Rightarrow> Some parsedArchitecture
      | None \<Rightarrow> tryPatterns others rawResponse)"

text \<open>
  The response without the first match of each pattern, taken out one pattern after the
  other.
\<close>

definition cleanedResponseOf :: "string \<Rightarrow> string" where
  "cleanedResponseOf rawResponse =
     foldl (\<lambda>cleanedResponse pattern. replaceFirst cleanedResponse pattern []) rawResponse patterns"

definition explanationOf :: "string \<Rightarrow> string" where
  "explanationOf rawResponse =
     (case firstGroup rawResponse explanationRegex of
        Some g \<Rightarrow> trim g
      | None \<Rightarrow>
          let cleanedResponse = cleanedResponseOf rawResponse;
              explanationText = (if trim cleanedResponse \<noteq> [] then trim cleanedResponse
                                 else ''Architecture updated.'')
          in if 1500 < length explanationText
             then substring explanationText 0 1500 @ ''...''
             else explanationText)"

record ArchitectureUpdate =
  parsedArchitecture :: "json option"
  explanation :: string

definition processArchitectureUpdate :: "string \<Rightarrow> ArchitectureUpdate" where
  "processArchitectureUpdate rawResponse =
     \<lparr>parsedArchitecture = tryPatterns patterns rawResponse,
      explanation = explanationOf rawResponse\<rparr>"

subsection \<open>\<^verbatim>\<open>processJarvisRequest\<close>\<close>

text \<open>
  The options of the call of the model. The call itself is a parameter of the handler: a
  function from the options to the text that the model answers, or to what it throws.
\<close>

record CohereChatOptions =
  chatModel :: string
  chatMessage :: string
  promptContext :: string
  chatTemperature :: rat
  maxTokens :: nat

record JarvisResult =
  response :: string
  architectureUpdated :: bool
  updatedArchitecture :: "json option"

definition errorResult :: JarvisResult where
  "errorResult =
     \<lparr>response = ''Sorry, I encountered an error while processing your request.'',
      architectureUpdated = False, updatedArchitecture = None\<rparr>"

text \<open>
  \<^verbatim>\<open>parsedArchitecture && parsedArchitecture.nodes && parsedArchitecture.edges\<close>, for the
  value that \<^verbatim>\<open>processArchitectureUpdate\<close> returns.
\<close>

definition usable :: "json option \<Rightarrow> bool" where
  "usable parsed =
     (truthy parsed \<and>
      (case getProp parsed ''nodes'' of
         Inr n \<Rightarrow> truthy n \<and> (case getProp parsed ''edges'' of Inr e \<Rightarrow> truthy e | Inl x \<Rightarrow> False)
       | Inl x \<Rightarrow> False))"

definition processResponse :: "Intent \<Rightarrow> string \<Rightarrow> string \<Rightarrow> JarvisResult" where
  "processResponse intent rawResponse targetLanguage =
     (if intent = Architecture_update
      then
        let update = processArchitectureUpdate rawResponse
        in if usable (parsedArchitecture update)
           then \<lparr>response =
                   [CHR 0xE2, CHR 0xC5, CHR 0x93, CHR 0xE2, CHR 0x80, CHR 0xA6]
            @ '' Architecture updated successfully.\<newline>'' @ ''\<newline>'' @ explanation update,
                 architectureUpdated = True,
                 updatedArchitecture = parsedArchitecture update\<rparr>
           else \<lparr>response = ''I tried to update the architecture, but couldn't parse the result properly. Please try rephrasing your request.'',
                 architectureUpdated = False, updatedArchitecture = None\<rparr>
      else \<lparr>response = postProcessResponse intent rawResponse (Some targetLanguage),
            architectureUpdated = False, updatedArchitecture = None\<rparr>)"

text \<open>
  The handler; \<open>generate\<close> is the call of the model and \<open>envModel\<close> the environment
  variable \<^verbatim>\<open>COHERE_MODEL\<close>. Whatever is thrown on the way is caught and answered with
  the error result.
\<close>

definition processJarvisRequest ::
  "(CohereChatOptions \<Rightarrow> 'e + string) \<Rightarrow> string option \<Rightarrow> string \<Rightarrow> Architecture \<Rightarrow> JarvisResult"
  where
  "processJarvisRequest generate envModel message architecture =
     (let enhancedIntent = detectEnhancedIntent message True;
          targetLanguage = stringOr (detectProgrammingLanguage message) ''typescript''
      in
      case generateAIPrompt enhancedIntent message architecture targetLanguage of
        Inl error \<Rightarrow> errorResult
      | Inr aiPrompt \<Rightarrow>
          (case generate
                  \<lparr>chatModel = stringOr envModel ''command-r-plus'',
                   chatMessage = message,
                   promptContext = aiPrompt,
                   chatTemperature =
                     (if strIncludes (intentString (intentType enhancedIntent)) ''code''
                      then 5 / 10 else 7 / 10),
                   maxTokens = 2000\<rparr> of
             Inl error \<Rightarrow> errorResult
           | Inr rawResponse \<Rightarrow>
               processResponse (intentType enhancedIntent) rawResponse targetLanguage))"

text \<open>
  The options with which the model is called for a message, or the TypeError thrown before
  any call is made.
\<close>

definition modelRequest ::
  "string option \<Rightarrow> string \<Rightarrow> Architecture \<Rightarrow> jsTypeError + CohereChatOptions" where
  "modelRequest envModel message architecture =
     (let enhancedIntent = detectEnhancedIntent message True;
          targetLanguage = stringOr (detectProgrammingLanguage message) ''typescript''
      in
      bindE (generateAIPrompt enhancedIntent message architecture targetLanguage) (\<lambda>aiPrompt.
      Inr \<lparr>chatModel = stringOr envModel ''command-r-plus'',
           chatMessage = message,
           promptContext = aiPrompt,
           chatTemperature =
             (if strIncludes (intentString (intentType enhancedIntent)) ''code''
              then 5 / 10 else 7 / 10),
           maxTokens = 2000\<rparr>))"

text \<open>Tags as the model is asked to write them, and a response with two blocks.\<close>

definition architectureOpen :: string where "architectureOpen = ''<architecture>''"
definition architectureClose :: string where "architectureClose = ''</architecture>''"
definition explanationOpen :: string where "explanationOpen = ''<explanation>''"
definition explanationClose :: string where "explanationClose = ''</explanation>''"

text \<open>The form of the tag pattern and of the explanation pattern.\<close>

definition tagRegex :: "string \<Rightarrow> string \<Rightarrow> jsregex" where
  "tagRegex opener closer = rx (Cat [Lit opener, Grp 1 (StarLazy AnyCh), Lit closer])"

text \<open>
  The text between the first occurrence of an opening tag and the first occurrence of the
  closing tag after it, if both are there; and a text only if it is not empty.
\<close>

definition firstBlock :: "string \<Rightarrow> string \<Rightarrow> string \<Rightarrow> string option" where
  "firstBlock opener closer s =
     (if indexOf s opener < 0 then None
      else
        let after = drop (nat (indexOf s opener) + length opener) s
        in if indexOf after closer < 0 then None
           else Some (take (nat (indexOf after closer)) after))"

definition nonEmpty :: "string option \<Rightarrow> string option" where
  "nonEmpty t = (case t of None \<Rightarrow> None | Some g \<Rightarrow> if g = [] then None else Some g)"

definition nestedArchitectureText :: string where
  "nestedArchitectureText = (''{'' @ [CHR 0x22] @ ''nodes'' @ [CHR 0x22] @ '':[],'' @ [CHR 0x22] @ ''edges'' @ [CHR 0x22] @ '':[{}]}'')"

definition taggedResponse :: string where
  "taggedResponse =
     ''Done. '' @ architectureOpen @ '' '' @ nestedArchitectureText @ '' '' @ architectureClose
     @ explanationOpen @ '' - a '' @ explanationClose"

definition twoTagBlocks :: string where
  "twoTagBlocks =
     architectureOpen @ ''x'' @ architectureClose
     @ architectureOpen @ nestedArchitectureText @ architectureClose"

section \<open>The orchestrator (\<^verbatim>\<open>src/ai/jarvis-orchestrator.ts\<close>)\<close>

subsection \<open>Follow-up suggestions\<close>

text \<open>The suggestions that the \<^verbatim>\<open>switch\<close> on the intent pushes.\<close>

fun intentSuggestions :: "Intent \<Rightarrow> string list" where
  "intentSuggestions Architecture_update =
     [''Generate CDK code for this architecture'',
      ''What are the security considerations for this design?'',
      ''Explain the data flow in this architecture'']"
| "intentSuggestions Cdk_generation =
     [''How would I deploy this CDK code?'',
      ''What AWS permissions are needed to deploy this?'',
      ''Explain how the CDK constructs work together'']"
| "intentSuggestions Code_generation =
     [''Explain how this code works'',
      ''What error handling should I add?'',
      ''How would I test this code?'']"
| "intentSuggestions Code_explanation =
     [''Generate code example for this concept'',
      ''What are the best practices for this?'',
      ''What are common mistakes to avoid?'']"
| "intentSuggestions Architecture_explanation =
     [''Generate code example for this concept'',
      ''What are the best practices for this?'',
      ''What are common mistakes to avoid?'']"
| "intentSuggestions Architecture_rationale =
     [''How can we optimize the costs of this architecture?'',
      ''What would be the disaster recovery strategy for this design?'',
      ''Generate CDK code for this architecture'',
      ''How would this architecture scale to handle 10x the load?'',
      ''What are the security best practices we should implement?'']"
| "intentSuggestions System_design =
     [''Update the architecture diagram'',
      ''Generate CDK code for AWS deployment'',
      ''Explain the benefits of this architecture'']"
| "intentSuggestions Comparison =
     [''Update the architecture diagram'',
      ''Generate CDK code for AWS deployment'',
      ''Explain the benefits of this architecture'']"
| "intentSuggestions Question =
     [''Generate code example for this concept'',
      ''What are the best practices for this?'',
      ''What are common mistakes to avoid?'']"
| "intentSuggestions Greeting =
     [''Update the architecture diagram'',
      ''Generate CDK code for AWS deployment'',
      ''Explain the benefits of this architecture'']"
| "intentSuggestions General_chat =
     [''Update the architecture diagram'',
      ''Generate CDK code for AWS deployment'',
      ''Explain the benefits of this architecture'']"

text \<open>
  \<^verbatim>\<open>s.includes(text)\<close> for a service type \<open>s\<close> of any kind: a string has the text as a
  part, an array has it as an element; on anything else the call throws.
\<close>

fun includesText :: "jsval \<Rightarrow> string \<Rightarrow> jsTypeError + bool" where
  "includesText (Some (JStr s)) sub = Inr (strIncludes s sub)"
| "includesText (Some (JArr xs)) sub = Inr (JStr sub \<in> set xs)"
| "includesText v sub = Inl TypeError"

text \<open>\<^verbatim>\<open>xs.some(f)\<close> for a callback that can throw: it stops at the first truthy answer.\<close>

fun someE :: "('a \<Rightarrow> jsTypeError + bool) \<Rightarrow> 'a list \<Rightarrow> jsTypeError + bool" where
  "someE f [] = Inr False"
| "someE f (x # xs) = bindE (f x) (\<lambda>b. if b then Inr True else someE f xs)"

definition includesEither :: "string \<Rightarrow> string \<Rightarrow> jsval \<Rightarrow> jsTypeError + bool" where
  "includesEither a b s = bindE (includesText s a) (\<lambda>found. if found then Inr True else includesText s b)"

definition architectureSuggestions :: "Architecture \<Rightarrow> jsTypeError + string list" where
  "architectureSuggestions architecture =
     (if 0 < length (nodes architecture)
      then
        bindE (mapE (\<lambda>node. nodeDataProp node ''service'') (nodes architecture)) (\<lambda>serviceTypes.
        bindE (someE (\<lambda>s. includesText s ''Lambda'') serviceTypes) (\<lambda>hasLambda.
        bindE (someE (includesEither ''DynamoDB'' ''RDS'') serviceTypes) (\<lambda>hasDatabase.
        bindE (someE (includesEither ''CloudFront'' ''API Gateway'') serviceTypes) (\<lambda>hasApi.
        Inr ((if \<not> hasLambda then [''Add a Lambda function to handle API requests''] else [])
             @ (if \<not> hasDatabase then [''Add a database to store application data''] else [])
             @ (if \<not> hasApi then [''Add an API Gateway to manage API endpoints''] else []))))))
      else Inr [])"

text \<open>
  \<^verbatim>\<open>shuffleArray\<close>: the loop runs \<open>i\<close> from the last index down to 1 and swaps the
  elements at \<open>i\<close> and at \<open>j = floor(random * (i + 1))\<close>; \<open>random k\<close> is what the call
  number \<open>k\<close> of \<^verbatim>\<open>Math.random()\<close> gives, a number from 0 up to but not including 1, so
  that \<open>j\<close> is at most \<open>i\<close>.
\<close>

fun shuffleFrom :: "(nat \<Rightarrow> rat) \<Rightarrow> nat \<Rightarrow> nat \<Rightarrow> 'a list \<Rightarrow> 'a list" where
  "shuffleFrom random k 0 newArray = newArray"
| "shuffleFrom random k (Suc i) newArray =
     (let j = nat \<lfloor>random k * (of_nat (Suc i) + 1)\<rfloor>
      in shuffleFrom random (Suc k) i (newArray[Suc i := newArray ! j, j := newArray ! Suc i]))"

definition shuffleArray :: "(nat \<Rightarrow> rat) \<Rightarrow> 'a list \<Rightarrow> 'a list" where
  "shuffleArray random array = shuffleFrom random 0 (length array - 1) array"

definition generateFollowupSuggestions ::
  "(nat \<Rightarrow> rat) \<Rightarrow> EnhancedIntentMatch \<Rightarrow> Architecture \<Rightarrow> jsTypeError + string list" where
  "generateFollowupSuggestions random intent architecture =
     bindE (architectureSuggestions architecture) (\<lambda>added.
     Inr (take 3 (shuffleArray random (intentSuggestions (intentType intent) @ added))))"

subsection \<open>\<^verbatim>\<open>orchestrateJarvisRequest\<close>\<close>

text \<open>
  The response with its metadata; the metrics, which are differences of clock readings,
  are left out.
\<close>

record ResponseMetadata =
  metaIntent :: Intent
  subIntent :: "string option"
  metaConfidence :: rat
  suggestedFollowups :: "string list option"

record EnhancedResponse =
  jarvisResult :: JarvisResult
  responseMetadata :: ResponseMetadata

definition fallbackResponse :: EnhancedResponse where
  "fallbackResponse =
     \<lparr>jarvisResult =
        \<lparr>response = ''I'm sorry, I encountered an error while processing your request. Please try again or rephrase your question.'',
         architectureUpdated = False, updatedArchitecture = None\<rparr>,
      responseMetadata =
        \<lparr>metaIntent = General_chat, subIntent = None, metaConfidence = 0,
         suggestedFollowups = None\<rparr>\<rparr>"

text \<open>
  The handler and the session store after it. It looks the session up, which creates it
  where there is none; records the detected intent with \<^verbatim>\<open>updateSession\<close>; runs the
  request; and adds the suggestions. A TypeError on the way (from \<^verbatim>\<open>updateSession\<close>, or
  from the suggestions after the request has run) is caught and answered with the
  fallback response. The parameters are the call of the model, the environment variable,
  the random numbers, the store, and the clock readings of the session operations.
\<close>

definition orchestrateJarvisRequest ::
  "(CohereChatOptions \<Rightarrow> 'e + string) \<Rightarrow> string option \<Rightarrow> (nat \<Rightarrow> rat) \<Rightarrow> SessionStore
     \<Rightarrow> string \<Rightarrow> string \<Rightarrow> Architecture \<Rightarrow> nat \<Rightarrow> nat \<Rightarrow> nat
     \<Rightarrow> EnhancedResponse \<times> SessionStore" where
  "orchestrateJarvisRequest generate envModel random activeSessions message architectureId
       architecture tNew tIntent tLast =
     (case getOrCreateSession activeSessions architectureId tNew of
        (session, store1) \<Rightarrow>
          let intent = detectEnhancedIntent message True
          in
          (case updateSession store1 architectureId
                  \<lparr>updMessages = None, updIntent = Some (intentType intent)\<rparr> tNew tIntent tLast of
             (Inl error, store2) \<Rightarrow> (fallbackResponse, store2)
           | (Inr done, store2) \<Rightarrow>
               let result = processJarvisRequest generate envModel message architecture
               in
               (case generateFollowupSuggestions random intent architecture of
                  Inl error \<Rightarrow> (fallbackResponse, store2)
                | Inr suggestions \<Rightarrow>
                    (\<lparr>jarvisResult = result,
                      responseMetadata =
                        \<lparr>metaIntent = intentType intent, subIntent = subType intent,
                         metaConfidence = confidence intent,
                         suggestedFollowups = Some suggestions\<rparr>\<rparr>,
                     store2))))"

text \<open>
  Two requests with the same message for the same id, one after the other; the model says
  hello.
\<close>

definition helloModel :: "CohereChatOptions \<Rightarrow> unit + string" where
  "helloModel request = Inr '' hello ''"

definition afterFirst :: SessionStore where
  "afterFirst =
     snd (orchestrateJarvisRequest helloModel None (\<lambda>k. 0) noSessions ''hi'' ''a1''
            exampleArchitecture 1 2 3)"

definition afterSecond :: SessionStore where
  "afterSecond =
     snd (orchestrateJarvisRequest helloModel None (\<lambda>k. 0) afterFirst ''hi'' ''a1''
            exampleArchitecture 4 5 6)"

section \<open>Properties of intent detection\<close>

lemma ruleFires_iff:
  "ruleFires r message ctx \<longleftrightarrow>
     \<not> (requiresContext r = Some True \<and> \<not> ctx) \<and> patternMatched r message \<and> keywordMatched r message"
  by (auto simp: ruleFires_def ruleConsidered_def ruleMatches_def patternMatched_def
      keywordMatched_def list_ex_iff list_all_iff split: option.splits)

lemma collectMatches_filter:
  "collectMatches rules message ctx acc =
     acc @ map (\<lambda>r. \<lparr>mintent = rintent r, mweight = rweight r\<rparr>)
             (filter (\<lambda>r. ruleFires r message ctx) rules)"
  by (induction rules arbitrary: acc) (auto simp: ruleFires_iff)

text \<open>
  The head of a stable sort: the first element of the least key, so that everything before
  it in the input has a strictly greater key.
\<close>

lemma sort_key_first_least:
  fixes f :: "'a \<Rightarrow> int"
  shows "xs \<noteq> [] \<Longrightarrow> \<exists>pre e post tl. xs = pre @ e # post \<and> sort_key f xs = e # tl \<and>
     (\<forall>y \<in> set pre. f e < f y) \<and> (\<forall>y \<in> set post. f e \<le> f y)"
proof (induction xs)
  case Nil
  then show ?case by simp
next
  case (Cons x xs)
  show ?case
  proof (cases "xs = []")
    case True
    then show ?thesis
      by (intro exI[of _ "[]"] exI[of _ x]) simp
  next
    case False
    with Cons.IH obtain pre e post tl where
      d: "xs = pre @ e # post" "sort_key f xs = e # tl"
         "\<forall>y \<in> set pre. f e < f y" "\<forall>y \<in> set post. f e \<le> f y"
      by blast
    show ?thesis
    proof (cases "f x \<le> f e")
      case True
      have "sort_key f (x # xs) = x # e # tl" using d(2) True by simp
      moreover have "\<forall>y \<in> set xs. f x \<le> f y" using d True by fastforce
      ultimately show ?thesis
        by (intro exI[of _ "[]"] exI[of _ x] exI[of _ xs] exI[of _ "e # tl"]) simp
    next
      case False
      have "sort_key f (x # xs) = e # insort_key f x tl" using d(2) False by simp
      moreover have "x # xs = (x # pre) @ e # post" using d(1) by simp
      moreover have "\<forall>y \<in> set (x # pre). f e < f y" using d(3) False by auto
      ultimately show ?thesis using d(4) by blast
    qed
  qed
qed

lemma filter_eq_append_ConsD:
  "filter P xs = pre @ r # post \<Longrightarrow>
     \<exists>us vs. xs = us @ r # vs \<and> filter P us = pre \<and> filter P vs = post \<and> P r"
proof (induction pre arbitrary: xs)
  case Nil
  then obtain us vs where "xs = us @ r # vs" "\<forall>u \<in> set us. \<not> P u" "P r" "post = filter P vs"
    by (auto simp: filter_eq_Cons_iff)
  then show ?case by (intro exI[of _ us] exI[of _ vs]) (simp add: filter_empty_conv)
next
  case (Cons a pre)
  then obtain us vs where
    a: "xs = us @ a # vs" "\<forall>u \<in> set us. \<not> P u" "P a" "pre @ r # post = filter P vs"
    by (auto simp: filter_eq_Cons_iff)
  from Cons.IH[OF a(4)[symmetric]] obtain us' vs' where
    b: "vs = us' @ r # vs'" "filter P us' = pre" "filter P vs' = post" "P r"
    by blast
  show ?case
    using a b by (intro exI[of _ "us @ a # us'"] exI[of _ vs']) (simp add: filter_empty_conv)
qed

text \<open>The selection, for any list of rules in place of \<open>intentRules\<close>.\<close>

lemma select_none:
  assumes "\<not> (\<exists>r \<in> set rules. ruleFires r message ctx)"
  shows "(case sortMatches (collectMatches rules message ctx []) of
            [] \<Rightarrow> General_chat | m # _ \<Rightarrow> mintent m) = General_chat"
proof -
  from assms have "filter (\<lambda>r. ruleFires r message ctx) rules = []"
    by (simp add: filter_empty_conv)
  then show ?thesis by (simp add: collectMatches_filter sortMatches_def)
qed

lemma select_some:
  assumes "\<exists>r \<in> set rules. ruleFires r message ctx"
  shows "\<exists>pre r post. rules = pre @ r # post \<and> ruleFires r message ctx \<and>
           (case sortMatches (collectMatches rules message ctx []) of
              [] \<Rightarrow> General_chat | m # _ \<Rightarrow> mintent m) = rintent r \<and>
           (\<forall>q \<in> set pre. ruleFires q message ctx \<longrightarrow> rweight q < rweight r) \<and>
           (\<forall>q \<in> set post. ruleFires q message ctx \<longrightarrow> rweight q \<le> rweight r)"
proof -
  let ?P = "\<lambda>r. ruleFires r message ctx"
  let ?mk = "\<lambda>r. \<lparr>mintent = rintent r, mweight = rweight r\<rparr>"
  let ?fs = "filter ?P rules"
  let ?k = "\<lambda>m. - mweight m"
  from assms have ne: "map ?mk ?fs \<noteq> []" by (auto simp: filter_empty_conv)
  from sort_key_first_least[OF ne, of ?k] obtain pre e post tl where
    d: "map ?mk ?fs = pre @ e # post" "sort_key ?k (map ?mk ?fs) = e # tl"
       "\<forall>y \<in> set pre. ?k e < ?k y" "\<forall>y \<in> set post. ?k e \<le> ?k y"
    by blast
  from d(1) obtain fpre r fpost where
    f: "?fs = fpre @ r # fpost" "pre = map ?mk fpre" "e = ?mk r" "post = map ?mk fpost"
    by (auto simp: map_eq_append_conv map_eq_Cons_conv)
  from filter_eq_append_ConsD[OF f(1)] obtain us vs where
    u: "rules = us @ r # vs" "filter ?P us = fpre" "filter ?P vs = fpost" "?P r"
    by blast
  have 2: "(case sortMatches (collectMatches rules message ctx []) of
              [] \<Rightarrow> General_chat | m # _ \<Rightarrow> mintent m) = rintent r"
    using d(2) f(3) by (simp add: collectMatches_filter sortMatches_def)
  have 3: "\<forall>q \<in> set us. ?P q \<longrightarrow> rweight q < rweight r"
  proof (intro ballI impI)
    fix q assume q: "q \<in> set us" "?P q"
    then have "q \<in> set (filter ?P us)" by auto
    then have "?mk q \<in> set pre" using u(2) f(2) by auto
    with d(3) f(3) show "rweight q < rweight r" by auto
  qed
  have 4: "\<forall>q \<in> set vs. ?P q \<longrightarrow> rweight q \<le> rweight r"
  proof (intro ballI impI)
    fix q assume q: "q \<in> set vs" "?P q"
    then have "q \<in> set (filter ?P vs)" by auto
    then have "?mk q \<in> set post" using u(3) f(4) by auto
    with d(4) f(3) show "rweight q \<le> rweight r" by auto
  qed
  from u(1) u(4) 2 3 4 show ?thesis by blast
qed

text \<open>
  C1. \<^verbatim>\<open>inferIntent\<close> returns the intent of the rule of greatest weight among the rules
  that fire (a rule fires when it is not skipped for want of context, one of its patterns
  matches the message and, if it has keyword sets, one of them has all its keywords in the
  lower-cased message): the rule list splits around the chosen rule so that every rule
  before it that fires has a strictly smaller weight and every rule after it that fires has
  a weight at most as great, so that a tie goes to the earlier rule. When no rule fires the
  result is \<^verbatim>\<open>general_chat\<close>.
\<close>

theorem inferIntent_greatest_weight:
  "(if \<exists>r \<in> set intentRules. ruleFires r message ctx
    then \<exists>pre r post. intentRules = pre @ r # post \<and> ruleFires r message ctx \<and>
           inferIntent message ctx = rintent r \<and>
           (\<forall>q \<in> set pre. ruleFires q message ctx \<longrightarrow> rweight q < rweight r) \<and>
           (\<forall>q \<in> set post. ruleFires q message ctx \<longrightarrow> rweight q \<le> rweight r)
    else inferIntent message ctx = General_chat)"
  using select_some[of intentRules message ctx] select_none[of intentRules message ctx]
  by (simp add: inferIntent_def)

lemma generalChatRule_fires_hi: "ruleFires generalChatRule ''hi'' False"
  unfolding ruleFires_iff by code_simp

theorem inferIntent_greatest_weight_witness:
  "(\<exists>r \<in> set intentRules. ruleFires r ''hi'' False) \<and>
   (\<exists>pre r post. intentRules = pre @ r # post \<and> ruleFires r ''hi'' False \<and>
      inferIntent ''hi'' False = rintent r \<and>
      (\<forall>q \<in> set pre. ruleFires q ''hi'' False \<longrightarrow> rweight q < rweight r) \<and>
      (\<forall>q \<in> set post. ruleFires q ''hi'' False \<longrightarrow> rweight q \<le> rweight r))"
proof -
  have f: "\<exists>r \<in> set intentRules. ruleFires r ''hi'' False"
    using generalChatRule_fires_hi by (auto simp: intentRules_def)
  with inferIntent_greatest_weight[of "''hi''" False] show ?thesis by simp
qed

text \<open>The model runs: a greeting, an update request with and without context, and a tie.\<close>

lemma inferIntent_hi: "inferIntent ''hi'' False = Greeting"
  by code_simp

lemma inferIntent_empty: "inferIntent [] True = General_chat"
  by code_simp

lemma inferIntent_update_with_context:
  "inferIntent ''update the architecture'' True = Architecture_update"
  by code_simp

lemma inferIntent_update_without_context:
  "inferIntent ''update the architecture'' False = General_chat"
  by code_simp

lemma intentRules_context_free:
  "r \<in> set intentRules \<Longrightarrow> requiresContext r \<noteq> Some True \<Longrightarrow>
     rintent r \<notin> {Architecture_update, Architecture_rationale, Cdk_generation, Architecture_explanation}"
  by (auto simp: intentRules_def greetingRule_def architectureUpdateRule_def
      architectureRationaleRule_def cdkGenerationRule_def codeGenerationRule_def
      codeExplanationRule_def architectureExplanationRule_def systemDesignRule_def
      comparisonRule_def questionRule_def generalChatRule_def)

lemma inferIntent_no_context:
  "inferIntent message False \<notin>
     {Architecture_update, Architecture_rationale, Cdk_generation, Architecture_explanation}"
proof (cases "\<exists>r \<in> set intentRules. ruleFires r message False")
  case True
  from select_some[OF True] obtain pre r post where
    r: "intentRules = pre @ r # post" "ruleFires r message False"
       "inferIntent message False = rintent r"
    by (auto simp: inferIntent_def)
  from r(1) have "r \<in> set intentRules" by (metis in_set_conv_decomp)
  moreover from r(2) have "requiresContext r \<noteq> Some True"
    by (simp add: ruleFires_def ruleConsidered_def)
  ultimately show ?thesis using intentRules_context_free r(3) by simp
next
  case False
  from select_none[OF False] show ?thesis by (simp add: inferIntent_def)
qed

lemma extractSubType_intentType:
  "intentType (extractSubType ais message e) = intentType e"
  by (induction ais) (auto split: option.splits)

lemma adjustIntentConfidence_intentType:
  "intentType (adjustIntentConfidence e message) = intentType e"
  by (simp add: adjustIntentConfidence_def Let_def)

lemma detectEnhancedIntent_intentType:
  "intentType (detectEnhancedIntent message hasArchitecture) = inferIntent message hasArchitecture"
  by (simp add: detectEnhancedIntent_def Let_def adjustIntentConfidence_intentType
      extractSubType_intentType)

text \<open>
  C9. Without architecture context, \<^verbatim>\<open>inferIntent\<close> never returns
  \<^verbatim>\<open>architecture_update\<close>, \<^verbatim>\<open>architecture_rationale\<close>, \<^verbatim>\<open>cdk_generation\<close> or
  \<^verbatim>\<open>architecture_explanation\<close>, since every rule for these intents requires context; and
  so neither does \<^verbatim>\<open>detectEnhancedIntent(message, false).intentType\<close>.
\<close>

theorem no_context_intents:
  "inferIntent message False \<notin>
     {Architecture_update, Architecture_rationale, Cdk_generation, Architecture_explanation} \<and>
   intentType (detectEnhancedIntent message False) \<notin>
     {Architecture_update, Architecture_rationale, Cdk_generation, Architecture_explanation}"
  using inferIntent_no_context[of message] by (simp add: detectEnhancedIntent_intentType)

theorem no_context_intents_witness:
  "inferIntent ''update the architecture'' False \<notin>
     {Architecture_update, Architecture_rationale, Cdk_generation, Architecture_explanation} \<and>
   intentType (detectEnhancedIntent ''update the architecture'' False) \<notin>
     {Architecture_update, Architecture_rationale, Cdk_generation, Architecture_explanation}"
  by (rule no_context_intents)

section \<open>Properties of the retry loop\<close>

lemma delaySeq_shift:
  "delaySeq (min (d * f) m) f m i = delaySeq d f m (Suc i)"
  by (induction i) simp_all

lemma delaySeq_capped: "0 < i \<Longrightarrow> delaySeq d f m i \<le> m"
  by (cases i) simp_all

lemma delaySeq_capped_all: "d \<le> m \<Longrightarrow> delaySeq d f m i \<le> m"
  by (cases i) simp_all

lemma retryLoop_stop:
  "\<not> of_nat attempt \<le> maxR \<Longrightarrow>
   retryLoop operation random maxR maxDelay factor jitterF codes attempt delayMs lastError ws
     = \<lparr>outcome = Threw lastError, invocations = attempt, waits = ws\<rparr>"
  by (simp add: retryLoop.simps)

lemma retryLoop_ok:
  "of_nat attempt \<le> maxR \<Longrightarrow> operation attempt = Inr v \<Longrightarrow>
   retryLoop operation random maxR maxDelay factor jitterF codes attempt delayMs lastError ws
     = \<lparr>outcome = Returned v, invocations = attempt + 1, waits = ws\<rparr>"
  by (simp add: retryLoop.simps)

lemma retryLoop_fail:
  "of_nat attempt \<le> maxR \<Longrightarrow> operation attempt = Inl e \<Longrightarrow>
   \<not> shouldRetry e codes \<or> of_nat attempt = maxR \<Longrightarrow>
   retryLoop operation random maxR maxDelay factor jitterF codes attempt delayMs lastError ws
     = \<lparr>outcome = Threw (Some e), invocations = attempt + 1, waits = ws\<rparr>"
  by (subst retryLoop.simps) auto

lemma retryLoop_again:
  "of_nat attempt \<le> maxR \<Longrightarrow> operation attempt = Inl e \<Longrightarrow>
   shouldRetry e codes \<Longrightarrow> of_nat attempt \<noteq> maxR \<Longrightarrow>
   retryLoop operation random maxR maxDelay factor jitterF codes attempt delayMs lastError ws
     = retryLoop operation random maxR maxDelay factor jitterF codes
         (attempt + 1) (min (delayMs * factor) maxDelay) (Some e)
         (ws @ [(delayMs, random attempt * jitterF * delayMs)])"
  by (subst retryLoop.simps) auto

lemma retryLoop_split:
  obtains (stop) "\<not> of_nat attempt \<le> (maxR :: rat)"
  | (ok) v where "of_nat attempt \<le> maxR" "operation attempt = Inr v"
  | (fail) e where "of_nat attempt \<le> maxR" "operation attempt = Inl e"
       "\<not> shouldRetry e codes \<or> of_nat attempt = maxR"
  | (again) e where "of_nat attempt \<le> maxR" "operation attempt = Inl e"
       "shouldRetry e codes" "of_nat attempt \<noteq> maxR"
  by (cases "operation attempt") auto

lemma attempt_bound: "of_nat attempt \<le> (maxR :: rat) \<Longrightarrow> attempt + 1 \<le> nat (\<lfloor>maxR\<rfloor> + 1)"
  using le_floor_iff[of "int attempt" maxR] by simp

lemma retryLoop_invocations:
  "attempt \<le> invocations (retryLoop operation random maxR maxDelay factor jitterF codes attempt delayMs lastError ws)
   \<and> invocations (retryLoop operation random maxR maxDelay factor jitterF codes attempt delayMs lastError ws)
       \<le> max attempt (nat (\<lfloor>maxR\<rfloor> + 1))"
proof (induction operation random maxR maxDelay factor jitterF codes attempt delayMs lastError ws
       rule: retryLoop.induct)
  case (1 operation random maxR maxDelay factor jitterF codes attempt delayMs lastError ws)
  show ?case
  proof (cases rule: retryLoop_split[where attempt = attempt and maxR = maxR and operation = operation and codes = codes])
    case stop
    then show ?thesis by (simp add: retryLoop_stop)
  next
    case (ok v)
    then show ?thesis using attempt_bound[OF ok(1)] by (simp add: retryLoop_ok)
  next
    case (fail e)
    then show ?thesis using attempt_bound[OF fail(1)] by (simp add: retryLoop_fail)
  next
    case (again e)
    from 1[OF again(1,2)] again(3,4) attempt_bound[OF again(1)]
    show ?thesis unfolding retryLoop_again[of attempt maxR operation e codes, OF again] by simp
  qed
qed

lemma retryLoop_retries_only:
  "attempt \<le> j \<Longrightarrow>
   j + 1 < invocations (retryLoop operation random maxR maxDelay factor jitterF codes attempt delayMs lastError ws) \<Longrightarrow>
   \<exists>e. operation j = Inl e \<and> shouldRetry e codes"
proof (induction operation random maxR maxDelay factor jitterF codes attempt delayMs lastError ws
       rule: retryLoop.induct)
  case (1 operation random maxR maxDelay factor jitterF codes attempt delayMs lastError ws)
  show ?case
  proof (cases rule: retryLoop_split[where attempt = attempt and maxR = maxR and operation = operation and codes = codes])
    case stop
    with "1.prems" show ?thesis by (simp add: retryLoop_stop)
  next
    case (ok v)
    with "1.prems" show ?thesis by (simp add: retryLoop_ok)
  next
    case (fail e)
    with "1.prems" show ?thesis by (simp add: retryLoop_fail)
  next
    case (again e)
    show ?thesis
    proof (cases "j = attempt")
      case True
      with again show ?thesis by simp
    next
      case False
      with "1.prems"(1) have "attempt + 1 \<le> j" by simp
      moreover from "1.prems"(2) have
        "j + 1 < invocations (retryLoop operation random maxR maxDelay factor jitterF codes
           (attempt + 1) (min (delayMs * factor) maxDelay) (Some e)
           (ws @ [(delayMs, random attempt * jitterF * delayMs)]))"
        unfolding retryLoop_again[of attempt maxR operation e codes, OF again] .
      ultimately show ?thesis using "1.IH"[OF again(1,2)] again(3,4) by simp
    qed
  qed
qed

lemma retryLoop_returned:
  "outcome (retryLoop operation random maxR maxDelay factor jitterF codes attempt delayMs lastError ws) = Returned v \<Longrightarrow>
   attempt < invocations (retryLoop operation random maxR maxDelay factor jitterF codes attempt delayMs lastError ws)
   \<and> operation (invocations (retryLoop operation random maxR maxDelay factor jitterF codes attempt delayMs lastError ws) - 1) = Inr v"
proof (induction operation random maxR maxDelay factor jitterF codes attempt delayMs lastError ws
       rule: retryLoop.induct)
  case (1 operation random maxR maxDelay factor jitterF codes attempt delayMs lastError ws)
  show ?case
  proof (cases rule: retryLoop_split[where attempt = attempt and maxR = maxR and operation = operation and codes = codes])
    case stop
    with "1.prems" show ?thesis by (simp add: retryLoop_stop)
  next
    case (ok w)
    with "1.prems" show ?thesis by (simp add: retryLoop_ok)
  next
    case (fail e)
    with "1.prems" show ?thesis by (simp add: retryLoop_fail)
  next
    case (again e)
    from "1.prems" "1.IH"[OF again(1,2)] again(3,4)
    show ?thesis unfolding retryLoop_again[of attempt maxR operation e codes, OF again] by fastforce
  qed
qed

lemma retryLoop_threw:
  "outcome (retryLoop operation random maxR maxDelay factor jitterF codes attempt delayMs lastError ws) = Threw x \<Longrightarrow>
   (attempt < invocations (retryLoop operation random maxR maxDelay factor jitterF codes attempt delayMs lastError ws)
    \<and> (\<exists>e. x = Some e
          \<and> operation (invocations (retryLoop operation random maxR maxDelay factor jitterF codes attempt delayMs lastError ws) - 1) = Inl e
          \<and> (\<not> shouldRetry e codes
               \<or> maxR < of_nat (invocations (retryLoop operation random maxR maxDelay factor jitterF codes attempt delayMs lastError ws)))))
   \<or> (invocations (retryLoop operation random maxR maxDelay factor jitterF codes attempt delayMs lastError ws) = attempt
       \<and> x = lastError \<and> maxR < of_nat attempt)"
proof (induction operation random maxR maxDelay factor jitterF codes attempt delayMs lastError ws
       rule: retryLoop.induct)
  case (1 operation random maxR maxDelay factor jitterF codes attempt delayMs lastError ws)
  show ?case
  proof (cases rule: retryLoop_split[where attempt = attempt and maxR = maxR and operation = operation and codes = codes])
    case stop
    with "1.prems" show ?thesis by (simp add: retryLoop_stop)
  next
    case (ok w)
    with "1.prems" show ?thesis by (simp add: retryLoop_ok)
  next
    case (fail e)
    with "1.prems" show ?thesis by (auto simp add: retryLoop_fail)
  next
    case (again e)
    let ?r = "retryLoop operation random maxR maxDelay factor jitterF codes
           (attempt + 1) (min (delayMs * factor) maxDelay) (Some e)
           (ws @ [(delayMs, random attempt * jitterF * delayMs)])"
    from "1.prems" have "outcome ?r = Threw x" unfolding retryLoop_again[of attempt maxR operation e codes, OF again] .
    with "1.IH"[OF again(1,2)] again(3,4) have
      "(attempt + 1 < invocations ?r \<and> (\<exists>e'. x = Some e' \<and> operation (invocations ?r - 1) = Inl e'
          \<and> (\<not> shouldRetry e' codes \<or> maxR < of_nat (invocations ?r))))
       \<or> (invocations ?r = attempt + 1 \<and> x = Some e \<and> maxR < of_nat (attempt + 1))"
      by simp
    then show ?thesis unfolding retryLoop_again[of attempt maxR operation e codes, OF again] using again(2) by auto
  qed
qed

lemma retryLoop_waits:
  "\<exists>extra. waits (retryLoop operation random maxR maxDelay factor jitterF codes attempt delayMs lastError ws) = ws @ extra
     \<and> length extra \<le> invocations (retryLoop operation random maxR maxDelay factor jitterF codes attempt delayMs lastError ws) - attempt
     \<and> invocations (retryLoop operation random maxR maxDelay factor jitterF codes attempt delayMs lastError ws) - attempt \<le> length extra + 1
     \<and> (\<forall>i < length extra. extra ! i =
           (delaySeq delayMs factor maxDelay i, random (attempt + i) * jitterF * delaySeq delayMs factor maxDelay i))"
proof (induction operation random maxR maxDelay factor jitterF codes attempt delayMs lastError ws
       rule: retryLoop.induct)
  case (1 operation random maxR maxDelay factor jitterF codes attempt delayMs lastError ws)
  show ?case
  proof (cases rule: retryLoop_split[where attempt = attempt and maxR = maxR and operation = operation and codes = codes])
    case stop
    then show ?thesis by (simp add: retryLoop_stop)
  next
    case (ok w)
    then show ?thesis by (simp add: retryLoop_ok)
  next
    case (fail e)
    then show ?thesis by (simp add: retryLoop_fail)
  next
    case (again e)
    let ?d = "min (delayMs * factor) maxDelay"
    let ?r = "retryLoop operation random maxR maxDelay factor jitterF codes
           (attempt + 1) ?d (Some e) (ws @ [(delayMs, random attempt * jitterF * delayMs)])"
    from "1.IH"[OF again(1,2)] again(3,4) obtain extra where
      e: "waits ?r = (ws @ [(delayMs, random attempt * jitterF * delayMs)]) @ extra"
         "length extra \<le> invocations ?r - (attempt + 1)"
         "invocations ?r - (attempt + 1) \<le> length extra + 1"
         "\<forall>i < length extra. extra ! i =
            (delaySeq ?d factor maxDelay i, random (attempt + 1 + i) * jitterF * delaySeq ?d factor maxDelay i)"
      by auto
    have inv: "attempt + 1 \<le> invocations ?r" using retryLoop_invocations by blast
    let ?extra = "(delayMs, random attempt * jitterF * delayMs) # extra"
    have a: "waits ?r = ws @ ?extra" using e(1) by simp
    have b: "length ?extra \<le> invocations ?r - attempt" using e(2) inv by simp
    have c: "invocations ?r - attempt \<le> length ?extra + 1" using e(3) inv by simp
    have d: "\<forall>i < length ?extra. ?extra ! i =
           (delaySeq delayMs factor maxDelay i, random (attempt + i) * jitterF * delaySeq delayMs factor maxDelay i)"
    proof (intro allI impI)
      fix i assume "i < length ?extra"
      then show "?extra ! i =
           (delaySeq delayMs factor maxDelay i, random (attempt + i) * jitterF * delaySeq delayMs factor maxDelay i)"
        using e(4) by (cases i) (simp_all add: delaySeq_shift)
    qed
    show ?thesis unfolding retryLoop_again[of attempt maxR operation e codes, OF again] using a b c d by blast
  qed
qed

lemma retryLoop_reaches:
  "attempt \<le> k \<Longrightarrow> of_nat k \<le> maxR \<Longrightarrow>
   (\<forall>j. attempt \<le> j \<and> j < k \<longrightarrow> (\<exists>e. operation j = Inl e \<and> shouldRetry e codes)) \<Longrightarrow>
   \<exists>d l w. retryLoop operation random maxR maxDelay factor jitterF codes attempt delayMs lastError ws
         = retryLoop operation random maxR maxDelay factor jitterF codes k d l w"
proof (induction operation random maxR maxDelay factor jitterF codes attempt delayMs lastError ws
       rule: retryLoop.induct)
  case (1 operation random maxR maxDelay factor jitterF codes attempt delayMs lastError ws)
  show ?case
  proof (cases "attempt = k")
    case True
    then show ?thesis by blast
  next
    case False
    with "1.prems"(1) have lt: "attempt < k" by simp
    with "1.prems"(3) obtain e where e: "operation attempt = Inl e" "shouldRetry e codes" by blast
    from lt "1.prems"(2) have le: "of_nat attempt \<le> maxR" and ne: "of_nat attempt \<noteq> maxR"
      by (auto simp: less_le_trans dest: of_nat_less_iff[where 'a = rat, THEN iffD2])
    from lt have "attempt + 1 \<le> k" by simp
    moreover have "\<forall>j. attempt + 1 \<le> j \<and> j < k \<longrightarrow> (\<exists>e. operation j = Inl e \<and> shouldRetry e codes)"
      using "1.prems"(3) by simp
    ultimately show ?thesis
      using "1.IH"[OF le e(1)] e(2) ne "1.prems"(2) unfolding retryLoop_again[of attempt maxR operation e codes, OF le e ne] by simp
  qed
qed

lemma retryLoop_first_success:
  assumes "of_nat k \<le> maxR" "operation k = Inr v"
    and "\<forall>j < k. failsRetryably operation codes j"
  shows "retryLoop operation random maxR maxDelay factor jitterF codes 0 delayMs lastError ws
           = \<lparr>outcome = Returned v, invocations = k + 1,
               waits = waits (retryLoop operation random maxR maxDelay factor jitterF codes 0
                               delayMs lastError ws)\<rparr>"
proof -
  from assms(3) have "\<forall>j. 0 \<le> j \<and> j < k \<longrightarrow> (\<exists>e. operation j = Inl e \<and> shouldRetry e codes)"
    by (simp add: failsRetryably_def)
  from retryLoop_reaches[OF _ assms(1) this, of random maxDelay factor jitterF delayMs lastError ws]
  obtain d l w where
    "retryLoop operation random maxR maxDelay factor jitterF codes 0 delayMs lastError ws
       = retryLoop operation random maxR maxDelay factor jitterF codes k d l w"
    by auto
  then show ?thesis by (simp add: retryLoop_ok[of k maxR operation v, OF assms(1,2)])
qed

lemma retryLoop_last_failure:
  assumes "of_nat k \<le> maxR" "operation k = Inl e"
    and "\<not> shouldRetry e codes \<or> maxR < of_nat (k + 1)"
    and "\<forall>j < k. failsRetryably operation codes j"
  shows "outcome (retryLoop operation random maxR maxDelay factor jitterF codes 0 delayMs lastError ws)
           = Threw (Some e)
         \<and> invocations (retryLoop operation random maxR maxDelay factor jitterF codes 0 delayMs lastError ws)
           = k + 1"
proof -
  from assms(4) have "\<forall>j. 0 \<le> j \<and> j < k \<longrightarrow> (\<exists>e. operation j = Inl e \<and> shouldRetry e codes)"
    by (simp add: failsRetryably_def)
  from retryLoop_reaches[OF _ assms(1) this, of random maxDelay factor jitterF delayMs lastError ws]
  obtain d l w where r:
    "retryLoop operation random maxR maxDelay factor jitterF codes 0 delayMs lastError ws
       = retryLoop operation random maxR maxDelay factor jitterF codes k d l w"
    by auto
  show ?thesis
  proof (cases "\<not> shouldRetry e codes \<or> of_nat k = maxR")
    case True
    then show ?thesis unfolding r by (simp add: retryLoop_fail[of k maxR operation e, OF assms(1,2)])
  next
    case False
    with assms(3) have s: "shouldRetry e codes" "of_nat k \<noteq> maxR" "\<not> of_nat (k + 1) \<le> maxR"
      by auto
    have "retryLoop operation random maxR maxDelay factor jitterF codes k d l w
            = \<lparr>outcome = Threw (Some e), invocations = k + 1,
                waits = w @ [(d, random k * jitterF * d)]\<rparr>"
      unfolding retryLoop_again[of k maxR operation e codes, OF assms(1,2) s(1,2)]
      by (rule retryLoop_stop[OF s(3)])
    then show ?thesis unfolding r by simp
  qed
qed

text \<open>
  C2, as amended. With \<open>r\<close> the run of \<^verbatim>\<open>withExponentialBackoff\<close>: the operation is
  invoked at most \<open>\<lfloor>maxRetries\<rfloor> + 1\<close> times, 4 by default; every invocation but the last
  threw an error that is retried (a truthy status in the list of codes, by default 429,
  503, 502, 500, or a message with one of the four texts), so a retry happens only then;
  a returned value is that of the last invocation, and the first invocation that succeeds
  within the permitted attempts, all before it failing with retried errors, gives the
  result; an error that is not retried, and the error of the last permitted attempt, is
  thrown to the caller, and whatever is thrown is the error of the last invocation; the
  delay before retry \<open>i\<close> is \<open>delaySeq\<close>, which starts at \<open>initialDelayMs\<close> and goes from
  one retry to the next by multiplying with \<open>backoffFactor\<close> and capping at \<open>maxDelayMs\<close>;
  the jitter is added on top. Every delay after the first is at most \<open>maxDelayMs\<close>, and so
  is the first when \<open>initialDelayMs\<close> is.
\<close>

theorem withExponentialBackoff_run:
  "(let r = withExponentialBackoff operation options random;
        codes = retryStatusCodesOf options;
        maxR = maxRetriesOf options;
        d0 = initialDelayMsOf options;
        f = backoffFactorOf options;
        m = maxDelayMsOf options
    in invocations r \<le> nat (\<lfloor>maxR\<rfloor> + 1)
     \<and> (maxRetries options = None \<longrightarrow> invocations r \<le> 4)
     \<and> (retryStatusCodes options = None \<longrightarrow> codes = [429, 503, 502, 500])
     \<and> (\<forall>j. j + 1 < invocations r \<longrightarrow> failsRetryably operation codes j)
     \<and> (\<forall>v. outcome r = Returned v \<longrightarrow> 0 < invocations r \<and> operation (invocations r - 1) = Inr v)
     \<and> (\<forall>k v. of_nat k \<le> maxR \<and> operation k = Inr v \<and> (\<forall>j < k. failsRetryably operation codes j)
           \<longrightarrow> outcome r = Returned v \<and> invocations r = k + 1)
     \<and> (\<forall>k e. of_nat k \<le> maxR \<and> operation k = Inl e
               \<and> (\<not> shouldRetry e codes \<or> maxR < of_nat (k + 1))
               \<and> (\<forall>j < k. failsRetryably operation codes j)
           \<longrightarrow> outcome r = Threw (Some e) \<and> invocations r = k + 1)
     \<and> (\<forall>e. outcome r = Threw (Some e) \<longrightarrow>
           0 < invocations r \<and> operation (invocations r - 1) = Inl e
           \<and> (\<not> shouldRetry e codes \<or> maxR < of_nat (invocations r)))
     \<and> (outcome r = Threw None \<longrightarrow> invocations r = 0 \<and> maxR < 0)
     \<and> length (waits r) \<le> invocations r \<and> invocations r \<le> length (waits r) + 1
     \<and> (\<forall>i < length (waits r).
           waits r ! i = (delaySeq d0 f m i, random i * jitterFactorOf options * delaySeq d0 f m i))
     \<and> delaySeq d0 f m 0 = d0
     \<and> (\<forall>i. delaySeq d0 f m (Suc i) = min (delaySeq d0 f m i * f) m)
     \<and> (\<forall>i. 0 < i \<longrightarrow> delaySeq d0 f m i \<le> m)
     \<and> (d0 \<le> m \<longrightarrow> (\<forall>w \<in> set (waits r). fst w \<le> m)))"
proof -
  let ?codes = "retryStatusCodesOf options"
  let ?maxR = "maxRetriesOf options"
  let ?d0 = "initialDelayMsOf options"
  let ?f = "backoffFactorOf options"
  let ?m = "maxDelayMsOf options"
  let ?r = "retryLoop operation random ?maxR ?m ?f (jitterFactorOf options) ?codes 0 ?d0 None []"
  have inv: "invocations ?r \<le> nat (\<lfloor>?maxR\<rfloor> + 1)"
    using retryLoop_invocations[of 0 operation random ?maxR] by simp
  have dflt: "maxRetries options = None \<longrightarrow> invocations ?r \<le> 4"
    using inv by (auto simp: maxRetriesOf_def)
  have cds: "retryStatusCodes options = None \<longrightarrow> ?codes = [429, 503, 502, 500]"
    by (simp add: retryStatusCodesOf_def)
  have only: "\<forall>j. j + 1 < invocations ?r \<longrightarrow> failsRetryably operation ?codes j"
    using retryLoop_retries_only[of 0 _ operation random ?maxR]
    by (auto simp: failsRetryably_def)
  have ret: "\<forall>v. outcome ?r = Returned v \<longrightarrow> 0 < invocations ?r \<and> operation (invocations ?r - 1) = Inr v"
    using retryLoop_returned[of operation random ?maxR _ _ _ _ 0] by blast
  have first: "\<forall>k v. of_nat k \<le> ?maxR \<and> operation k = Inr v \<and> (\<forall>j < k. failsRetryably operation ?codes j)
           \<longrightarrow> outcome ?r = Returned v \<and> invocations ?r = k + 1"
  proof (intro allI impI, elim conjE)
    fix k v
    assume a: "of_nat k \<le> ?maxR" "operation k = Inr v" "\<forall>j < k. failsRetryably operation ?codes j"
    from retryLoop_first_success[OF a, of random ?m ?f "jitterFactorOf options" ?d0 None "[]"]
    have "?r = \<lparr>outcome = Returned v, invocations = k + 1, waits = waits ?r\<rparr>" .
    then have "outcome ?r = Returned v" "invocations ?r = k + 1"
      by (metis RetryRun.select_convs(1), metis RetryRun.select_convs(2))
    then show "outcome ?r = Returned v \<and> invocations ?r = k + 1" by simp
  qed
  have last: "\<forall>k e. of_nat k \<le> ?maxR \<and> operation k = Inl e
               \<and> (\<not> shouldRetry e ?codes \<or> ?maxR < of_nat (k + 1))
               \<and> (\<forall>j < k. failsRetryably operation ?codes j)
           \<longrightarrow> outcome ?r = Threw (Some e) \<and> invocations ?r = k + 1"
    using retryLoop_last_failure by blast
  have thr: "\<forall>e. outcome ?r = Threw (Some e) \<longrightarrow>
           0 < invocations ?r \<and> operation (invocations ?r - 1) = Inl e
           \<and> (\<not> shouldRetry e ?codes \<or> ?maxR < of_nat (invocations ?r))"
    using retryLoop_threw[of operation random ?maxR ?m ?f "jitterFactorOf options" ?codes 0 ?d0 None "[]"]
    by auto
  have und: "outcome ?r = Threw None \<longrightarrow> invocations ?r = 0 \<and> ?maxR < 0"
    using retryLoop_threw[of operation random ?maxR ?m ?f "jitterFactorOf options" ?codes 0 ?d0 None "[]" None]
    by auto
  from retryLoop_waits[of operation random ?maxR ?m ?f "jitterFactorOf options" ?codes 0 ?d0 None "[]"]
  have w: "length (waits ?r) \<le> invocations ?r" "invocations ?r \<le> length (waits ?r) + 1"
    "\<forall>i < length (waits ?r).
       waits ?r ! i = (delaySeq ?d0 ?f ?m i, random i * jitterFactorOf options * delaySeq ?d0 ?f ?m i)"
    by auto
  have cap: "\<forall>i. 0 < i \<longrightarrow> delaySeq ?d0 ?f ?m i \<le> ?m"
    using delaySeq_capped by blast
  have capall: "?d0 \<le> ?m \<longrightarrow> (\<forall>w \<in> set (waits ?r). fst w \<le> ?m)"
  proof (intro impI ballI)
    fix x assume d: "?d0 \<le> ?m" and x: "x \<in> set (waits ?r)"
    from x obtain i where "i < length (waits ?r)" "waits ?r ! i = x" by (auto simp: in_set_conv_nth)
    with w(3) have "fst x = delaySeq ?d0 ?f ?m i" by auto
    with delaySeq_capped_all[OF d] show "fst x \<le> ?m" by simp
  qed
  have d0eq: "delaySeq ?d0 ?f ?m 0 = ?d0" by simp
  have dsuc: "\<forall>i. delaySeq ?d0 ?f ?m (Suc i) = min (delaySeq ?d0 ?f ?m i * ?f) ?m" by simp
  show ?thesis
    unfolding Let_def withExponentialBackoff_def
    by (intro conjI) (rule inv dflt cds only ret first last thr und w cap capall d0eq dsuc)+
qed

lemma failsOnce_run:
  "failsOnce 1 = Inr 7 \<and> failsRetryably failsOnce (retryStatusCodesOf defaultOptions) 0
   \<and> (of_nat (1::nat) :: rat) \<le> maxRetriesOf defaultOptions"
  by (simp add: failsOnce_def failsRetryably_def shouldRetry_def retryStatusCodesOf_def
      maxRetriesOf_def defaultOptions_def)

theorem withExponentialBackoff_run_witness:
  "outcome (withExponentialBackoff failsOnce defaultOptions (\<lambda>k. 1 / 2)) = Returned 7
   \<and> invocations (withExponentialBackoff failsOnce defaultOptions (\<lambda>k. 1 / 2)) = 2"
proof -
  have "\<forall>j < (1::nat). failsRetryably failsOnce (retryStatusCodesOf defaultOptions) j"
    using failsOnce_run by simp
  with withExponentialBackoff_run[of failsOnce defaultOptions "\<lambda>k. 1 / 2"] failsOnce_run
  show ?thesis unfolding Let_def by (metis one_add_one)
qed

text \<open>
  The claim as it stands fails where it bounds every delay by \<^verbatim>\<open>maxDelayMs\<close>: with
  \<^verbatim>\<open>initialDelayMs\<close> 20000 and the default \<^verbatim>\<open>maxDelayMs\<close> 10000, the wait before the
  first retry is 20000.
\<close>

theorem delay_bound_counterexample:
  "\<not> (\<forall>(operation :: nat \<Rightarrow> jsError + nat) options random.
        \<forall>w \<in> set (waits (withExponentialBackoff operation options random)).
          fst w \<le> maxDelayMsOf options)"
proof
  assume a: "\<forall>(operation :: nat \<Rightarrow> jsError + nat) options random.
        \<forall>w \<in> set (waits (withExponentialBackoff operation options random)).
          fst w \<le> maxDelayMsOf options"
  let ?o = "defaultOptions\<lparr>initialDelayMs := Some 20000\<rparr>"
  have "waits (withExponentialBackoff failsOnce ?o (\<lambda>k. 0)) = [(20000, 0)]"
    by (simp add: withExponentialBackoff_def retryLoop.simps failsOnce_def shouldRetry_def
        defaultOptions_def maxRetriesOf_def maxDelayMsOf_def backoffFactorOf_def
        jitterFactorOf_def retryStatusCodesOf_def initialDelayMsOf_def)
  moreover have "maxDelayMsOf ?o = 10000"
    by (simp add: maxDelayMsOf_def defaultOptions_def)
  ultimately show False using a[rule_format, of "(20000, 0)" failsOnce ?o "\<lambda>k. 0"] by simp
qed

section \<open>Properties of the architecture store\<close>

lemma map_of_propReplace:
  "key \<in> set (map fst ps) \<Longrightarrow> map_of (propReplace ps key v) key = Some v"
  by (induction ps) (auto simp: rev_image_eqI)

lemma map_of_propInsertIndex:
  "map_of (propInsertIndex ps key v) key = Some v"
  by (induction ps) auto

lemma map_of_propSet_same: "map_of (propSet ps key v) key = Some v"
proof (cases "key \<in> set (map fst ps)")
  case True
  then show ?thesis by (simp add: propSet_def map_of_propReplace)
next
  case False
  then have "map_of ps key = None" by (simp add: map_of_eq_None_iff)
  with False show ?thesis by (simp add: propSet_def map_of_propInsertIndex map_add_def)
qed

lemma map_of_propReplace_other:
  "key' \<noteq> key \<Longrightarrow> map_of (propReplace ps key v) key' = map_of ps key'"
  by (induction ps) auto

lemma map_of_propInsertIndex_other:
  "key' \<noteq> key \<Longrightarrow> map_of (propInsertIndex ps key v) key' = map_of ps key'"
  by (induction ps) auto

lemma map_of_propSet_other:
  "key' \<noteq> key \<Longrightarrow> map_of (propSet ps key v) key' = map_of ps key'"
  by (simp add: propSet_def map_of_propReplace_other map_of_propInsertIndex_other map_add_def
      split: option.splits)

text \<open>
  The part of C4 that holds: right after \<^verbatim>\<open>saveArchitecture(id, a, editedBy)\<close> with a
  non-empty id, \<^verbatim>\<open>getArchitecture(id)\<close> is the saved object, with the nodes and edges of
  \<open>a\<close> and with \<^verbatim>\<open>lastEditedBy\<close> and \<^verbatim>\<open>lastEditedAt\<close> set. (No assignment makes an own
  property \<^verbatim>\<open>__proto__\<close>, so a store never has one.)
\<close>

lemma save_then_get:
  assumes "architectureId \<noteq> []" and "ownArchitectures store ''__proto__'' = None"
  shows "\<exists>a' store' md.
           saveArchitecture store architectureId a editedBy now = Inr (a', store')
           \<and> getArchitecture store' architectureId = Some (StoredArchitecture a')
           \<and> nodes a' = nodes a \<and> edges a' = edges a
           \<and> metadata a' = Some md
           \<and> map_of md ''lastEditedBy''
                = Some (JStr (case editedBy of None \<Rightarrow> ''system'' | Some by \<Rightarrow> by))
           \<and> map_of md ''lastEditedAt'' = Some (JStr now)"
  using assms
  by (simp add: saveArchitecture_def Let_def stampMetadata_def storeAssign_def
      getArchitecture_def storeLookup_def map_of_propSet_same map_of_propSet_other)

lemma get_empty_id: "getArchitecture store [] = None"
  by (simp add: getArchitecture_def)

lemma get_never_saved:
  "architectureId \<noteq> ''__proto__'' \<Longrightarrow> architectureId \<notin> set objectPrototypeMethods \<Longrightarrow>
   getArchitecture emptyStore architectureId = None"
  by (simp add: getArchitecture_def storeLookup_def emptyStore_def)

text \<open>
  C4, where it fails. The store is a plain object, so an id that names a property of
  \<^verbatim>\<open>Object.prototype\<close> is found although nothing was saved under it:
  \<^verbatim>\<open>getArchitecture('constructor')\<close> on the store as it starts is the function
  \<^verbatim>\<open>Object\<close>, not \<^verbatim>\<open>null\<close>.
\<close>

theorem getArchitecture_constructor:
  "getArchitecture emptyStore ''constructor'' = Some (PrototypeMethod ''constructor'')"
  by (simp add: getArchitecture_def storeLookup_def emptyStore_def objectPrototypeMethods_def)

lemma getArchitecture_after_proto_save:
  "\<exists>a' store'. saveArchitecture emptyStore ''__proto__'' \<lparr>nodes = [], edges = [], metadata = None\<rparr>
        None ''t'' = Inr (a', store')
     \<and> getArchitecture store' ''nodes'' = Some (InheritedArray [])"
  by (simp add: saveArchitecture_def Let_def stampMetadata_def storeAssign_def
      getArchitecture_def storeLookup_def emptyStore_def objectPrototypeMethods_def)

section \<open>Properties of the session store\<close>

lemma sliceLast_length: "length (sliceLast n xs) \<le> n"
  by (simp add: sliceLast_def)

lemma sliceLast_short: "length xs \<le> n \<Longrightarrow> sliceLast n xs = xs"
  by (simp add: sliceLast_def)

lemma sliceLast_full: "n \<le> length xs \<Longrightarrow> length (sliceLast n xs) = n"
  by (simp add: sliceLast_def)

lemma sliceLast_suffix: "\<exists>dropped. xs = dropped @ sliceLast n xs"
  by (metis append_take_drop_id sliceLast_def)

lemma applyUpdate_intents:
  "intents (applyUpdate session update tIntent tLast) =
     (case updIntent update of
        None \<Rightarrow> intents session
      | Some i \<Rightarrow> sliceLast 20 (intents session @ [\<lparr>entryIntent = i, entryTimestamp = tIntent\<rparr>]))"
  by (auto simp: applyUpdate_def Let_def sliceLast_short split: option.splits)

lemma applyUpdate_bounded:
  "length (intents session) \<le> 20 \<Longrightarrow> length (intents (applyUpdate session update tIntent tLast)) \<le> 20"
  by (simp add: applyUpdate_intents sliceLast_length split: option.splits)

lemma lookupSession_own: "(lookupSession st k = OwnSession s) = (ownSessions st k = Some s)"
  by (auto simp: lookupSession_def split: option.splits)

lemma getOrCreateSession_creates:
  "\<not> lookupTruthy (lookupSession st k) \<Longrightarrow>
     \<exists>s. getOrCreateSession st k now = (OwnSession s, st\<lparr>ownSessions := (ownSessions st)(k \<mapsto> s)\<rparr>)
       \<and> intents s = [] \<and> ownSessions st k = None"
  by (cases "ownSessions st k") (auto simp: getOrCreateSession_def Let_def lookupSession_def)

lemma getOrCreateSession_finds:
  "ownSessions st k = Some s \<Longrightarrow> getOrCreateSession st k now = (OwnSession s, st)"
  by (simp add: getOrCreateSession_def lookupSession_def)

lemma getOrCreateSession_own:
  "getOrCreateSession st k now = (OwnSession s, st') \<Longrightarrow>
     ownSessions st' k = Some s \<and> (\<forall>k'. k' \<noteq> k \<longrightarrow> ownSessions st' k' = ownSessions st k')
     \<and> (ownSessions st k = None \<longrightarrow> intents s = []) \<and> (\<forall>s0. ownSessions st k = Some s0 \<longrightarrow> s = s0)"
  by (cases "ownSessions st k")
     (auto simp: getOrCreateSession_def Let_def lookupSession_def split: if_splits option.splits)

lemma getOrCreateSession_other:
  "getOrCreateSession st k now = (l, st') \<Longrightarrow> \<forall>s. l \<noteq> OwnSession s \<Longrightarrow>
     st' = st \<and> ownSessions st k = None"
  by (cases "ownSessions st k")
     (auto simp: getOrCreateSession_def Let_def lookupSession_own split: if_splits)

lemma getOrCreateSession_bounded:
  "intentsBounded st \<Longrightarrow> intentsBounded (snd (getOrCreateSession st architectureId now))"
  by (auto simp: intentsBounded_def getOrCreateSession_def Let_def split: if_splits)

lemma updateSession_other:
  assumes "getOrCreateSession st k tNew = (l, st1)" and "\<forall>s. l \<noteq> OwnSession s"
  shows "ownSessions (snd (updateSession st k update tNew tIntent tLast)) = ownSessions st
         \<and> ownSessions st k = None"
proof -
  from getOrCreateSession_other[OF assms] have e: "st1 = st" "ownSessions st k = None" by auto
  from assms(2) e(1) assms(1) have
    "ownSessions (snd (updateSession st k update tNew tIntent tLast)) = ownSessions st"
    by (cases l) (auto simp: updateSession_def updatePrototype_def Let_def split: option.splits)
  with e(2) show ?thesis by simp
qed

lemma updateSession_stores:
  assumes "hasSessionSlot st k"
  shows "\<exists>s. updateSession st k update tNew tIntent tLast
               = (Inr (), st\<lparr>ownSessions := (ownSessions st)(k \<mapsto> s)\<rparr>)
           \<and> intents s =
               (case updIntent update of
                  None \<Rightarrow> historyOf st k
                | Some i \<Rightarrow>
                    sliceLast 20 (historyOf st k @ [\<lparr>entryIntent = i, entryTimestamp = tIntent\<rparr>]))"
proof (cases "ownSessions st k")
  case None
  with assms have "\<not> lookupTruthy (lookupSession st k)" by (simp add: hasSessionSlot_def)
  from getOrCreateSession_creates[OF this, of tNew] obtain s0 where
    g: "getOrCreateSession st k tNew = (OwnSession s0, st\<lparr>ownSessions := (ownSessions st)(k \<mapsto> s0)\<rparr>)"
    and i: "intents s0 = []" by auto
  have "updateSession st k update tNew tIntent tLast
          = (Inr (), st\<lparr>ownSessions := (ownSessions st)(k \<mapsto> applyUpdate s0 update tIntent tLast)\<rparr>)"
    by (simp add: updateSession_def g)
  moreover have "intents (applyUpdate s0 update tIntent tLast) =
               (case updIntent update of
                  None \<Rightarrow> historyOf st k
                | Some i \<Rightarrow>
                    sliceLast 20 (historyOf st k @ [\<lparr>entryIntent = i, entryTimestamp = tIntent\<rparr>]))"
    by (simp add: applyUpdate_intents i historyOf_def None split: option.splits)
  ultimately show ?thesis by blast
next
  case (Some s0)
  have "updateSession st k update tNew tIntent tLast
          = (Inr (), st\<lparr>ownSessions := (ownSessions st)(k \<mapsto> applyUpdate s0 update tIntent tLast)\<rparr>)"
    by (simp add: updateSession_def getOrCreateSession_finds[OF Some])
  moreover have "intents (applyUpdate s0 update tIntent tLast) =
               (case updIntent update of
                  None \<Rightarrow> historyOf st k
                | Some i \<Rightarrow>
                    sliceLast 20 (historyOf st k @ [\<lparr>entryIntent = i, entryTimestamp = tIntent\<rparr>]))"
    by (simp add: applyUpdate_intents historyOf_def Some split: option.splits)
  ultimately show ?thesis by blast
qed

lemma ordinaryKey_slot: "ordinaryKey k \<Longrightarrow> hasSessionSlot st k"
  by (cases "ownSessions st k") (auto simp: ordinaryKey_def hasSessionSlot_def lookupSession_def)

lemma updateSession_without_slot:
  assumes "\<not> hasSessionSlot st k"
  shows "ownSessions (snd (updateSession st k update tNew tIntent tLast)) = ownSessions st"
proof -
  from assms have n: "ownSessions st k = None" and t: "lookupTruthy (lookupSession st k)"
    by (auto simp: hasSessionSlot_def)
  from n have "\<forall>s. lookupSession st k \<noteq> OwnSession s" by (simp add: lookupSession_own)
  moreover from t have "getOrCreateSession st k tNew = (lookupSession st k, st)"
    by (simp add: getOrCreateSession_def)
  ultimately show ?thesis using updateSession_other by blast
qed

lemma updateSession_bounded:
  assumes b: "intentsBounded st"
  shows "intentsBounded (snd (updateSession st k update tNew tIntent tLast))"
proof (cases "hasSessionSlot st k")
  case True
  from updateSession_stores[OF True, of update tNew tIntent tLast] obtain s where
    u: "updateSession st k update tNew tIntent tLast
          = (Inr (), st\<lparr>ownSessions := (ownSessions st)(k \<mapsto> s)\<rparr>)"
    and i: "intents s =
               (case updIntent update of
                  None \<Rightarrow> historyOf st k
                | Some i \<Rightarrow>
                    sliceLast 20 (historyOf st k @ [\<lparr>entryIntent = i, entryTimestamp = tIntent\<rparr>]))"
    by blast
  from b have "length (historyOf st k) \<le> 20"
    by (auto simp: historyOf_def intentsBounded_def split: option.splits)
  with i have "length (intents s) \<le> 20"
    by (simp add: sliceLast_length split: option.splits)
  with b show ?thesis by (simp add: u intentsBounded_def)
next
  case False
  from updateSession_without_slot[OF False] b show ?thesis by (simp add: intentsBounded_def)
qed

lemma clearConversationSession_bounded:
  "intentsBounded st \<Longrightarrow> intentsBounded (snd (clearConversationSession st architectureId))"
  by (auto simp: intentsBounded_def clearConversationSession_def)

lemma reachable_bounded: "reachableSessions st \<Longrightarrow> intentsBounded st"
proof (induction rule: reachableSessions.induct)
  case initial
  show ?case by (simp add: intentsBounded_def noSessions_def)
next
  case (getOrCreate st architectureId now)
  then show ?case by (simp add: getOrCreateSession_bounded)
next
  case (update st sessionId update tNew tIntent tLast)
  then show ?case by (simp add: updateSession_bounded)
next
  case (clear st architectureId)
  then show ?case by (simp add: clearConversationSession_bounded)
qed

lemma greeted_reachable: "reachableSessions (greeted n)"
  by (induction n) (auto intro: reachableSessions.intros)

lemma greeted_slot: "hasSessionSlot (greeted n) ''a1''"
  by (rule ordinaryKey_slot) (simp add: ordinaryKey_def objectPrototypeMethods_def)

lemma greeted_history:
  "historyOf (greeted (Suc n)) ''a1'' =
     sliceLast 20 (historyOf (greeted n) ''a1'' @ [\<lparr>entryIntent = Greeting, entryTimestamp = n\<rparr>])"
proof -
  from updateSession_stores[OF greeted_slot, of n greetingUpdate n n n] obtain s where
    "updateSession (greeted n) ''a1'' greetingUpdate n n n
       = (Inr (), (greeted n)\<lparr>ownSessions := (ownSessions (greeted n))(''a1'' \<mapsto> s)\<rparr>)"
    "intents s = sliceLast 20 (historyOf (greeted n) ''a1''
                   @ [\<lparr>entryIntent = Greeting, entryTimestamp = n\<rparr>])"
    by (auto simp: greetingUpdate_def)
  then show ?thesis by (simp add: historyOf_def)
qed

lemma greeted_timestamps:
  "n \<le> 20 \<Longrightarrow> map entryTimestamp (historyOf (greeted n) ''a1'') = [0 ..< n]"
proof (induction n)
  case 0
  show ?case by (simp add: historyOf_def noSessions_def)
next
  case (Suc n)
  then have "map entryTimestamp (historyOf (greeted n) ''a1'') = [0 ..< n]" by simp
  then have l: "length (historyOf (greeted n) ''a1'') = n" by (metis length_map length_upt minus_nat.diff_0)
  with Suc.prems have "sliceLast 20 (historyOf (greeted n) ''a1'' @ [\<lparr>entryIntent = Greeting, entryTimestamp = n\<rparr>])
          = historyOf (greeted n) ''a1'' @ [\<lparr>entryIntent = Greeting, entryTimestamp = n\<rparr>]"
    by (simp add: sliceLast_short)
  with \<open>map entryTimestamp (historyOf (greeted n) ''a1'') = [0 ..< n]\<close> show ?case
    unfolding greeted_history by simp
qed

text \<open>
  C10. The intent history of a session is bounded. Where \<^verbatim>\<open>getOrCreateSession\<close> finds
  nothing truthy under the id, it stores a new session there, with no intents. Every key
  other than \<^verbatim>\<open>__proto__\<close>, the method names of \<^verbatim>\<open>Object.prototype\<close> and the three field
  names that \<^verbatim>\<open>updateSession\<close> can write on \<^verbatim>\<open>Object.prototype\<close> has a session or gets one
  created. For such a key \<^verbatim>\<open>updateSession\<close> returns normally and the store then holds,
  under the key and with every other entry as before, a session whose history is the old
  one when no intent is given, and otherwise the last 20 entries of the old history with
  the new intent appended: all of them when they are at most 20, and exactly the 20 most
  recent when they are more, the oldest being dropped. For any other key no session is
  stored or changed. The bound of 20 on every stored session holds of the store the module
  starts with, is kept by each of \<^verbatim>\<open>getOrCreateSession\<close>, \<^verbatim>\<open>updateSession\<close> and
  \<^verbatim>\<open>clearConversationSession\<close>, and so holds of every store these operations can make.
\<close>

theorem intent_history_bounded:
  "(\<not> lookupTruthy (lookupSession st architectureId) \<longrightarrow>
      (\<exists>s. getOrCreateSession st architectureId now
              = (OwnSession s, st\<lparr>ownSessions := (ownSessions st)(architectureId \<mapsto> s)\<rparr>)
         \<and> intents s = []))
   \<and> (ordinaryKey sessionId \<longrightarrow> hasSessionSlot st sessionId)
   \<and> (hasSessionSlot st sessionId \<longrightarrow>
        (\<exists>s. updateSession st sessionId update tNew tIntent tLast
                = (Inr (), st\<lparr>ownSessions := (ownSessions st)(sessionId \<mapsto> s)\<rparr>)
           \<and> intents s =
               (case updIntent update of
                  None \<Rightarrow> historyOf st sessionId
                | Some i \<Rightarrow>
                    sliceLast 20 (historyOf st sessionId
                                  @ [\<lparr>entryIntent = i, entryTimestamp = tIntent\<rparr>]))
           \<and> (updIntent update \<noteq> None \<longrightarrow> length (intents s) \<le> 20)))
   \<and> (\<not> hasSessionSlot st sessionId \<longrightarrow>
        ownSessions (snd (updateSession st sessionId update tNew tIntent tLast)) = ownSessions st)
   \<and> (length xs \<le> 20 \<longrightarrow> sliceLast 20 xs = xs)
   \<and> (20 \<le> length xs \<longrightarrow> length (sliceLast 20 xs) = 20)
   \<and> (\<exists>dropped. xs = dropped @ sliceLast 20 xs)
   \<and> intentsBounded noSessions
   \<and> (intentsBounded st \<longrightarrow>
         intentsBounded (snd (getOrCreateSession st architectureId now))
         \<and> intentsBounded (snd (updateSession st sessionId update tNew tIntent tLast))
         \<and> intentsBounded (snd (clearConversationSession st architectureId)))
   \<and> (reachableSessions st \<longrightarrow> intentsBounded st)"
proof -
  have a: "\<not> lookupTruthy (lookupSession st architectureId) \<longrightarrow>
      (\<exists>s. getOrCreateSession st architectureId now
              = (OwnSession s, st\<lparr>ownSessions := (ownSessions st)(architectureId \<mapsto> s)\<rparr>)
         \<and> intents s = [])"
    using getOrCreateSession_creates[of st architectureId now] by blast
  have b: "ordinaryKey sessionId \<longrightarrow> hasSessionSlot st sessionId"
    using ordinaryKey_slot by blast
  have c: "hasSessionSlot st sessionId \<longrightarrow>
        (\<exists>s. updateSession st sessionId update tNew tIntent tLast
                = (Inr (), st\<lparr>ownSessions := (ownSessions st)(sessionId \<mapsto> s)\<rparr>)
           \<and> intents s =
               (case updIntent update of
                  None \<Rightarrow> historyOf st sessionId
                | Some i \<Rightarrow>
                    sliceLast 20 (historyOf st sessionId
                                  @ [\<lparr>entryIntent = i, entryTimestamp = tIntent\<rparr>]))
           \<and> (updIntent update \<noteq> None \<longrightarrow> length (intents s) \<le> 20))"
  proof
    assume "hasSessionSlot st sessionId"
    from updateSession_stores[OF this, of update tNew tIntent tLast] obtain s where
      s: "updateSession st sessionId update tNew tIntent tLast
                = (Inr (), st\<lparr>ownSessions := (ownSessions st)(sessionId \<mapsto> s)\<rparr>)"
         "intents s =
               (case updIntent update of
                  None \<Rightarrow> historyOf st sessionId
                | Some i \<Rightarrow>
                    sliceLast 20 (historyOf st sessionId
                                  @ [\<lparr>entryIntent = i, entryTimestamp = tIntent\<rparr>]))"
      by blast
    from s(2) have "updIntent update \<noteq> None \<longrightarrow> length (intents s) \<le> 20"
      by (auto simp: sliceLast_length)
    with s show "\<exists>s. updateSession st sessionId update tNew tIntent tLast
                = (Inr (), st\<lparr>ownSessions := (ownSessions st)(sessionId \<mapsto> s)\<rparr>)
           \<and> intents s =
               (case updIntent update of
                  None \<Rightarrow> historyOf st sessionId
                | Some i \<Rightarrow>
                    sliceLast 20 (historyOf st sessionId
                                  @ [\<lparr>entryIntent = i, entryTimestamp = tIntent\<rparr>]))
           \<and> (updIntent update \<noteq> None \<longrightarrow> length (intents s) \<le> 20)"
      by (rule_tac exI[of _ s]) (intro conjI)
  qed
  have d: "\<not> hasSessionSlot st sessionId \<longrightarrow>
        ownSessions (snd (updateSession st sessionId update tNew tIntent tLast)) = ownSessions st"
    using updateSession_without_slot by blast
  have e: "length xs \<le> 20 \<longrightarrow> sliceLast 20 xs = xs"
    "20 \<le> length xs \<longrightarrow> length (sliceLast 20 xs) = 20"
    "\<exists>dropped. xs = dropped @ sliceLast 20 xs"
    using sliceLast_short[of xs 20] sliceLast_full[of 20 xs] sliceLast_suffix[of xs 20]
    by blast+
  have f: "intentsBounded noSessions" by (simp add: intentsBounded_def noSessions_def)
  have g: "intentsBounded st \<longrightarrow>
         intentsBounded (snd (getOrCreateSession st architectureId now))
         \<and> intentsBounded (snd (updateSession st sessionId update tNew tIntent tLast))
         \<and> intentsBounded (snd (clearConversationSession st architectureId))"
    using getOrCreateSession_bounded updateSession_bounded clearConversationSession_bounded by blast
  have h: "reachableSessions st \<longrightarrow> intentsBounded st"
    using reachable_bounded by blast
  from a b c d e f g h show ?thesis by (intro conjI)
qed

text \<open>
  The session under \<^verbatim>\<open>a1\<close> after 20 requests holds 20 intents, stamped 0 to 19. One more
  request: the store holds a session with 20 intents again, the one stamped 0 dropped and
  the new one, stamped 20, last.
\<close>

theorem intent_history_bounded_witness:
  "ordinaryKey ''a1''
   \<and> reachableSessions (greeted 20)
   \<and> intentsBounded (greeted 20)
   \<and> map entryTimestamp (historyOf (greeted 20) ''a1'') = [0 ..< 20]
   \<and> (\<exists>s. updateSession (greeted 20) ''a1'' greetingUpdate 20 20 20
             = (Inr (), (greeted 20)\<lparr>ownSessions := (ownSessions (greeted 20))(''a1'' \<mapsto> s)\<rparr>)
        \<and> length (intents s) = 20
        \<and> map entryTimestamp (intents s) = [1 ..< 21])
   \<and> intentsBounded (snd (updateSession (greeted 20) ''a1'' greetingUpdate 20 20 20))"
proof -
  note t = intent_history_bounded[of "greeted 20" "''a1''" 0 "''a1''" greetingUpdate 20 20 20
      "historyOf (greeted 20) ''a1'' @ [\<lparr>entryIntent = Greeting, entryTimestamp = 20\<rparr>]"]
  have k: "ordinaryKey ''a1''"
    by (simp add: ordinaryKey_def objectPrototypeMethods_def)
  have r: "reachableSessions (greeted 20)" by (rule greeted_reachable)
  with t have b: "intentsBounded (greeted 20)" by blast
  with t have b': "intentsBounded (snd (updateSession (greeted 20) ''a1'' greetingUpdate 20 20 20))"
    by blast
  have ts: "map entryTimestamp (historyOf (greeted 20) ''a1'') = [0 ..< 20]"
    by (rule greeted_timestamps) simp
  then have l: "length (historyOf (greeted 20) ''a1'') = 20"
    by (metis length_map length_upt minus_nat.diff_0)
  from t k obtain s where
    s: "updateSession (greeted 20) ''a1'' greetingUpdate 20 20 20
          = (Inr (), (greeted 20)\<lparr>ownSessions := (ownSessions (greeted 20))(''a1'' \<mapsto> s)\<rparr>)"
       "intents s = sliceLast 20 (historyOf (greeted 20) ''a1''
                      @ [\<lparr>entryIntent = Greeting, entryTimestamp = 20\<rparr>])"
    by (auto simp: greetingUpdate_def)
  from t l have len: "length (intents s) = 20" unfolding s(2) by simp
  have i: "intents s = drop 1 (historyOf (greeted 20) ''a1'')
                        @ [\<lparr>entryIntent = Greeting, entryTimestamp = 20\<rparr>]"
    unfolding s(2) sliceLast_def using l by simp
  have "drop 1 (map entryTimestamp (historyOf (greeted 20) ''a1'')) = [1 ..< 20]"
    unfolding ts by simp
  then have d: "map entryTimestamp (drop 1 (historyOf (greeted 20) ''a1'')) = [1 ..< 20]"
    by (simp only: drop_map)
  have u: "[1 ..< Suc 20] = [1 ..< 20] @ [20::nat]" by (rule upt_Suc_append) simp
  have "map entryTimestamp (intents s) = [1 ..< Suc 20]"
    unfolding u i by (simp only: map_append d) simp
  then have "map entryTimestamp (intents s) = [1 ..< 21]" by (simp del: upt_Suc)
  with k r b ts s(1) len b' show ?thesis by blast
qed

section \<open>The context string\<close>

lemma bindE_Inr: "bindE (Inr v) f = f v"
  by (simp add: bindE_def)

lemma bindE_Inl: "bindE (Inl e) f = Inl e"
  by (simp add: bindE_def)

lemma bindE_eq_Inr: "(bindE m f = Inr y) = (\<exists>v. m = Inr v \<and> f v = Inr y)"
  by (cases m) (simp_all add: bindE_def)

lemma mapE_total:
  "(\<And>x. x \<in> set xs \<Longrightarrow> \<exists>y. f x = Inr y) \<Longrightarrow> \<exists>ys. mapE f xs = Inr ys"
proof (induction xs)
  case Nil
  show ?case by simp
next
  case (Cons x xs)
  from Cons.prems[of x] obtain y where y: "f x = Inr y" by auto
  from Cons.IH Cons.prems obtain ys where ys: "mapE f xs = Inr ys" by auto
  show ?case by (simp add: y ys bindE_Inr)
qed

lemma mapE_throws:
  "x \<in> set xs \<Longrightarrow> \<forall>y \<in> set xs. \<forall>e. f y = Inl e \<longrightarrow> e = TypeError
   \<Longrightarrow> f x = Inl TypeError \<Longrightarrow> mapE f xs = Inl TypeError"
proof (induction xs)
  case Nil
  then show ?case by simp
next
  case (Cons a xs)
  show ?case
  proof (cases "f a")
    case (Inl e)
    with Cons.prems(2) have "e = TypeError" by simp
    with Inl show ?thesis by (simp add: bindE_Inl)
  next
    case (Inr v)
    with Cons.prems have "x \<in> set xs" by auto
    with Cons.IH Cons.prems have "mapE f xs = Inl TypeError" by simp
    with Inr show ?thesis by (simp add: bindE_Inr bindE_Inl)
  qed
qed

lemma templateStr_primitive: "primitive v \<Longrightarrow> \<exists>s. templateStr v = Inr s"
  by (cases v rule: primitive.cases) (simp_all add: templateStr_def)

lemma orElse_primitive: "primitive a \<Longrightarrow> primitive (orElse a (Some (JStr s)))"
  by (simp add: orElse_def)

lemma serviceLine_total:
  assumes "describedNode n"
  shows "\<exists>s. serviceLine n = Inr s"
proof -
  from assms obtain ps d where n: "n = JObj ps" and d: "map_of ps ''data'' = Some (JObj d)"
    and p: "primitive (map_of d ''service'')" "primitive (map_of d ''label'')"
      "primitive (map_of d ''description'')"
    by (cases n rule: describedNode.cases) (auto split: option.splits json.splits)
  from templateStr_primitive[OF p(1)] obtain s1
    where s1: "templateStr (map_of d ''service'') = Inr s1" by auto
  from templateStr_primitive[OF p(2)] obtain s2
    where s2: "templateStr (map_of d ''label'') = Inr s2" by auto
  from templateStr_primitive[OF orElse_primitive[OF p(3)]] obtain s3
    where s3: "templateStr (orElse (map_of d ''description'') (Some (JStr ''No description'')))
               = Inr s3" by auto
  show ?thesis
    by (simp add: serviceLine_def nodeDataProp_def n d bindE_Inr s1 s2 s3)
qed

lemma describedNode_label:
  assumes "describedNode n"
  shows "\<exists>l. labelOf (Some n) = Inr l \<and> primitive l"
proof -
  from assms obtain ps d where n: "n = JObj ps" and d: "map_of ps ''data'' = Some (JObj d)"
    and p: "primitive (map_of d ''label'')"
    by (cases n rule: describedNode.cases) (auto split: option.splits json.splits)
  show ?thesis
    by (simp add: labelOf_def isNullish_def n d bindE_Inr p)
qed

lemma findNode_total:
  assumes "\<forall>n \<in> set ns. describedNode n" and "plainEdge e"
  shows "\<exists>r. findNode ns e k = Inr r \<and> (r = None \<or> (\<exists>n \<in> set ns. r = Some n))"
  using assms(1)
proof (induction ns)
  case Nil
  show ?case by simp
next
  case (Cons n ns)
  from Cons.prems obtain ps where n: "n = JObj ps"
    by (cases n rule: describedNode.cases) auto
  from assms(2) obtain es where e: "e = JObj es"
    by (cases e rule: plainEdge.cases) auto
  from Cons.IH Cons.prems obtain r where
    r: "findNode ns e k = Inr r" "r = None \<or> (\<exists>m \<in> set ns. r = Some m)" by auto
  show ?case
    using r by (auto simp: n e bindE_Inr)
qed

lemma edge_protocol:
  assumes "plainEdge e"
  shows "\<exists>es p. e = JObj es \<and> getPropOpt (map_of es ''data'') ''protocol'' = Inr p
           \<and> primitive p"
proof -
  from assms obtain es where e: "e = JObj es"
    by (cases e rule: plainEdge.cases) auto
  have "\<exists>p. getPropOpt (map_of es ''data'') ''protocol'' = Inr p \<and> primitive p"
  proof (cases "map_of es ''data''")
    case None
    then show ?thesis by (simp add: getPropOpt_def isNullish_def)
  next
    case (Some d)
    with assms e show ?thesis
      by (cases d) (simp_all add: getPropOpt_def isNullish_def)
  qed
  with e show ?thesis by auto
qed

lemma connectionLine_total:
  assumes ns: "\<forall>n \<in> set ns. describedNode n" and e: "plainEdge e"
  shows "\<exists>s. connectionLine ns e = Inr s"
proof -
  from findNode_total[OF ns e, of "''source''"] obtain a where
    a: "findNode ns e ''source'' = Inr a" "a = None \<or> (\<exists>n \<in> set ns. a = Some n)" by auto
  from findNode_total[OF ns e, of "''target''"] obtain b where
    b: "findNode ns e ''target'' = Inr b" "b = None \<or> (\<exists>n \<in> set ns. b = Some n)" by auto
  have lab: "\<exists>l. labelOf r = Inr l \<and> primitive l"
    if "r = None \<or> (\<exists>n \<in> set ns. r = Some n)" for r
  proof (cases r)
    case None
    then show ?thesis by (simp add: labelOf_def isNullish_def)
  next
    case (Some n)
    with that ns have "describedNode n" by auto
    from describedNode_label[OF this] Some show ?thesis by simp
  qed
  from lab[OF a(2)] obtain la where la: "labelOf a = Inr la" "primitive la" by auto
  from lab[OF b(2)] obtain lb where lb: "labelOf b = Inr lb" "primitive lb" by auto
  from templateStr_primitive[OF orElse_primitive[OF la(2)]] obtain s1
    where s1: "templateStr (orElse la (Some (JStr ''Unknown''))) = Inr s1" by auto
  from templateStr_primitive[OF orElse_primitive[OF lb(2)]] obtain s2
    where s2: "templateStr (orElse lb (Some (JStr ''Unknown''))) = Inr s2" by auto
  from edge_protocol[OF e] obtain es p where
    es: "e = JObj es" and p: "getPropOpt (map_of es ''data'') ''protocol'' = Inr p" "primitive p"
    by auto
  from templateStr_primitive[OF orElse_primitive[OF p(2)]] obtain s3
    where s3: "templateStr (orElse p (Some (JStr ''default''))) = Inr s3" by auto
  have d: "getProp (Some e) ''data'' = Inr (map_of es ''data'')"
    by (simp add: es)
  show ?thesis
    by (simp add: connectionLine_def a(1) b(1) la(1) lb(1) s1 s2 d p(1) s3 bindE_Inr)
qed

lemma originalRequirement_total:
  "primitive (metadataPrompt a) \<Longrightarrow> \<exists>r. originalRequirementOf a = Inr r"
  using templateStr_primitive[of "metadataPrompt a"]
  by (auto simp: originalRequirementOf_def bindE_Inr)

lemma described_full:
  assumes "describedArchitecture a"
  shows "\<exists>ss cs r. generateContextString a LevelFull =
           Inr (fullContext (JSON_stringify2 (JArr (nodes a))) (JSON_stringify2 (JArr (edges a)))
                  ss cs r)"
proof -
  from assms have p: "primitive (metadataPrompt a)"
    and ns: "\<forall>n \<in> set (nodes a). describedNode n"
    and es: "\<forall>e \<in> set (edges a). plainEdge e"
    by (simp_all add: describedArchitecture_def)
  from originalRequirement_total[OF p] obtain r where r: "originalRequirementOf a = Inr r"
    by auto
  from mapE_total[of "nodes a" serviceLine] serviceLine_total ns
  obtain sl where sl: "mapE serviceLine (nodes a) = Inr sl" by auto
  from mapE_total[of "edges a" "connectionLine (nodes a)"] connectionLine_total[OF ns] es
  obtain cl where cl: "mapE (connectionLine (nodes a)) (edges a) = Inr cl" by auto
  show ?thesis
    by (simp add: generateContextString_def r sl cl bindE_Inr) (intro exI, rule refl)
qed

lemma full_shape:
  assumes "generateContextString a LevelFull = Inr s"
  shows "\<exists>ss cs r. s = fullContext (JSON_stringify2 (JArr (nodes a)))
                         (JSON_stringify2 (JArr (edges a))) ss cs r"
  using assms
  by (auto simp: generateContextString_def bindE_eq_Inr Let_def)

lemma minimal_shape:
  "generateContextString a LevelMinimal =
     bindE (originalRequirementOf a)
       (\<lambda>r. Inr (minimalContext (length (nodes a)) (length (edges a)) r))"
  by (simp add: generateContextString_def)

lemma nonempty_result:
  assumes "generateContextString a l = Inr s" and "l \<noteq> LevelNone"
  shows "s \<noteq> []"
proof (cases l)
  case LevelNone
  with assms(2) show ?thesis by simp
next
  case LevelMinimal
  with assms(1) obtain r where "s = minimalContext (length (nodes a)) (length (edges a)) r"
    by (auto simp: generateContextString_def bindE_eq_Inr)
  then show ?thesis by (simp add: minimalContext_def)
next
  case LevelSummary
  with assms(1) obtain ss cs r where
    "s = summaryContext (length (nodes a)) (length (edges a)) ss cs r"
    by (auto simp: generateContextString_def bindE_eq_Inr Let_def)
  then show ?thesis by (simp add: summaryContext_def)
next
  case LevelFull
  with assms(1) full_shape[of a s] obtain nj ej ss cs r where "s = fullContext nj ej ss cs r"
    by auto
  then show ?thesis by (simp add: fullContext_def)
qed

lemma undescribed_node_throws:
  assumes "getProp (Some n) ''data'' = Inl TypeError \<or> getProp (Some n) ''data'' = Inr None
           \<or> getProp (Some n) ''data'' = Inr (Some JNull)"
  shows "serviceLine n = Inl TypeError"
  using assms by (auto simp: serviceLine_def nodeDataProp_def bindE_Inr bindE_Inl)

lemma node_without_data_throws:
  assumes "n \<in> set ns" and "\<not> hasData n"
  shows "mapE serviceLine ns = Inl TypeError"
proof -
  have "serviceLine n = Inl TypeError"
  proof (cases "getProp (Some n) ''data''")
    case (Inl e)
    then show ?thesis by (cases e) (simp add: serviceLine_def nodeDataProp_def bindE_Inl)
  next
    case (Inr d)
    with assms(2) have "d = None \<or> d = Some JNull"
      by (cases d) (auto simp: hasData_def)
    with Inr show ?thesis
      by (auto simp: serviceLine_def nodeDataProp_def bindE_Inr bindE_Inl)
  qed
  moreover have "\<forall>y \<in> set ns. \<forall>e. serviceLine y = Inl e \<longrightarrow> e = TypeError"
    by (auto intro: jsTypeError.exhaust)
  ultimately show ?thesis using assms(1) by (rule_tac mapE_throws)
qed

lemma without_data_full:
  assumes "n \<in> set (nodes a)" and "\<not> hasData n" and "l = LevelSummary \<or> l = LevelFull"
  shows "generateContextString a l = Inl TypeError"
proof (cases "originalRequirementOf a")
  case (Inl e)
  with assms(3) show ?thesis
    by (cases e) (auto simp: generateContextString_def bindE_Inl)
next
  case (Inr r)
  with assms(3) node_without_data_throws[OF assms(1,2)] show ?thesis
    by (auto simp: generateContextString_def bindE_Inl bindE_Inr)
qed

lemma digitChar_value: "d < 10 \<Longrightarrow> digitVal (digitChar d) = int d"
proof -
  assume "d < 10"
  then have "d \<in> {0, 1, 2, 3, 4, 5, 6, 7, 8, 9}" by auto
  then show ?thesis by (auto simp: digitVal_def digitChar_def)
qed

lemma intOfDigits_snoc: "intOfDigits (ds @ [c]) = 10 * intOfDigits ds + digitVal c"
  by (simp add: intOfDigits_def)

lemma showNat_value: "intOfDigits (showNat n) = int n"
proof (induction n rule: showNat.induct)
  case (1 n)
  show ?case
  proof (cases "n < 10")
    case True
    then show ?thesis
      by (subst showNat.simps) (simp add: intOfDigits_def digitChar_value)
  next
    case False
    with 1 have "intOfDigits (showNat (n div 10)) = int (n div 10)" by simp
    moreover have "digitVal (digitChar (n mod 10)) = int (n mod 10)"
      by (rule digitChar_value) simp
    ultimately show ?thesis using False
      by (subst showNat.simps) (simp add: intOfDigits_snoc zdiv_int zmod_int)
  qed
qed

text \<open>
  C8. The context string is empty exactly at the level \<^verbatim>\<open>none\<close>. At the level
  \<^verbatim>\<open>minimal\<close>, for a prompt in the metadata that is missing or not an object (its declared
  type is a string), the result starts with the heading and the two counts, the number of
  nodes and the number of edges in decimal. At the level \<^verbatim>\<open>full\<close> every result starts
  with the heading, the JSON text of the array of nodes and the JSON text of the array of
  edges, each indented by two and inside a fence; there is a result whenever every node has
  a \<^verbatim>\<open>data\<close> object with plain values and every edge is an object; and there is none, a
  TypeError being thrown at the levels \<^verbatim>\<open>summary\<close> and \<^verbatim>\<open>full\<close>, whenever some node has
  no \<^verbatim>\<open>data\<close>. The text of a count is a decimal numeral with the count as its value.
\<close>

theorem generateContextString_levels:
  "(generateContextString a l = Inr [] \<longleftrightarrow> l = LevelNone)
   \<and> (primitive (metadataPrompt a) \<longrightarrow>
        (\<exists>rest. generateContextString a LevelMinimal =
           Inr (''\<newline>'' @ ''CURRENT ARCHITECTURE (MINIMAL):\<newline>'' @ ''- ''
              @ showNat (length (nodes a)) @ '' services\<newline>'' @ ''- '' @ showNat (length (edges a))
              @ '' connections\<newline>''
              @ rest)))
   \<and> (\<forall>s. generateContextString a LevelFull = Inr s \<longrightarrow>
        (\<exists>rest. s = ''\<newline>'' @ ''FULL CURRENT ARCHITECTURE:\<newline>'' @ ''Nodes JSON: \<newline>''
              @ ''```json\<newline>''
              @ JSON_stringify2 (JArr (nodes a))
              @ ''\<newline>'' @ ''```\<newline>'' @ ''\<newline>'' @ ''Edges JSON: \<newline>''
              @ ''```json\<newline>''
              @ JSON_stringify2 (JArr (edges a)) @ rest))
   \<and> (describedArchitecture a \<longrightarrow> (\<exists>s. generateContextString a LevelFull = Inr s))
   \<and> ((\<exists>n \<in> set (nodes a). \<not> hasData n) \<longrightarrow>
        generateContextString a LevelSummary = Inl TypeError
        \<and> generateContextString a LevelFull = Inl TypeError)
   \<and> intOfDigits (showNat count) = int count"
proof -
  have none: "generateContextString a l = Inr [] \<longleftrightarrow> l = LevelNone"
    using nonempty_result[of a l "[]"] by (auto simp: generateContextString_def)
  have minimal: "primitive (metadataPrompt a) \<longrightarrow>
        (\<exists>rest. generateContextString a LevelMinimal =
           Inr (''\<newline>'' @ ''CURRENT ARCHITECTURE (MINIMAL):\<newline>'' @ ''- ''
              @ showNat (length (nodes a)) @ '' services\<newline>'' @ ''- '' @ showNat (length (edges a))
              @ '' connections\<newline>''
              @ rest))"
  proof
    assume "primitive (metadataPrompt a)"
    from originalRequirement_total[OF this] obtain r where "originalRequirementOf a = Inr r"
      by auto
    then show "\<exists>rest. generateContextString a LevelMinimal =
           Inr (''\<newline>'' @ ''CURRENT ARCHITECTURE (MINIMAL):\<newline>'' @ ''- ''
              @ showNat (length (nodes a)) @ '' services\<newline>'' @ ''- '' @ showNat (length (edges a))
              @ '' connections\<newline>''
              @ rest)"
      by (simp add: minimal_shape bindE_Inr minimalContext_def)
  qed
  have full: "\<forall>s. generateContextString a LevelFull = Inr s \<longrightarrow>
        (\<exists>rest. s = ''\<newline>'' @ ''FULL CURRENT ARCHITECTURE:\<newline>'' @ ''Nodes JSON: \<newline>''
              @ ''```json\<newline>''
              @ JSON_stringify2 (JArr (nodes a))
              @ ''\<newline>'' @ ''```\<newline>'' @ ''\<newline>'' @ ''Edges JSON: \<newline>''
              @ ''```json\<newline>''
              @ JSON_stringify2 (JArr (edges a)) @ rest)"
  proof (intro allI impI)
    fix s
    assume "generateContextString a LevelFull = Inr s"
    from full_shape[OF this] obtain ss cs r where
      "s = fullContext (JSON_stringify2 (JArr (nodes a))) (JSON_stringify2 (JArr (edges a)))
             ss cs r" by auto
    then show "\<exists>rest. s = ''\<newline>'' @ ''FULL CURRENT ARCHITECTURE:\<newline>'' @ ''Nodes JSON: \<newline>''
              @ ''```json\<newline>''
              @ JSON_stringify2 (JArr (nodes a))
              @ ''\<newline>'' @ ''```\<newline>'' @ ''\<newline>'' @ ''Edges JSON: \<newline>''
              @ ''```json\<newline>''
              @ JSON_stringify2 (JArr (edges a)) @ rest"
      by (simp add: fullContext_def)
  qed
  have total: "describedArchitecture a \<longrightarrow> (\<exists>s. generateContextString a LevelFull = Inr s)"
    using described_full[of a] by auto
  have throws: "(\<exists>n \<in> set (nodes a). \<not> hasData n) \<longrightarrow>
        generateContextString a LevelSummary = Inl TypeError
        \<and> generateContextString a LevelFull = Inl TypeError"
    using without_data_full[of _ a] by auto
  from none minimal full total throws showNat_value[of count] show ?thesis by (intro conjI)
qed

lemma exampleArchitecture_described: "describedArchitecture exampleArchitecture"
  by (simp add: describedArchitecture_def exampleArchitecture_def metadataPrompt_def)

lemma bareArchitecture_without_data: "\<exists>n \<in> set (nodes bareArchitecture). \<not> hasData n"
  by (simp add: bareArchitecture_def hasData_def)

theorem generateContextString_levels_witness:
  "primitive (metadataPrompt exampleArchitecture)
   \<and> describedArchitecture exampleArchitecture
   \<and> (\<exists>rest. generateContextString exampleArchitecture LevelMinimal =
         Inr (''\<newline>'' @ ''CURRENT ARCHITECTURE (MINIMAL):\<newline>'' @ ''- ''
              @ showNat (length (nodes exampleArchitecture)) @ '' services\<newline>'' @ ''- '' @ showNat (length (edges exampleArchitecture))
              @ '' connections\<newline>''
              @ rest))
   \<and> (\<exists>s rest. generateContextString exampleArchitecture LevelFull = Inr s
         \<and> s = ''\<newline>'' @ ''FULL CURRENT ARCHITECTURE:\<newline>'' @ ''Nodes JSON: \<newline>''
              @ ''```json\<newline>''
              @ JSON_stringify2 (JArr (nodes exampleArchitecture))
              @ ''\<newline>'' @ ''```\<newline>'' @ ''\<newline>'' @ ''Edges JSON: \<newline>''
              @ ''```json\<newline>''
              @ JSON_stringify2 (JArr (edges exampleArchitecture)) @ rest)
   \<and> (\<exists>n \<in> set (nodes bareArchitecture). \<not> hasData n)
   \<and> generateContextString bareArchitecture LevelFull = Inl TypeError"
proof -
  have p: "primitive (metadataPrompt exampleArchitecture)"
    by (simp add: exampleArchitecture_def metadataPrompt_def)
  note ex = generateContextString_levels[of exampleArchitecture LevelFull]
  note bare = generateContextString_levels[of bareArchitecture LevelFull]
  from ex exampleArchitecture_described obtain s where
    s: "generateContextString exampleArchitecture LevelFull = Inr s" by blast
  with ex have "\<exists>rest. s = ''\<newline>'' @ ''FULL CURRENT ARCHITECTURE:\<newline>'' @ ''Nodes JSON: \<newline>''
              @ ''```json\<newline>''
              @ JSON_stringify2 (JArr (nodes exampleArchitecture))
              @ ''\<newline>'' @ ''```\<newline>'' @ ''\<newline>'' @ ''Edges JSON: \<newline>''
              @ ''```json\<newline>''
              @ JSON_stringify2 (JArr (edges exampleArchitecture)) @ rest"
    by blast
  with s have full: "\<exists>s rest. generateContextString exampleArchitecture LevelFull = Inr s
         \<and> s = ''\<newline>'' @ ''FULL CURRENT ARCHITECTURE:\<newline>'' @ ''Nodes JSON: \<newline>''
              @ ''```json\<newline>''
              @ JSON_stringify2 (JArr (nodes exampleArchitecture))
              @ ''\<newline>'' @ ''```\<newline>'' @ ''\<newline>'' @ ''Edges JSON: \<newline>''
              @ ''```json\<newline>''
              @ JSON_stringify2 (JArr (edges exampleArchitecture)) @ rest"
    by blast
  from ex p have mini: "\<exists>rest. generateContextString exampleArchitecture LevelMinimal =
         Inr (''\<newline>'' @ ''CURRENT ARCHITECTURE (MINIMAL):\<newline>'' @ ''- ''
              @ showNat (length (nodes exampleArchitecture)) @ '' services\<newline>'' @ ''- '' @ showNat (length (edges exampleArchitecture))
              @ '' connections\<newline>''
              @ rest)"
    by blast
  from bare bareArchitecture_without_data
  have thr: "generateContextString bareArchitecture LevelFull = Inl TypeError" by blast
  from p exampleArchitecture_described mini full bareArchitecture_without_data thr
  show ?thesis by (intro conjI)
qed

text \<open>
  The claim as it stands promises a result at the level \<^verbatim>\<open>full\<close> for every architecture.
  For the architecture whose only node is the empty object there is none: reading
  \<^verbatim>\<open>node.data.service\<close> throws.
\<close>

theorem full_context_counterexample:
  "generateContextString \<lparr>nodes = [JObj []], edges = [], metadata = None\<rparr> LevelFull
     = Inl TypeError"
  by (simp add: generateContextString_def originalRequirementOf_def metadataPrompt_def
      serviceLine_def nodeDataProp_def bindE_def)

lemma generateContextString_minimal_example:
  "generateContextString exampleArchitecture LevelMinimal =
     Inr (''\<newline>'' @ ''CURRENT ARCHITECTURE (MINIMAL):\<newline>'' @ ''- 1 services\<newline>''
          @ ''- 1 connections\<newline>'' @ ''Original requirement: store files\<newline>'')"
  by code_simp

section \<open>Post-processing\<close>

lemma startsWith_append: "startsWith s sub = (\<exists>post. s = sub @ post)"
  by (induction s sub rule: startsWith.induct) auto

lemma indexOfFrom_first:
  "strIncludes s sub \<Longrightarrow>
     \<exists>pre post. s = pre @ sub @ post \<and> indexOfFrom i s sub = i + int (length pre)
       \<and> (\<forall>k < length pre. \<not> startsWith (drop k s) sub)"
proof (induction s arbitrary: i)
  case Nil
  then show ?case by simp
next
  case (Cons c cs)
  show ?case
  proof (cases "startsWith (c # cs) sub")
    case True
    then obtain post where "c # cs = sub @ post" by (auto simp: startsWith_append)
    moreover have "indexOfFrom i (c # cs) sub = i" using True by simp
    ultimately show ?thesis
      by (rule_tac exI[of _ "[]"], rule_tac exI[of _ post]) simp
  next
    case False
    with Cons.prems have "strIncludes cs sub" by simp
    from Cons.IH[OF this, of "i + 1"] obtain pre post where
      p: "cs = pre @ sub @ post" "indexOfFrom (i + 1) cs sub = i + 1 + int (length pre)"
         "\<forall>k < length pre. \<not> startsWith (drop k cs) sub" by auto
    have "\<forall>k < length (c # pre). \<not> startsWith (drop k (c # cs)) sub"
    proof (intro allI impI)
      fix k
      assume "k < length (c # pre)"
      then show "\<not> startsWith (drop k (c # cs)) sub"
        using False p(3) by (cases k) auto
    qed
    with False p(1,2) show ?thesis
      by (rule_tac exI[of _ "c # pre"], rule_tac exI[of _ post]) simp
  qed
qed

lemma strIncludes_append: "strIncludes (pre @ sub @ post) sub"
proof (induction pre)
  case Nil
  have "startsWith (sub @ post) sub" by (auto simp: startsWith_append)
  then show ?case by (cases "sub @ post") auto
next
  case (Cons c pre)
  then show ?case by simp
qed

lemma substring_take: "substring (pre @ tail) 0 (int (length pre)) = pre"
  by (simp add: substring_def Let_def)

text \<open>The text of a match is the piece of the subject that starts at the index of the match.\<close>

lemma matchHere_piece:
  "matchHere re i p cs = Some m \<Longrightarrow> mindex m = i \<and> (\<exists>post. cs = mtext m @ post)"
proof -
  assume a: "matchHere re i p cs = Some m"
  then obtain y where "m = mkMatch re i cs y"
    by (auto simp: matchHere_def split: option.splits)
  then have "mindex m = i" "mtext m = take (length cs - length (rest y)) cs"
    by (simp_all add: mkMatch_def)
  then show ?thesis
    by (metis append_take_drop_id)
qed

lemma execFrom_piece:
  "execFrom re i p cs = Some m \<Longrightarrow>
     \<exists>pre post. cs = pre @ mtext m @ post \<and> mindex m = i + length pre"
proof (induction cs arbitrary: i p)
  case Nil
  from matchHere_piece[of re i p "[]" m] Nil show ?case by simp
next
  case (Cons c cs)
  show ?case
  proof (cases "matchHere re i p (c # cs)")
    case None
    with Cons.prems have "execFrom re (Suc i) (Some c) cs = Some m" by simp
    from Cons.IH[OF this] obtain pre post where
      "cs = pre @ mtext m @ post" "mindex m = Suc i + length pre" by auto
    then show ?thesis
      by (rule_tac exI[of _ "c # pre"], rule_tac exI[of _ post]) simp
  next
    case (Some m')
    with Cons.prems have "matchHere re i p (c # cs) = Some m" by simp
    from matchHere_piece[OF this] obtain post where "mindex m = i" "c # cs = mtext m @ post"
      by auto
    then show ?thesis
      by (rule_tac exI[of _ "[]"], rule_tac exI[of _ post]) simp
  qed
qed

lemma regexMatch_piece:
  "regexMatch s re = Some m \<Longrightarrow> \<exists>pre post. s = pre @ mtext m @ post \<and> mindex m = length pre"
  using execFrom_piece[of re 0 None s m] by (simp add: regexMatch_def)

text \<open>A match is the leftmost one: the pattern matches at no earlier position.\<close>

lemma execFrom_leftmost:
  "execFrom re n p s = Some m \<Longrightarrow>
     \<exists>j. mindex m = n + j
       \<and> matchHere re (n + j) (if j = 0 then p else Some (s ! (j - 1))) (drop j s) = Some m
       \<and> (\<forall>i < j. matchHere re (n + i) (if i = 0 then p else Some (s ! (i - 1))) (drop i s)
                     = None)"
proof (induction s arbitrary: n p)
  case Nil
  then have h: "matchHere re n p [] = Some m" by simp
  from matchHere_piece[OF h] h show ?case by (intro exI[of _ 0]) simp
next
  case (Cons c cs)
  show ?case
  proof (cases "matchHere re n p (c # cs)")
    case (Some m')
    with Cons.prems have h: "matchHere re n p (c # cs) = Some m" by simp
    from matchHere_piece[OF h] h show ?thesis by (intro exI[of _ 0]) simp
  next
    case None
    with Cons.prems have "execFrom re (Suc n) (Some c) cs = Some m" by simp
    from Cons.IH[OF this] obtain j where
      j: "mindex m = Suc n + j"
         "matchHere re (Suc n + j) (if j = 0 then Some c else Some (cs ! (j - 1))) (drop j cs)
            = Some m"
         "\<forall>i < j. matchHere re (Suc n + i) (if i = 0 then Some c else Some (cs ! (i - 1)))
                      (drop i cs) = None"
      by blast
    have prev: "(if k = 0 then Some c else Some (cs ! (k - 1))) = Some ((c # cs) ! k)" for k
      by (cases k) simp_all
    have "\<forall>i < Suc j. matchHere re (n + i) (if i = 0 then p else Some ((c # cs) ! (i - 1)))
                      (drop i (c # cs)) = None"
    proof (intro allI impI)
      fix i
      assume "i < Suc j"
      show "matchHere re (n + i) (if i = 0 then p else Some ((c # cs) ! (i - 1)))
              (drop i (c # cs)) = None"
      proof (cases i)
        case 0
        with None show ?thesis by simp
      next
        case (Suc i')
        with \<open>i < Suc j\<close> j(3) have
          "matchHere re (Suc n + i') (if i' = 0 then Some c else Some (cs ! (i' - 1)))
             (drop i' cs) = None" by simp
        with Suc show ?thesis by (simp add: prev)
      qed
    qed
    with j(1,2) show ?thesis
      by (intro exI[of _ "Suc j"]) (simp add: prev)
  qed
qed

lemma regexMatch_leftmost:
  assumes "regexMatch s re = Some m"
  shows "matchHere re (mindex m) (charBefore s (mindex m)) (drop (mindex m) s) = Some m
         \<and> (\<forall>i < mindex m. matchHere re i (charBefore s i) (drop i s) = None)"
  using execFrom_leftmost[of re 0 None s m] assms
  by (auto simp: regexMatch_def charBefore_def)

lemma formatCode_unfenced:
  "\<not> strIncludes raw fence \<Longrightarrow>
     formatCode intent raw language =
       fence @ languageOr language (if intent = Cdk_generation then ''typescript'' else ''javascript'')
         @ ''\<newline>'' @ trim raw @ ''\<newline>'' @ fence"
  by (simp add: formatCode_def)

lemma formatCode_fenced:
  assumes "strIncludes raw fence"
  shows "(\<exists>post. raw = substring raw 0 (indexOf raw fence) @ fence @ post)
         \<and> (\<forall>k < length (substring raw 0 (indexOf raw fence)). \<not> startsWith (drop k raw) fence)
         \<and> (regexMatch raw codeBlockPattern = None \<longrightarrow> formatCode intent raw language = raw)
         \<and> (\<forall>m. regexMatch raw codeBlockPattern = Some m \<longrightarrow>
              (\<exists>before after. raw = before @ mtext m @ after \<and> mindex m = length before)
              \<and> (\<forall>i < mindex m. matchHere codeBlockPattern i (charBefore raw i) (drop i raw) = None)
              \<and> formatCode intent raw language =
                  (if trim (substring raw 0 (indexOf raw fence)) \<noteq> []
                      \<and> length (trim (substring raw 0 (indexOf raw fence))) < 100
                   then trim (substring raw 0 (indexOf raw fence)) @ ''\<newline>'' @ ''\<newline>''
                          @ mtext m
                   else mtext m))"
proof -
  from indexOfFrom_first[OF assms, of 0] obtain intro post where
    p: "raw = intro @ fence @ post" "indexOf raw fence = int (length intro)"
       "\<forall>k < length intro. \<not> startsWith (drop k raw) fence"
    unfolding indexOf_def by auto
  have s: "substring raw 0 (indexOf raw fence) = intro"
    unfolding p(2) by (subst p(1)) (rule substring_take)
  have cut: "\<exists>post. raw = substring raw 0 (indexOf raw fence) @ fence @ post"
    unfolding s using p(1) by (rule exI)
  have first: "\<forall>k < length (substring raw 0 (indexOf raw fence)).
                 \<not> startsWith (drop k raw) fence"
    unfolding s by (rule p(3))
  have none: "regexMatch raw codeBlockPattern = None \<longrightarrow> formatCode intent raw language = raw"
    using assms by (simp add: formatCode_def)
  have some: "\<forall>m. regexMatch raw codeBlockPattern = Some m \<longrightarrow>
              (\<exists>before after. raw = before @ mtext m @ after \<and> mindex m = length before)
              \<and> (\<forall>i < mindex m. matchHere codeBlockPattern i (charBefore raw i) (drop i raw) = None)
              \<and> formatCode intent raw language =
                  (if trim (substring raw 0 (indexOf raw fence)) \<noteq> []
                      \<and> length (trim (substring raw 0 (indexOf raw fence))) < 100
                   then trim (substring raw 0 (indexOf raw fence)) @ ''\<newline>'' @ ''\<newline>''
                          @ mtext m
                   else mtext m)"
  proof (intro allI impI)
    fix m
    assume m: "regexMatch raw codeBlockPattern = Some m"
    from regexMatch_piece[OF m]
    have piece: "\<exists>before after. raw = before @ mtext m @ after \<and> mindex m = length before" .
    from regexMatch_leftmost[OF m]
    have left: "\<forall>i < mindex m. matchHere codeBlockPattern i (charBefore raw i) (drop i raw) = None"
      by (rule conjunct2)
    have res: "formatCode intent raw language =
                  (if trim (substring raw 0 (indexOf raw fence)) \<noteq> []
                      \<and> length (trim (substring raw 0 (indexOf raw fence))) < 100
                   then trim (substring raw 0 (indexOf raw fence)) @ ''\<newline>'' @ ''\<newline>''
                          @ mtext m
                   else mtext m)"
      using assms by (simp add: formatCode_def m Let_def)
    from piece left res
    show "(\<exists>before after. raw = before @ mtext m @ after \<and> mindex m = length before)
              \<and> (\<forall>i < mindex m. matchHere codeBlockPattern i (charBefore raw i) (drop i raw) = None)
              \<and> formatCode intent raw language =
                  (if trim (substring raw 0 (indexOf raw fence)) \<noteq> []
                      \<and> length (trim (substring raw 0 (indexOf raw fence))) < 100
                   then trim (substring raw 0 (indexOf raw fence)) @ ''\<newline>'' @ ''\<newline>''
                          @ mtext m
                   else mtext m)"
      by (intro conjI)
  qed
  from cut first none some show ?thesis by (intro conjI)
qed

text \<open>
  C7. For the intents \<^verbatim>\<open>cdk_generation\<close> and \<^verbatim>\<open>code_generation\<close>: a raw response without
  three backticks in a row is trimmed and put between a fence labelled with the language,
  or with \<^verbatim>\<open>typescript\<close> respectively \<^verbatim>\<open>javascript\<close> when no language is given. A raw
  response with three backticks is cut at their first occurrence: the intro is the text
  before it. If the pattern of a fenced block (a fence, letters, a line break, at least one
  character, up to the next fence) matches, the result is the first match, a piece of the
  raw response before which the pattern matches nowhere, preceded by the trimmed intro and
  an empty line when the trimmed intro is not empty and shorter than 100 characters, and
  the match alone otherwise; if the pattern does not match, the response is returned as it
  is. For the intents \<^verbatim>\<open>greeting\<close> and \<^verbatim>\<open>general_chat\<close> the result is the trimmed raw
  response.
\<close>

theorem postProcessResponse_code_and_chat:
  "(\<forall>intent \<in> {Cdk_generation, Code_generation}.
      (\<not> strIncludes raw fence \<longrightarrow>
         postProcessResponse intent raw language =
           fence @ languageOr language
                     (if intent = Cdk_generation then ''typescript'' else ''javascript'')
             @ ''\<newline>'' @ trim raw @ ''\<newline>'' @ fence)
      \<and> (strIncludes raw fence \<longrightarrow>
           (\<exists>post. raw = substring raw 0 (indexOf raw fence) @ fence @ post)
           \<and> (\<forall>k < length (substring raw 0 (indexOf raw fence)).
                 \<not> startsWith (drop k raw) fence)
           \<and> (regexMatch raw codeBlockPattern = None \<longrightarrow>
                 postProcessResponse intent raw language = raw)
           \<and> (\<forall>m. regexMatch raw codeBlockPattern = Some m \<longrightarrow>
                 (\<exists>before after. raw = before @ mtext m @ after \<and> mindex m = length before)
                 \<and> (\<forall>i < mindex m.
                        matchHere codeBlockPattern i (charBefore raw i) (drop i raw) = None)
                 \<and> postProcessResponse intent raw language =
                     (if trim (substring raw 0 (indexOf raw fence)) \<noteq> []
                         \<and> length (trim (substring raw 0 (indexOf raw fence))) < 100
                      then trim (substring raw 0 (indexOf raw fence)) @ ''\<newline>'' @ ''\<newline>''
                             @ mtext m
                      else mtext m))))
   \<and> languageOr None fallback = fallback
   \<and> languageOr (Some []) fallback = fallback
   \<and> (l \<noteq> [] \<longrightarrow> languageOr (Some l) fallback = l)
   \<and> postProcessResponse Greeting raw language = trim raw
   \<and> postProcessResponse General_chat raw language = trim raw"
proof -
  have code: "postProcessResponse intent raw language = formatCode intent raw language"
    if "intent \<in> {Cdk_generation, Code_generation}" for intent
    using that by auto
  have lang: "languageOr None fallback = fallback" "languageOr (Some []) fallback = fallback"
    "l \<noteq> [] \<longrightarrow> languageOr (Some l) fallback = l"
    by (simp_all add: languageOr_def)
  have chat: "postProcessResponse Greeting raw language = trim raw"
    "postProcessResponse General_chat raw language = trim raw"
    by simp_all
  have fenced: "(strIncludes raw fence \<longrightarrow>
           (\<exists>post. raw = substring raw 0 (indexOf raw fence) @ fence @ post)
           \<and> (\<forall>k < length (substring raw 0 (indexOf raw fence)).
                 \<not> startsWith (drop k raw) fence)
           \<and> (regexMatch raw codeBlockPattern = None \<longrightarrow>
                 postProcessResponse intent raw language = raw)
           \<and> (\<forall>m. regexMatch raw codeBlockPattern = Some m \<longrightarrow>
                 (\<exists>before after. raw = before @ mtext m @ after \<and> mindex m = length before)
                 \<and> (\<forall>i < mindex m.
                        matchHere codeBlockPattern i (charBefore raw i) (drop i raw) = None)
                 \<and> postProcessResponse intent raw language =
                     (if trim (substring raw 0 (indexOf raw fence)) \<noteq> []
                         \<and> length (trim (substring raw 0 (indexOf raw fence))) < 100
                      then trim (substring raw 0 (indexOf raw fence)) @ ''\<newline>'' @ ''\<newline>''
                             @ mtext m
                      else mtext m)))"
    if i: "intent \<in> {Cdk_generation, Code_generation}" for intent
    unfolding code[OF i] using formatCode_fenced[of raw intent language] by (rule impI)
  have unfenced: "\<not> strIncludes raw fence \<longrightarrow>
         postProcessResponse intent raw language =
           fence @ languageOr language
                     (if intent = Cdk_generation then ''typescript'' else ''javascript'')
             @ ''\<newline>'' @ trim raw @ ''\<newline>'' @ fence"
    if i: "intent \<in> {Cdk_generation, Code_generation}" for intent
    unfolding code[OF i] using formatCode_unfenced[of raw intent language] by (rule impI)
  from unfenced fenced lang chat show ?thesis
    by (intro conjI ballI)
qed

text \<open>
  A response without a fence, one with two fenced blocks after a short intro, and a
  greeting.
\<close>

lemma twoBlocks_match:
  "regexMatch twoBlocks codeBlockPattern
     = Some \<lparr>mindex = 5, mtext = ''```js\<newline>f()```'', mgroups = []\<rparr>"
  by code_simp

lemma twoBlocks_intro:
  "strIncludes twoBlocks fence \<and> substring twoBlocks 0 (indexOf twoBlocks fence) = ''Use: ''
   \<and> trim ''Use: '' = ''Use:''"
  by code_simp

theorem postProcessResponse_code_and_chat_witness:
  "Code_generation \<in> {Cdk_generation, Code_generation}
   \<and> \<not> strIncludes '' f() '' fence
   \<and> postProcessResponse Code_generation '' f() '' None = ''```javascript\<newline>f()\<newline>```''
   \<and> strIncludes twoBlocks fence
   \<and> regexMatch twoBlocks codeBlockPattern
        = Some \<lparr>mindex = 5, mtext = ''```js\<newline>f()```'', mgroups = []\<rparr>
   \<and> postProcessResponse Code_generation twoBlocks None = ''Use:\<newline>\<newline>```js\<newline>f()```''
   \<and> postProcessResponse Greeting '' hello '' None = ''hello''"
proof -
  have i: "Code_generation \<in> {Cdk_generation, Code_generation}" by simp
  have n: "\<not> strIncludes '' f() '' fence" by code_simp
  have t: "trim '' f() '' = ''f()''" "trim '' hello '' = ''hello''" by code_simp+
  from postProcessResponse_code_and_chat[of "'' f() ''" None "''javascript''" "''js''"] i n
  have a: "postProcessResponse Code_generation '' f() '' None
             = fence @ ''javascript'' @ ''\<newline>'' @ trim '' f() '' @ ''\<newline>'' @ fence"
    by simp
  have a': "postProcessResponse Code_generation '' f() '' None = ''```javascript\<newline>f()\<newline>```''"
    unfolding a t by (simp add: fence_def)
  from postProcessResponse_code_and_chat[of twoBlocks None "''javascript''" "''js''"] i
    twoBlocks_intro twoBlocks_match
  have b: "postProcessResponse Code_generation twoBlocks None
             = ''Use:\<newline>\<newline>```js\<newline>f()```''"
    by simp
  from postProcessResponse_code_and_chat[of "'' hello ''" None "''javascript''" "''js''"]
  have c: "postProcessResponse Greeting '' hello '' None = ''hello''"
    unfolding t by simp
  from i n a' twoBlocks_intro twoBlocks_match b c show ?thesis by simp
qed

text \<open>
  The claim as it stands puts the text before the first code block in front of it. What the
  code puts there is the text before the first three backticks, which need not open the
  block that is kept: below, the first fenced block starts at index 5, the text before it
  has five characters, and the result starts with the first of them alone.
\<close>

theorem intro_text_counterexample:
  "regexMatch strayFence codeBlockPattern
     = Some \<lparr>mindex = 5, mtext = ''```js\<newline>c```'', mgroups = []\<rparr>
   \<and> take 5 strayFence = ''a```b''
   \<and> postProcessResponse Code_generation strayFence None = ''a\<newline>\<newline>```js\<newline>c```''"
  by code_simp

section \<open>Extraction of the updated architecture\<close>

subsection \<open>What a pattern of the form \<^verbatim>\<open>open([\s\S]*?)close\<close> matches\<close>

lemma charEq_exact: "charEq False c d = (c = d)"
  by (simp add: charEq_def)

lemma litMatch_prefix:
  "litMatch False ds (MState p (ds @ r) c)
     = Some (MState (if ds = [] then p else Some (last ds)) r c)"
  by (induction ds arbitrary: p) (simp_all add: charEq_exact)

lemma litMatch_fail: "\<not> startsWith s ds \<Longrightarrow> litMatch False ds (MState p s c) = None"
proof (induction ds arbitrary: s p)
  case Nil
  then show ?case by simp
next
  case (Cons d ds)
  then show ?case by (cases s) (auto simp: charEq_exact)
qed

lemma anyCh_step:
  "compile False AnyCh k (MState p (x # xs) c) = k (MState (Some x) xs c)"
  by (simp add: classMatches_def)

lemma anyCh_end: "compile False AnyCh k (MState p [] c) = None"
  by simp

lemma lazy_step:
  "repeatMatcher (compile False AnyCh) [] 0 None False k (MState p s c) =
     (case k (MState p s c) of
        Some z \<Rightarrow> Some z
      | None \<Rightarrow>
          (case s of
             [] \<Rightarrow> None
           | x # xs \<Rightarrow> repeatMatcher (compile False AnyCh) [] 0 None False k (MState (Some x) xs c)))"
proof -
  have cl: "clearCaps [] (MState p s c) = MState p s c"
    by (simp add: clearCaps_def)
  have m: "compile False AnyCh k' (MState p s c)
             = (case s of [] \<Rightarrow> None | x # xs \<Rightarrow> k' (MState (Some x) xs c))" for k'
    by (cases s) (simp_all add: classMatches_def)
  show ?thesis
    by (subst repeatMatcher.simps)
       (simp add: cl m split: option.splits list.splits del: compile.simps)
qed

lemma lazy_skip:
  assumes "\<forall>i < length inner. \<forall>q. k (MState q (drop i inner @ r) c) = None"
  shows "\<exists>q. repeatMatcher (compile False AnyCh) [] 0 None False k (MState p (inner @ r) c)
             = repeatMatcher (compile False AnyCh) [] 0 None False k (MState q r c)"
  using assms
proof (induction inner arbitrary: p)
  case Nil
  show ?case by (rule exI[of _ p]) (simp del: compile.simps)
next
  case (Cons x xs)
  from Cons.prems have here: "k (MState p ((x # xs) @ r) c) = None"
    by (metis drop0 length_greater_0_conv list.distinct(1))
  have "\<forall>i < length xs. \<forall>q. k (MState q (drop i xs @ r) c) = None"
  proof (intro allI impI)
    fix i q
    assume "i < length xs"
    then have "Suc i < length (x # xs)" by simp
    with Cons.prems have "k (MState q (drop (Suc i) (x # xs) @ r) c) = None" by blast
    then show "k (MState q (drop i xs @ r) c) = None" by simp
  qed
  from Cons.IH[OF this, of "Some x"] obtain q where
    q: "repeatMatcher (compile False AnyCh) [] 0 None False k (MState (Some x) (xs @ r) c)
          = repeatMatcher (compile False AnyCh) [] 0 None False k (MState q r c)" by blast
  have "repeatMatcher (compile False AnyCh) [] 0 None False k (MState p ((x # xs) @ r) c)
          = repeatMatcher (compile False AnyCh) [] 0 None False k (MState (Some x) (xs @ r) c)"
    using here by (subst lazy_step) (simp del: compile.simps)
  with q show ?case by (intro exI[of _ q]) (simp del: compile.simps)
qed

lemma lazy_found:
  "k (MState q r c) = Some z \<Longrightarrow>
     repeatMatcher (compile False AnyCh) [] 0 None False k (MState q r c) = Some z"
  by (subst lazy_step) (simp del: compile.simps)

lemma tag_here:
  assumes "\<forall>i < length inner. \<not> startsWith (drop i inner @ closer @ post) closer"
  shows "matchHere (tagRegex opener closer) n p (opener @ inner @ closer @ post)
           = Some \<lparr>mindex = n, mtext = opener @ inner @ closer, mgroups = [Some inner]\<rparr>"
proof -
  let ?s1 = "MState (if opener = [] then p else Some (last opener)) (inner @ closer @ post) []"
  let ?k = "\<lambda>y. catMatcher (map (compile False) [Lit closer]) Some (closeGroup 1 ?s1 y)"
  have fails: "\<forall>i < length inner. \<forall>q. ?k (MState q (drop i inner @ closer @ post) []) = None"
  proof (intro allI impI)
    fix i q
    assume "i < length inner"
    with assms have "\<not> startsWith (drop i inner @ closer @ post) closer" by blast
    from litMatch_fail[OF this] show "?k (MState q (drop i inner @ closer @ post) []) = None"
      by (simp add: closeGroup_def)
  qed
  have found: "?k (MState q (closer @ post) [])
                 = Some (MState (if closer = [] then q else Some (last closer)) post [(1, inner)])"
    for q
    by (simp add: closeGroup_def litMatch_prefix)
  from lazy_skip[OF fails, of "if opener = [] then p else Some (last opener)"] obtain q where
    "repeatMatcher (compile False AnyCh) [] 0 None False ?k ?s1
       = repeatMatcher (compile False AnyCh) [] 0 None False ?k (MState q (closer @ post) [])"
    by blast
  with lazy_found[of ?k q "closer @ post" "[]", OF found]
  have star: "repeatMatcher (compile False AnyCh) [] 0 None False ?k ?s1
       = Some (MState (if closer = [] then q else Some (last closer)) post [(1, inner)])"
    by simp
  have "compile False (Cat [Lit opener, Grp 1 (StarLazy AnyCh), Lit closer]) Some
          (MState p (opener @ inner @ closer @ post) [])
        = repeatMatcher (compile False AnyCh) [] 0 None False ?k ?s1"
    by (simp add: litMatch_prefix del: compile.simps(3))
  with star show ?thesis
    by (simp add: matchHere_def tagRegex_def rx_def mkMatch_def nGroups_def
        del: compile.simps)
qed

lemma tag_not_here:
  "\<not> startsWith s opener \<Longrightarrow> matchHere (tagRegex opener closer) n p s = None"
  by (simp add: matchHere_def tagRegex_def rx_def litMatch_fail)

lemma execFrom_here: "matchHere re n p s = Some m \<Longrightarrow> execFrom re n p s = Some m"
  by (cases s) simp_all

lemma tag_exec:
  assumes "\<forall>i < length pre. \<not> startsWith (drop i pre @ opener @ inner @ closer @ post) opener"
    and "\<forall>i < length inner. \<not> startsWith (drop i inner @ closer @ post) closer"
  shows "execFrom (tagRegex opener closer) n p (pre @ opener @ inner @ closer @ post)
           = Some \<lparr>mindex = n + length pre, mtext = opener @ inner @ closer,
                   mgroups = [Some inner]\<rparr>"
  using assms(1)
proof (induction pre arbitrary: n p)
  case Nil
  from tag_here[OF assms(2), where opener = opener and n = n and p = p] show ?case
    by (simp add: execFrom_here)
next
  case (Cons x pre)
  from Cons.prems have "\<not> startsWith ((x # pre) @ opener @ inner @ closer @ post) opener"
    by (metis drop0 length_greater_0_conv list.distinct(1))
  from tag_not_here[OF this] have here:
    "matchHere (tagRegex opener closer) n p (x # pre @ opener @ inner @ closer @ post) = None"
    by simp
  have "\<forall>i < length pre. \<not> startsWith (drop i pre @ opener @ inner @ closer @ post) opener"
  proof (intro allI impI)
    fix i
    assume "i < length pre"
    then have "Suc i < length (x # pre)" by simp
    with Cons.prems
    have "\<not> startsWith (drop (Suc i) (x # pre) @ opener @ inner @ closer @ post) opener"
      by blast
    then show "\<not> startsWith (drop i pre @ opener @ inner @ closer @ post) opener" by simp
  qed
  from Cons.IH[OF this, of "Suc n" "Some x"] here show ?case by simp
qed

lemma tag_absent:
  "\<not> strIncludes s opener \<Longrightarrow> execFrom (tagRegex opener closer) n p s = None"
proof (induction s arbitrary: n p)
  case Nil
  then have "\<not> startsWith [] opener" by (cases opener) auto
  from tag_not_here[OF this] show ?case by simp
next
  case (Cons x xs)
  then have "\<not> startsWith (x # xs) opener" "\<not> strIncludes xs opener" by auto
  with tag_not_here[of "x # xs" opener] Cons.IH show ?case by simp
qed

lemma firstGroup_tag:
  assumes "\<forall>i < length pre. \<not> startsWith (drop i pre @ opener @ inner @ closer @ post) opener"
    and "\<forall>i < length inner. \<not> startsWith (drop i inner @ closer @ post) closer"
  shows "firstGroup (pre @ opener @ inner @ closer @ post) (tagRegex opener closer)
           = (if inner = [] then None else Some inner)"
  using tag_exec[OF assms, of 0 None] by (simp add: firstGroup_def regexMatch_def)

lemma firstGroup_absent:
  "\<not> strIncludes s opener \<Longrightarrow> firstGroup s (tagRegex opener closer) = None"
  by (simp add: firstGroup_def regexMatch_def tag_absent)

lemma tagPattern_form: "tagPattern = tagRegex architectureOpen architectureClose"
  by (simp add: tagPattern_def tagRegex_def architectureOpen_def architectureClose_def)

lemma explanationRegex_form: "explanationRegex = tagRegex explanationOpen explanationClose"
  by (simp add: explanationRegex_def tagRegex_def explanationOpen_def explanationClose_def)

subsection \<open>The first block between two tags\<close>

lemma indexOfFrom_absent: "\<not> strIncludes s sub \<Longrightarrow> indexOfFrom i s sub = -1"
  by (induction s arbitrary: i) auto

lemma not_includes_suffix: "\<not> strIncludes s sub \<Longrightarrow> \<not> startsWith (drop i s) sub"
proof (induction s arbitrary: i)
  case Nil
  then show ?case by (cases sub) auto
next
  case (Cons c cs)
  then show ?case by (cases i) auto
qed

lemma includes_drop: "strIncludes (drop i s) sub \<Longrightarrow> strIncludes s sub"
proof (induction s arbitrary: i)
  case Nil
  then show ?case by simp
next
  case (Cons c cs)
  then show ?case by (cases i) auto
qed

lemma lazy_none:
  assumes "\<forall>i q. k (MState q (drop i s) c) = None"
  shows "repeatMatcher (compile False AnyCh) [] 0 None False k (MState p s c) = None"
  using assms
proof (induction s arbitrary: p)
  case Nil
  then have "k (MState p [] c) = None" by (metis drop_Nil)
  then show ?case by (subst lazy_step) (simp del: compile.simps)
next
  case (Cons x xs)
  from Cons.prems have here: "k (MState p (x # xs) c) = None" by (metis drop0)
  have "\<forall>i q. k (MState q (drop i xs) c) = None"
  proof (intro allI)
    fix i q
    from Cons.prems have "k (MState q (drop (Suc i) (x # xs)) c) = None" by blast
    then show "k (MState q (drop i xs) c) = None" by simp
  qed
  from Cons.IH[OF this] here show ?case
    by (subst lazy_step) (simp del: compile.simps)
qed

lemma tag_here_none:
  assumes "\<not> strIncludes t closer"
  shows "matchHere (tagRegex opener closer) n p (opener @ t) = None"
proof -
  let ?s1 = "MState (if opener = [] then p else Some (last opener)) t []"
  let ?k = "\<lambda>y. catMatcher (map (compile False) [Lit closer]) Some (closeGroup 1 ?s1 y)"
  have "\<forall>i q. ?k (MState q (drop i t) []) = None"
  proof (intro allI)
    fix i q
    from not_includes_suffix[OF assms] have "\<not> startsWith (drop i t) closer" .
    from litMatch_fail[OF this] show "?k (MState q (drop i t) []) = None"
      by (simp add: closeGroup_def)
  qed
  from lazy_none[OF this]
  have star: "repeatMatcher (compile False AnyCh) [] 0 None False ?k ?s1 = None" .
  have "compile False (Cat [Lit opener, Grp 1 (StarLazy AnyCh), Lit closer]) Some
          (MState p (opener @ t) [])
        = repeatMatcher (compile False AnyCh) [] 0 None False ?k ?s1"
    by (simp add: litMatch_prefix del: compile.simps(3))
  with star show ?thesis
    by (simp add: matchHere_def tagRegex_def rx_def del: compile.simps)
qed

lemma startsWith_split: "startsWith s sub \<Longrightarrow> s = sub @ drop (length sub) s"
  by (induction s sub rule: startsWith.induct) auto

lemma tag_exec_none:
  assumes "\<forall>i. startsWith (drop i s) opener \<longrightarrow> \<not> strIncludes (drop (i + length opener) s) closer"
  shows "execFrom (tagRegex opener closer) n p s = None"
  using assms
proof (induction s arbitrary: n p)
  case Nil
  show ?case
  proof (cases "startsWith [] opener")
    case True
    then have o: "opener = []" by (cases opener) auto
    with Nil True have "\<not> strIncludes [] closer" by (metis drop_Nil)
    from tag_here_none[OF this, of opener n p] o show ?thesis by simp
  next
    case False
    from tag_not_here[OF this] show ?thesis by simp
  qed
next
  case (Cons x xs)
  have here: "matchHere (tagRegex opener closer) n p (x # xs) = None"
  proof (cases "startsWith (x # xs) opener")
    case True
    with Cons.prems have "\<not> strIncludes (drop (0 + length opener) (x # xs)) closer"
      by (metis drop0)
    then have "\<not> strIncludes (drop (length opener) (x # xs)) closer" by simp
    from tag_here_none[OF this, of opener n p] startsWith_split[OF True] show ?thesis by simp
  next
    case False
    from tag_not_here[OF this] show ?thesis .
  qed
  have "\<forall>i. startsWith (drop i xs) opener \<longrightarrow> \<not> strIncludes (drop (i + length opener) xs) closer"
  proof (intro allI impI)
    fix i
    assume "startsWith (drop i xs) opener"
    then have "startsWith (drop (Suc i) (x # xs)) opener" by simp
    with Cons.prems have "\<not> strIncludes (drop (Suc i + length opener) (x # xs)) closer" by blast
    then show "\<not> strIncludes (drop (i + length opener) xs) closer" by simp
  qed
  from Cons.IH[OF this, of "Suc n" "Some x"] here show ?case by simp
qed

lemma firstGroup_firstBlock:
  "firstGroup s (tagRegex opener closer) = nonEmpty (firstBlock opener closer s)"
proof (cases "strIncludes s opener")
  case False
  then have "indexOf s opener = -1" by (simp add: indexOf_def indexOfFrom_absent)
  with firstGroup_absent[OF False] show ?thesis by (simp add: firstBlock_def nonEmpty_def)
next
  case True
  from indexOfFrom_first[OF True, of 0] obtain pre after where
    s: "s = pre @ opener @ after" and i: "indexOf s opener = int (length pre)"
    and f: "\<forall>k < length pre. \<not> startsWith (drop k s) opener"
    unfolding indexOf_def by auto
  have a: "drop (length pre + length opener) s = after"
    by (subst s) simp
  show ?thesis
  proof (cases "strIncludes after closer")
    case False
    then have n: "indexOf after closer = -1" by (simp add: indexOf_def indexOfFrom_absent)
    have "\<forall>j. startsWith (drop j s) opener \<longrightarrow> \<not> strIncludes (drop (j + length opener) s) closer"
    proof (intro allI impI)
      fix j
      assume st: "startsWith (drop j s) opener"
      with f have "\<not> j < length pre" by blast
      then have "drop (j + length opener) s = drop (j - length pre) after"
        by (subst s) simp
      with False includes_drop[of "j - length pre" after closer]
      show "\<not> strIncludes (drop (j + length opener) s) closer" by auto
    qed
    from tag_exec_none[OF this, of 0 None] have "firstGroup s (tagRegex opener closer) = None"
      by (simp add: firstGroup_def regexMatch_def)
    then show ?thesis by (simp add: firstBlock_def Let_def i a n nonEmpty_def)
  next
    case True
    from indexOfFrom_first[OF True, of 0] obtain inner post where
      r: "after = inner @ closer @ post" and j: "indexOf after closer = int (length inner)"
      and g: "\<forall>k < length inner. \<not> startsWith (drop k after) closer"
      unfolding indexOf_def by auto
    have f': "\<forall>k < length pre. \<not> startsWith (drop k pre @ opener @ inner @ closer @ post) opener"
      using f unfolding s r by simp
    have g': "\<forall>k < length inner. \<not> startsWith (drop k inner @ closer @ post) closer"
      using g unfolding r by simp
    from firstGroup_tag[OF f' g']
    have "firstGroup s (tagRegex opener closer) = (if inner = [] then None else Some inner)"
      unfolding s r .
    moreover have "firstBlock opener closer s = Some inner"
      by (simp add: firstBlock_def Let_def i a j) (simp add: r)
    ultimately show ?thesis by (simp add: nonEmpty_def)
  qed
qed

subsection \<open>The loop over the patterns\<close>

lemma tryPatterns_some:
  "tryPatterns ps raw = Some v \<Longrightarrow> \<exists>p \<in> set ps. candidate raw p = Some v"
  by (induction ps) (auto split: option.splits)

lemma tryPatterns_none:
  "(tryPatterns ps raw = None) = (\<forall>p \<in> set ps. candidate raw p = None)"
  by (induction ps) (auto split: option.splits)

lemma tryPatterns_first:
  "\<forall>q \<in> set before. candidate raw q = None \<Longrightarrow> candidate raw p = Some v \<Longrightarrow>
     tryPatterns (before @ p # others) raw = Some v"
  by (induction before) auto

lemma validArchitecture_shape:
  "validArchitecture v =
     (\<exists>ps ns es. v = JObj ps \<and> map_of ps ''nodes'' = Some (JArr ns)
        \<and> map_of ps ''edges'' = Some (JArr es))"
proof (cases v)
  case (JObj ps)
  have "isArray x = (\<exists>xs. x = Some (JArr xs))" for x
    by (cases x rule: isArray.cases) auto
  with JObj show ?thesis by auto
qed auto

lemma candidate_some:
  "(candidate raw p = Some v) =
     (\<exists>g. firstGroup raw p = Some g
        \<and> JSON_parse (replaceAll (trim g) artifactPattern []) = Some v \<and> validArchitecture v)"
  by (auto simp: candidate_def Let_def split: option.splits if_splits)

lemma firstGroup_nonempty: "firstGroup raw p = Some g \<Longrightarrow> g \<noteq> []"
  by (auto simp: firstGroup_def split: option.splits if_splits)

lemma substring_from_start: "substring s 0 (int n) = take n s"
  by (simp add: substring_def Let_def min_def)

lemma explanationOf_cases:
  "explanationOf raw =
     (case nonEmpty (firstBlock explanationOpen explanationClose raw) of
        Some g \<Rightarrow> trim g
      | None \<Rightarrow>
          (let cleaned = trim (cleanedResponseOf raw);
               chosen = (if cleaned = [] then ''Architecture updated.'' else cleaned)
           in if 1500 < length chosen then take 1500 chosen @ ''...'' else chosen))"
proof -
  have "substring s 0 1500 = take 1500 s" for s
    using substring_from_start[of s 1500] by simp
  then show ?thesis
    by (simp add: explanationOf_def explanationRegex_form firstGroup_firstBlock Let_def
        split: option.splits)
qed

text \<open>
  C3. \<^verbatim>\<open>processArchitectureUpdate\<close> returns an architecture only if it is an object whose
  \<^verbatim>\<open>nodes\<close> and \<^verbatim>\<open>edges\<close> are arrays and one of the four patterns, matched against the
  raw response, captures a non-empty text that, trimmed and freed of fence artifacts,
  parses to it; it returns \<^verbatim>\<open>null\<close> exactly when no pattern yields such a value, and
  otherwise the value of the first pattern, in their order, that yields one. What
  the first pattern captures is the text between the first \<^verbatim>\<open><architecture>\<close> and the
  first \<^verbatim>\<open></architecture>\<close> after it; when that text is not empty and parses to such an
  object, this object is returned. The explanation is the trimmed text between the first
  \<^verbatim>\<open><explanation>\<close> and the first \<^verbatim>\<open></explanation>\<close> after it when that text is not
  empty (the trimmed text may be); otherwise it is the trimmed response without the first
  match of each of the four patterns, or \<^verbatim>\<open>Architecture updated.\<close> when nothing is left,
  cut after 1500 characters with three dots appended when it is longer.
\<close>

theorem processArchitectureUpdate_result:
  "(\<forall>v. parsedArchitecture (processArchitectureUpdate raw) = Some v \<longrightarrow>
        (\<exists>ps ns es. v = JObj ps \<and> map_of ps ''nodes'' = Some (JArr ns)
           \<and> map_of ps ''edges'' = Some (JArr es))
        \<and> (\<exists>pattern \<in> set patterns. \<exists>g. firstGroup raw pattern = Some g \<and> g \<noteq> []
               \<and> JSON_parse (replaceAll (trim g) artifactPattern []) = Some v))
   \<and> ((parsedArchitecture (processArchitectureUpdate raw) = None)
        = (\<forall>pattern \<in> set patterns. candidate raw pattern = None))
   \<and> (\<forall>before pattern others v.
          patterns = before @ pattern # others
          \<and> (\<forall>q \<in> set before. candidate raw q = None)
          \<and> candidate raw pattern = Some v
        \<longrightarrow> parsedArchitecture (processArchitectureUpdate raw) = Some v)
   \<and> (\<forall>pattern v. (candidate raw pattern = Some v) =
          (\<exists>g. firstGroup raw pattern = Some g
             \<and> JSON_parse (replaceAll (trim g) artifactPattern []) = Some v
             \<and> validArchitecture v))
   \<and> firstGroup raw tagPattern = nonEmpty (firstBlock architectureOpen architectureClose raw)
   \<and> (\<forall>g v. nonEmpty (firstBlock architectureOpen architectureClose raw) = Some g
          \<and> JSON_parse (replaceAll (trim g) artifactPattern []) = Some v
          \<and> validArchitecture v
        \<longrightarrow> parsedArchitecture (processArchitectureUpdate raw) = Some v)
   \<and> (\<forall>g. nonEmpty (firstBlock explanationOpen explanationClose raw) = Some g \<longrightarrow>
          explanation (processArchitectureUpdate raw) = trim g)
   \<and> (nonEmpty (firstBlock explanationOpen explanationClose raw) = None \<longrightarrow>
          explanation (processArchitectureUpdate raw) =
            (let cleaned = trim (cleanedResponseOf raw);
                 chosen = (if cleaned = [] then ''Architecture updated.'' else cleaned)
             in if 1500 < length chosen then take 1500 chosen @ ''...'' else chosen))"
proof -
  let ?r = "processArchitectureUpdate raw"
  have p: "parsedArchitecture ?r = tryPatterns patterns raw"
    and e: "explanation ?r = explanationOf raw"
    by (simp_all add: processArchitectureUpdate_def)
  have a: "\<forall>v. parsedArchitecture ?r = Some v \<longrightarrow>
        (\<exists>ps ns es. v = JObj ps \<and> map_of ps ''nodes'' = Some (JArr ns)
           \<and> map_of ps ''edges'' = Some (JArr es))
        \<and> (\<exists>pattern \<in> set patterns. \<exists>g. firstGroup raw pattern = Some g \<and> g \<noteq> []
               \<and> JSON_parse (replaceAll (trim g) artifactPattern []) = Some v)"
  proof (intro allI impI)
    fix v
    assume "parsedArchitecture ?r = Some v"
    with p tryPatterns_some[of patterns raw v] obtain pattern where
      m: "pattern \<in> set patterns" and c: "candidate raw pattern = Some v" by auto
    from c obtain g where g: "firstGroup raw pattern = Some g"
      "JSON_parse (replaceAll (trim g) artifactPattern []) = Some v" "validArchitecture v"
      unfolding candidate_some by blast
    from g(3) have "\<exists>ps ns es. v = JObj ps \<and> map_of ps ''nodes'' = Some (JArr ns)
           \<and> map_of ps ''edges'' = Some (JArr es)"
      by (simp add: validArchitecture_shape)
    moreover from m g(1,2) firstGroup_nonempty[OF g(1)]
    have "\<exists>pattern \<in> set patterns. \<exists>g. firstGroup raw pattern = Some g \<and> g \<noteq> []
               \<and> JSON_parse (replaceAll (trim g) artifactPattern []) = Some v"
      by blast
    ultimately show "(\<exists>ps ns es. v = JObj ps \<and> map_of ps ''nodes'' = Some (JArr ns)
           \<and> map_of ps ''edges'' = Some (JArr es))
        \<and> (\<exists>pattern \<in> set patterns. \<exists>g. firstGroup raw pattern = Some g \<and> g \<noteq> []
               \<and> JSON_parse (replaceAll (trim g) artifactPattern []) = Some v)"
      by (rule conjI)
  qed
  have b: "(parsedArchitecture ?r = None)
        = (\<forall>pattern \<in> set patterns. candidate raw pattern = None)"
    unfolding p by (rule tryPatterns_none)
  have b': "\<forall>before pattern others v.
          patterns = before @ pattern # others
          \<and> (\<forall>q \<in> set before. candidate raw q = None)
          \<and> candidate raw pattern = Some v
        \<longrightarrow> parsedArchitecture ?r = Some v"
    unfolding p using tryPatterns_first by metis
  have c: "\<forall>pattern v. (candidate raw pattern = Some v) =
          (\<exists>g. firstGroup raw pattern = Some g
             \<and> JSON_parse (replaceAll (trim g) artifactPattern []) = Some v
             \<and> validArchitecture v)"
    using candidate_some by blast
  have d: "firstGroup raw tagPattern
             = nonEmpty (firstBlock architectureOpen architectureClose raw)"
    unfolding tagPattern_form by (rule firstGroup_firstBlock)
  have f: "\<forall>g v. nonEmpty (firstBlock architectureOpen architectureClose raw) = Some g
          \<and> JSON_parse (replaceAll (trim g) artifactPattern []) = Some v
          \<and> validArchitecture v
        \<longrightarrow> parsedArchitecture ?r = Some v"
  proof (intro allI impI)
    fix g v
    assume h: "nonEmpty (firstBlock architectureOpen architectureClose raw) = Some g
          \<and> JSON_parse (replaceAll (trim g) artifactPattern []) = Some v
          \<and> validArchitecture v"
    with d have "candidate raw tagPattern = Some v"
      unfolding candidate_some by auto
    then show "parsedArchitecture ?r = Some v"
      unfolding p by (simp add: patterns_def)
  qed
  have g: "\<forall>g. nonEmpty (firstBlock explanationOpen explanationClose raw) = Some g \<longrightarrow>
          explanation ?r = trim g"
    unfolding e by (simp add: explanationOf_cases)
  have h: "nonEmpty (firstBlock explanationOpen explanationClose raw) = None \<longrightarrow>
          explanation ?r =
            (let cleaned = trim (cleanedResponseOf raw);
                 chosen = (if cleaned = [] then ''Architecture updated.'' else cleaned)
             in if 1500 < length chosen then take 1500 chosen @ ''...'' else chosen)"
    unfolding e by (simp add: explanationOf_cases)
  from a b b' c d f g h show ?thesis by (intro conjI)
qed

text \<open>A response with both tags, as the prompt asks for it.\<close>

lemma taggedResponse_architecture:
  "nonEmpty (firstBlock architectureOpen architectureClose taggedResponse)
     = Some ('' '' @ nestedArchitectureText @ '' '')"
  by code_simp

lemma taggedResponse_parse:
  "JSON_parse (replaceAll (trim ('' '' @ nestedArchitectureText @ '' '')) artifactPattern [])
     = Some (JObj [(''nodes'', JArr []), (''edges'', JArr [JObj []])])"
  by code_simp

lemma taggedResponse_explanation:
  "nonEmpty (firstBlock explanationOpen explanationClose taggedResponse) = Some '' - a ''
   \<and> trim '' - a '' = ''- a''"
  by code_simp

theorem processArchitectureUpdate_result_witness:
  "nonEmpty (firstBlock architectureOpen architectureClose taggedResponse)
     = Some ('' '' @ nestedArchitectureText @ '' '')
   \<and> validArchitecture (JObj [(''nodes'', JArr []), (''edges'', JArr [JObj []])])
   \<and> parsedArchitecture (processArchitectureUpdate taggedResponse)
       = Some (JObj [(''nodes'', JArr []), (''edges'', JArr [JObj []])])
   \<and> candidate taggedResponse tagPattern
       = Some (JObj [(''nodes'', JArr []), (''edges'', JArr [JObj []])])
   \<and> explanation (processArchitectureUpdate taggedResponse) = ''- a''"
proof -
  note t = processArchitectureUpdate_result[of taggedResponse]
  let ?v = "JObj [(''nodes'', JArr []), (''edges'', JArr [JObj []])]"
  let ?g = "'' '' @ nestedArchitectureText @ '' ''"
  have v: "validArchitecture ?v" by simp
  from t have f: "\<forall>g v. nonEmpty (firstBlock architectureOpen architectureClose taggedResponse) = Some g
          \<and> JSON_parse (replaceAll (trim g) artifactPattern []) = Some v
          \<and> validArchitecture v
        \<longrightarrow> parsedArchitecture (processArchitectureUpdate taggedResponse) = Some v"
    by (elim conjE)
  from t have c: "\<forall>pattern v. (candidate taggedResponse pattern = Some v) =
          (\<exists>g. firstGroup taggedResponse pattern = Some g
             \<and> JSON_parse (replaceAll (trim g) artifactPattern []) = Some v
             \<and> validArchitecture v)"
    by (elim conjE)
  from t have d: "firstGroup taggedResponse tagPattern
             = nonEmpty (firstBlock architectureOpen architectureClose taggedResponse)"
    by (elim conjE)
  from t have e: "\<forall>g. nonEmpty (firstBlock explanationOpen explanationClose taggedResponse) = Some g
          \<longrightarrow> explanation (processArchitectureUpdate taggedResponse) = trim g"
    by (elim conjE)
  have p: "parsedArchitecture (processArchitectureUpdate taggedResponse) = Some ?v"
    by (rule f[rule_format, of ?g ?v]) (intro conjI taggedResponse_architecture taggedResponse_parse v)
  have "firstGroup taggedResponse tagPattern = Some ?g"
    unfolding d by (rule taggedResponse_architecture)
  with taggedResponse_parse v
  have "\<exists>g. firstGroup taggedResponse tagPattern = Some g
             \<and> JSON_parse (replaceAll (trim g) artifactPattern []) = Some ?v
             \<and> validArchitecture ?v"
    by (intro exI[of _ ?g] conjI)
  then have c': "candidate taggedResponse tagPattern = Some ?v"
    unfolding c[rule_format, of tagPattern ?v] .
  have "explanation (processArchitectureUpdate taggedResponse) = trim '' - a ''"
    by (rule e[rule_format]) (rule conjunct1[OF taggedResponse_explanation])
  then have e': "explanation (processArchitectureUpdate taggedResponse) = ''- a''"
    unfolding conjunct2[OF taggedResponse_explanation] .
  from taggedResponse_architecture v p c' e' show ?thesis by (intro conjI)
qed

text \<open>
  The claim as it stands returns the architecture of any \<^verbatim>\<open><architecture>\<close> block whose
  content is a valid architecture. In the response below the second block has such a
  content, with an object inside the array of edges; the first block does not parse, the
  last pattern stops at the first closing brace, and the result is \<^verbatim>\<open>null\<close>.
\<close>

theorem second_block_counterexample:
  "twoTagBlocks = architectureOpen @ ''x'' @ architectureClose
                   @ architectureOpen @ nestedArchitectureText @ architectureClose
   \<and> JSON_parse nestedArchitectureText
       = Some (JObj [(''nodes'', JArr []), (''edges'', JArr [JObj []])])
   \<and> validArchitecture (JObj [(''nodes'', JArr []), (''edges'', JArr [JObj []])])
   \<and> parsedArchitecture (processArchitectureUpdate twoTagBlocks) = None"
  by code_simp

section \<open>The request handler\<close>

lemma firstLanguage_named:
  "firstLanguage tests m = Some l \<Longrightarrow> l \<in> snd ` set tests"
  by (induction tests m rule: firstLanguage.induct) (auto split: if_splits)

lemma detectProgrammingLanguage_nonempty:
  assumes "detectProgrammingLanguage message = Some l"
  shows "l \<noteq> []"
proof (cases "firstLanguage languageTests (toLowerCase message)")
  case None
  with assms have "l = ''typescript''"
    by (simp add: detectProgrammingLanguage_def Let_def split: if_splits)
  then show ?thesis by simp
next
  case (Some l')
  with assms have "l = l'" by (simp add: detectProgrammingLanguage_def Let_def)
  with firstLanguage_named[OF Some] have "l \<in> snd ` set languageTests" by simp
  then show ?thesis by (auto simp: languageTests_def)
qed

lemma targetLanguage_cases:
  "stringOr (detectProgrammingLanguage message) ''typescript''
     = (case detectProgrammingLanguage message of None \<Rightarrow> ''typescript'' | Some l \<Rightarrow> l)"
  using detectProgrammingLanguage_nonempty[of message]
  by (auto simp: stringOr_def split: option.splits)

lemma plain_intent_request:
  assumes "getContextLevelForIntent (intentType intent) = LevelNone"
    and "intentType intent \<noteq> Architecture_rationale"
  shows "\<exists>aiPrompt. generateAIPrompt intent message architecture targetLanguage = Inr aiPrompt"
proof -
  have c: "generateContextString architecture LevelNone = Inr []"
    by (simp add: generateContextString_def)
  from assms show ?thesis
    by (cases "intentType intent") (simp_all add: generateAIPrompt_def c bindE_Inr Let_def)
qed

text \<open>
  C5. For a message whose detected intent is not \<^verbatim>\<open>architecture_update\<close>: when the
  model is called, with the options \<open>request\<close>, and answers \<open>rawModelOutput\<close>, the handler
  returns \<^verbatim>\<open>architectureUpdated = false\<close>, no updated architecture, and the response
  \<^verbatim>\<open>postProcessResponse(intent, rawModelOutput, language)\<close>, where the intent is that of
  \<^verbatim>\<open>detectEnhancedIntent(message, true)\<close>, which is that of \<^verbatim>\<open>inferIntent(message, true)\<close>,
  and the language is the detected one, or \<^verbatim>\<open>typescript\<close> when none is detected. The
  model is called with the message and, as its prompt context, the prompt that
  \<^verbatim>\<open>generateAIPrompt\<close> makes of the intent, the message, the architecture and the
  language. The handler is thus the composition of the stages. When the prompt cannot be
  made, or the call of the model fails, the answer is the error result; for a greeting
  and for general chat the prompt can always be made.
\<close>

theorem processJarvisRequest_pipeline:
  "(let enhancedIntent = detectEnhancedIntent message True;
        intent = intentType enhancedIntent;
        language = (case detectProgrammingLanguage message of
                      None \<Rightarrow> ''typescript'' | Some l \<Rightarrow> l)
    in intent = inferIntent message True
       \<and> (\<forall>request rawModelOutput.
             intent \<noteq> Architecture_update
             \<and> modelRequest envModel message architecture = Inr request
             \<and> generate request = Inr rawModelOutput
           \<longrightarrow> processJarvisRequest generate envModel message architecture
                 = \<lparr>response = postProcessResponse intent rawModelOutput (Some language),
                    architectureUpdated = False, updatedArchitecture = None\<rparr>)
       \<and> (\<forall>request. modelRequest envModel message architecture = Inr request \<longrightarrow>
             chatMessage request = message
             \<and> generateAIPrompt enhancedIntent message architecture language
                 = Inr (promptContext request))
       \<and> (\<forall>request error.
             modelRequest envModel message architecture = Inr request
             \<and> generate request = Inl error
           \<longrightarrow> processJarvisRequest generate envModel message architecture = errorResult)
       \<and> (\<forall>error. modelRequest envModel message architecture = Inl error \<longrightarrow>
             processJarvisRequest generate envModel message architecture = errorResult)
       \<and> (intent \<in> {Greeting, General_chat} \<longrightarrow>
             (\<exists>request. modelRequest envModel message architecture = Inr request)))"
proof -
  let ?e = "detectEnhancedIntent message True"
  let ?l = "case detectProgrammingLanguage message of None \<Rightarrow> ''typescript'' | Some l \<Rightarrow> l"
  let ?req = "\<lambda>aiPrompt. \<lparr>chatModel = stringOr envModel ''command-r-plus'',
           chatMessage = message,
           promptContext = aiPrompt,
           chatTemperature =
             (if strIncludes (intentString (intentType ?e)) ''code'' then 5 / 10 else 7 / 10),
           maxTokens = 2000\<rparr>"
  have m: "modelRequest envModel message architecture
             = bindE (generateAIPrompt ?e message architecture ?l) (\<lambda>aiPrompt. Inr (?req aiPrompt))"
    by (simp add: modelRequest_def Let_def targetLanguage_cases)
  have p: "processJarvisRequest generate envModel message architecture
             = (case generateAIPrompt ?e message architecture ?l of
                  Inl error \<Rightarrow> errorResult
                | Inr aiPrompt \<Rightarrow>
                    (case generate (?req aiPrompt) of
                       Inl error \<Rightarrow> errorResult
                     | Inr rawResponse \<Rightarrow> processResponse (intentType ?e) rawResponse ?l))"
    by (simp add: processJarvisRequest_def Let_def targetLanguage_cases)
  have a: "intentType ?e = inferIntent message True"
    by (rule detectEnhancedIntent_intentType)
  have b: "\<forall>request rawModelOutput.
             intentType ?e \<noteq> Architecture_update
             \<and> modelRequest envModel message architecture = Inr request
             \<and> generate request = Inr rawModelOutput
           \<longrightarrow> processJarvisRequest generate envModel message architecture
                 = \<lparr>response = postProcessResponse (intentType ?e) rawModelOutput (Some ?l),
                    architectureUpdated = False, updatedArchitecture = None\<rparr>"
    unfolding m p by (auto simp: bindE_eq_Inr processResponse_def)
  have c: "\<forall>request. modelRequest envModel message architecture = Inr request \<longrightarrow>
             chatMessage request = message
             \<and> generateAIPrompt ?e message architecture ?l = Inr (promptContext request)"
    unfolding m by (auto simp: bindE_eq_Inr)
  have d: "\<forall>request error.
             modelRequest envModel message architecture = Inr request
             \<and> generate request = Inl error
           \<longrightarrow> processJarvisRequest generate envModel message architecture = errorResult"
    unfolding m p by (auto simp: bindE_eq_Inr)
  have e: "\<forall>error. modelRequest envModel message architecture = Inl error \<longrightarrow>
             processJarvisRequest generate envModel message architecture = errorResult"
    unfolding m p by (cases "generateAIPrompt ?e message architecture ?l") (auto simp: bindE_def)
  have f: "intentType ?e \<in> {Greeting, General_chat} \<longrightarrow>
             (\<exists>request. modelRequest envModel message architecture = Inr request)"
  proof
    assume "intentType ?e \<in> {Greeting, General_chat}"
    then have "getContextLevelForIntent (intentType ?e) = LevelNone"
      "intentType ?e \<noteq> Architecture_rationale" by auto
    from plain_intent_request[OF this, of message architecture ?l] obtain aiPrompt where
      "generateAIPrompt ?e message architecture ?l = Inr aiPrompt" by blast
    then show "\<exists>request. modelRequest envModel message architecture = Inr request"
      unfolding m by (simp add: bindE_Inr)
  qed
  from a b c d e f show ?thesis unfolding Let_def by (intro conjI)
qed

text \<open>A greeting, answered by a model that says hello.\<close>

lemma hi_intent: "inferIntent ''hi'' True = Greeting"
  by code_simp

lemma hi_language: "detectProgrammingLanguage ''hi'' = None"
  by code_simp

theorem processJarvisRequest_pipeline_witness:
  "intentType (detectEnhancedIntent ''hi'' True) = Greeting
   \<and> (\<exists>request. modelRequest None ''hi'' bareArchitecture = Inr request
         \<and> (\<lambda>r. Inr '' hello '' :: unit + string) request = Inr '' hello '')
   \<and> processJarvisRequest (\<lambda>r. Inr '' hello '' :: unit + string) None ''hi'' bareArchitecture
       = \<lparr>response = ''hello'', architectureUpdated = False, updatedArchitecture = None\<rparr>"
proof -
  let ?g = "\<lambda>r :: CohereChatOptions. Inr '' hello '' :: unit + string"
  note t = processJarvisRequest_pipeline[of "''hi''" None bareArchitecture ?g, unfolded Let_def]
  from t have i: "intentType (detectEnhancedIntent ''hi'' True) = Greeting"
    unfolding hi_intent by (elim conjE)
  from t have "intentType (detectEnhancedIntent ''hi'' True) \<in> {Greeting, General_chat} \<longrightarrow>
             (\<exists>request. modelRequest None ''hi'' bareArchitecture = Inr request)"
    by (elim conjE)
  with i obtain request where r: "modelRequest None ''hi'' bareArchitecture = Inr request"
    by auto
  from t have "\<forall>request rawModelOutput.
             intentType (detectEnhancedIntent ''hi'' True) \<noteq> Architecture_update
             \<and> modelRequest None ''hi'' bareArchitecture = Inr request
             \<and> ?g request = Inr rawModelOutput
           \<longrightarrow> processJarvisRequest ?g None ''hi'' bareArchitecture
                 = \<lparr>response = postProcessResponse (intentType (detectEnhancedIntent ''hi'' True))
                                 rawModelOutput
                                 (Some (case detectProgrammingLanguage ''hi'' of
                                          None \<Rightarrow> ''typescript'' | Some l \<Rightarrow> l)),
                    architectureUpdated = False, updatedArchitecture = None\<rparr>"
    by (elim conjE)
  from this[rule_format, of request "'' hello ''"] i r
  have "processJarvisRequest ?g None ''hi'' bareArchitecture
          = \<lparr>response = postProcessResponse Greeting '' hello '' (Some ''typescript''),
             architectureUpdated = False, updatedArchitecture = None\<rparr>"
    by (simp add: hi_language)
  moreover have "trim '' hello '' = ''hello''" by code_simp
  ultimately have p: "processJarvisRequest ?g None ''hi'' bareArchitecture
       = \<lparr>response = ''hello'', architectureUpdated = False, updatedArchitecture = None\<rparr>"
    by simp
  from r have "\<exists>request. modelRequest None ''hi'' bareArchitecture = Inr request
         \<and> ?g request = Inr '' hello ''" by auto
  with i p show ?thesis by (intro conjI)
qed

section \<open>The orchestrator and the session store\<close>

lemma orchestrate_store:
  "snd (orchestrateJarvisRequest generate envModel random st message architectureId
          architecture tNew tIntent tLast)
     = snd (updateSession (snd (getOrCreateSession st architectureId tNew)) architectureId
              \<lparr>updMessages = None,
               updIntent = Some (intentType (detectEnhancedIntent message True))\<rparr>
              tNew tIntent tLast)"
  by (simp add: orchestrateJarvisRequest_def Let_def split: prod.splits sum.splits)

lemma orchestrate_reply:
  "fst (orchestrateJarvisRequest generate envModel random st message architectureId
          architecture tNew tIntent tLast)
     = (case fst (updateSession (snd (getOrCreateSession st architectureId tNew)) architectureId
                    \<lparr>updMessages = None,
                     updIntent = Some (intentType (detectEnhancedIntent message True))\<rparr>
                    tNew tIntent tLast) of
          Inl error \<Rightarrow> fallbackResponse
        | Inr done \<Rightarrow>
            (case generateFollowupSuggestions random (detectEnhancedIntent message True)
                    architecture of
               Inl error \<Rightarrow> fallbackResponse
             | Inr suggestions \<Rightarrow>
                 \<lparr>jarvisResult = processJarvisRequest generate envModel message architecture,
                  responseMetadata =
                    \<lparr>metaIntent = intentType (detectEnhancedIntent message True),
                     subIntent = subType (detectEnhancedIntent message True),
                     metaConfidence = confidence (detectEnhancedIntent message True),
                     suggestedFollowups = Some suggestions\<rparr>\<rparr>))"
  by (simp add: orchestrateJarvisRequest_def Let_def split: prod.splits sum.splits)

lemma getOrCreateSession_slot:
  assumes "hasSessionSlot st k"
  shows "hasSessionSlot (snd (getOrCreateSession st k now)) k
         \<and> historyOf (snd (getOrCreateSession st k now)) k = historyOf st k
         \<and> (\<exists>s0. snd (getOrCreateSession st k now) = st\<lparr>ownSessions := (ownSessions st)(k \<mapsto> s0)\<rparr>)"
proof (cases "ownSessions st k")
  case None
  with assms have "\<not> lookupTruthy (lookupSession st k)" by (simp add: hasSessionSlot_def)
  from getOrCreateSession_creates[OF this, of now] obtain s0 where
    "getOrCreateSession st k now = (OwnSession s0, st\<lparr>ownSessions := (ownSessions st)(k \<mapsto> s0)\<rparr>)"
    "intents s0 = []" by blast
  with None show ?thesis by (auto simp: hasSessionSlot_def historyOf_def)
next
  case (Some s0)
  have "st = st\<lparr>ownSessions := (ownSessions st)(k \<mapsto> s0)\<rparr>"
    using Some by (simp add: fun_upd_idem)
  with getOrCreateSession_finds[OF Some, of now] assms show ?thesis
    by (metis snd_conv)
qed

lemma updateSession_time:
  assumes "hasSessionSlot st k"
  shows "\<exists>s. updateSession st k update tNew tIntent tLast
               = (Inr (), st\<lparr>ownSessions := (ownSessions st)(k \<mapsto> s)\<rparr>)
           \<and> lastMessageTimestamp s = tLast"
proof (cases "ownSessions st k")
  case None
  with assms have "\<not> lookupTruthy (lookupSession st k)" by (simp add: hasSessionSlot_def)
  from getOrCreateSession_creates[OF this, of tNew] obtain s0 where
    "getOrCreateSession st k tNew = (OwnSession s0, st\<lparr>ownSessions := (ownSessions st)(k \<mapsto> s0)\<rparr>)"
    by blast
  then have "updateSession st k update tNew tIntent tLast
          = (Inr (), st\<lparr>ownSessions := (ownSessions st)(k \<mapsto> applyUpdate s0 update tIntent tLast)\<rparr>)"
    by (simp add: updateSession_def)
  moreover have "lastMessageTimestamp (applyUpdate s0 update tIntent tLast) = tLast"
    by (simp add: applyUpdate_def Let_def)
  ultimately show ?thesis by blast
next
  case (Some s0)
  have "updateSession st k update tNew tIntent tLast
          = (Inr (), st\<lparr>ownSessions := (ownSessions st)(k \<mapsto> applyUpdate s0 update tIntent tLast)\<rparr>)"
    by (simp add: updateSession_def getOrCreateSession_finds[OF Some])
  moreover have "lastMessageTimestamp (applyUpdate s0 update tIntent tLast) = tLast"
    by (simp add: applyUpdate_def Let_def)
  ultimately show ?thesis by blast
qed

lemma orchestrate_slot:
  assumes "hasSessionSlot st k"
  shows "\<exists>s. snd (orchestrateJarvisRequest generate envModel random st message k architecture
                     tNew tIntent tLast)
               = st\<lparr>ownSessions := (ownSessions st)(k \<mapsto> s)\<rparr>
           \<and> intents s =
               sliceLast 20 (historyOf st k
                 @ [\<lparr>entryIntent = intentType (detectEnhancedIntent message True),
                      entryTimestamp = tIntent\<rparr>])
           \<and> lastMessageTimestamp s = tLast
           \<and> fst (updateSession (snd (getOrCreateSession st k tNew)) k
                    \<lparr>updMessages = None,
                     updIntent = Some (intentType (detectEnhancedIntent message True))\<rparr>
                    tNew tIntent tLast) = Inr ()"
proof -
  let ?u = "\<lparr>updMessages = None,
             updIntent = Some (intentType (detectEnhancedIntent message True))\<rparr>"
  let ?st1 = "snd (getOrCreateSession st k tNew)"
  from getOrCreateSession_slot[OF assms, of tNew] obtain s0 where
    slot: "hasSessionSlot ?st1 k" and h: "historyOf ?st1 k = historyOf st k"
    and st1: "?st1 = st\<lparr>ownSessions := (ownSessions st)(k \<mapsto> s0)\<rparr>" by blast
  from updateSession_stores[OF slot, of ?u tNew tIntent tLast] obtain s where
    u: "updateSession ?st1 k ?u tNew tIntent tLast
          = (Inr (), ?st1\<lparr>ownSessions := (ownSessions ?st1)(k \<mapsto> s)\<rparr>)"
    and i: "intents s = sliceLast 20 (historyOf ?st1 k
              @ [\<lparr>entryIntent = intentType (detectEnhancedIntent message True),
                   entryTimestamp = tIntent\<rparr>])"
    by auto
  from updateSession_time[OF slot, of ?u tNew tIntent tLast] u
  have t: "lastMessageTimestamp s = tLast"
    by (metis (no_types, lifting) SessionStore.ext_inject SessionStore.surjective
        SessionStore.update_convs(1) map_upd_eqD1 prod.inject)
  have "?st1\<lparr>ownSessions := (ownSessions ?st1)(k \<mapsto> s)\<rparr>
          = st\<lparr>ownSessions := (ownSessions st)(k \<mapsto> s)\<rparr>"
    by (subst (1 2) st1) simp
  with u have "snd (orchestrateJarvisRequest generate envModel random st message k architecture
                     tNew tIntent tLast) = st\<lparr>ownSessions := (ownSessions st)(k \<mapsto> s)\<rparr>"
    by (simp add: orchestrate_store)
  with i h t u show ?thesis by (intro exI[of _ s]) simp
qed

lemma orchestrate_without_slot:
  assumes "\<not> hasSessionSlot st k"
  shows "orchestrateJarvisRequest generate envModel random st message k architecture
           tNew tIntent tLast = (fallbackResponse, st)"
proof -
  from assms have n: "ownSessions st k = None" and t: "lookupTruthy (lookupSession st k)"
    by (auto simp: hasSessionSlot_def)
  from t have g: "getOrCreateSession st k tNew = (lookupSession st k, st)"
    by (simp add: getOrCreateSession_def)
  from n have o: "\<forall>s. lookupSession st k \<noteq> OwnSession s" by (simp add: lookupSession_own)
  have "updateSession st k
          \<lparr>updMessages = None,
           updIntent = Some (intentType (detectEnhancedIntent message True))\<rparr> tNew tIntent tLast
        = (Inl TypeError, st)"
    using o t by (cases "lookupSession st k") (simp_all add: updateSession_def g updatePrototype_def)
  then show ?thesis
    by (simp add: orchestrateJarvisRequest_def g Let_def)
qed

text \<open>
  C6. Handling a request changes the session store. For an id with a session slot (every
  id other than \<^verbatim>\<open>__proto__\<close>, the method names of \<^verbatim>\<open>Object.prototype\<close> and the three
  field names) the store after the request is the store before it with the session under
  the id replaced: the session is created if there was none, the detected intent is
  appended to its history, of which the last 20 entries are kept, and its last message
  time is set; the sessions under all other ids are as before, and so are the properties
  of \<^verbatim>\<open>Object.prototype\<close>. The reply does not depend on the store: it is the result of
  \<^verbatim>\<open>processJarvisRequest\<close> with the intent, its confidence and the suggestions, or the
  fallback response when the suggestions throw. For an id without a session slot
  \<^verbatim>\<open>updateSession\<close> throws, the reply is the fallback response and the store is left as
  it is.
\<close>

theorem orchestrateJarvisRequest_sessions:
  "(let intent = detectEnhancedIntent message True;
        handled = orchestrateJarvisRequest generate envModel random st message architectureId
                    architecture tNew tIntent tLast
    in (hasSessionSlot st architectureId \<longrightarrow>
          (\<exists>s. snd handled = st\<lparr>ownSessions := (ownSessions st)(architectureId \<mapsto> s)\<rparr>
             \<and> intents s =
                 sliceLast 20 (historyOf st architectureId
                   @ [\<lparr>entryIntent = intentType intent, entryTimestamp = tIntent\<rparr>])
             \<and> lastMessageTimestamp s = tLast)
          \<and> fst handled =
              (case generateFollowupSuggestions random intent architecture of
                 Inl error \<Rightarrow> fallbackResponse
               | Inr suggestions \<Rightarrow>
                   \<lparr>jarvisResult = processJarvisRequest generate envModel message architecture,
                    responseMetadata =
                      \<lparr>metaIntent = intentType intent, subIntent = subType intent,
                       metaConfidence = confidence intent,
                       suggestedFollowups = Some suggestions\<rparr>\<rparr>))
       \<and> (\<not> hasSessionSlot st architectureId \<longrightarrow> handled = (fallbackResponse, st))
       \<and> (ordinaryKey architectureId \<longrightarrow> hasSessionSlot st architectureId)
       \<and> (\<forall>k. k \<noteq> architectureId \<longrightarrow> ownSessions (snd handled) k = ownSessions st k)
       \<and> prototypeMessages (snd handled) = prototypeMessages st
       \<and> prototypeMessageCount (snd handled) = prototypeMessageCount st
       \<and> prototypeLastMessageTimestamp (snd handled) = prototypeLastMessageTimestamp st)"
proof -
  let ?i = "detectEnhancedIntent message True"
  let ?o = "orchestrateJarvisRequest generate envModel random st message architectureId
              architecture tNew tIntent tLast"
  have a: "hasSessionSlot st architectureId \<longrightarrow>
          (\<exists>s. snd ?o = st\<lparr>ownSessions := (ownSessions st)(architectureId \<mapsto> s)\<rparr>
             \<and> intents s =
                 sliceLast 20 (historyOf st architectureId
                   @ [\<lparr>entryIntent = intentType ?i, entryTimestamp = tIntent\<rparr>])
             \<and> lastMessageTimestamp s = tLast)
          \<and> fst ?o =
              (case generateFollowupSuggestions random ?i architecture of
                 Inl error \<Rightarrow> fallbackResponse
               | Inr suggestions \<Rightarrow>
                   \<lparr>jarvisResult = processJarvisRequest generate envModel message architecture,
                    responseMetadata =
                      \<lparr>metaIntent = intentType ?i, subIntent = subType ?i,
                       metaConfidence = confidence ?i,
                       suggestedFollowups = Some suggestions\<rparr>\<rparr>)"
  proof
    assume slot: "hasSessionSlot st architectureId"
    from orchestrate_slot[OF slot, of generate envModel random message architecture tNew tIntent tLast]
    obtain s where s: "snd ?o = st\<lparr>ownSessions := (ownSessions st)(architectureId \<mapsto> s)\<rparr>"
      "intents s = sliceLast 20 (historyOf st architectureId
                   @ [\<lparr>entryIntent = intentType ?i, entryTimestamp = tIntent\<rparr>])"
      "lastMessageTimestamp s = tLast"
      and ok: "fst (updateSession (snd (getOrCreateSession st architectureId tNew)) architectureId
                    \<lparr>updMessages = None, updIntent = Some (intentType ?i)\<rparr>
                    tNew tIntent tLast) = Inr ()"
      by blast
    have "fst ?o =
              (case generateFollowupSuggestions random ?i architecture of
                 Inl error \<Rightarrow> fallbackResponse
               | Inr suggestions \<Rightarrow>
                   \<lparr>jarvisResult = processJarvisRequest generate envModel message architecture,
                    responseMetadata =
                      \<lparr>metaIntent = intentType ?i, subIntent = subType ?i,
                       metaConfidence = confidence ?i,
                       suggestedFollowups = Some suggestions\<rparr>\<rparr>)"
      by (simp add: orchestrate_reply ok)
    with s show "(\<exists>s. snd ?o = st\<lparr>ownSessions := (ownSessions st)(architectureId \<mapsto> s)\<rparr>
             \<and> intents s =
                 sliceLast 20 (historyOf st architectureId
                   @ [\<lparr>entryIntent = intentType ?i, entryTimestamp = tIntent\<rparr>])
             \<and> lastMessageTimestamp s = tLast)
          \<and> fst ?o =
              (case generateFollowupSuggestions random ?i architecture of
                 Inl error \<Rightarrow> fallbackResponse
               | Inr suggestions \<Rightarrow>
                   \<lparr>jarvisResult = processJarvisRequest generate envModel message architecture,
                    responseMetadata =
                      \<lparr>metaIntent = intentType ?i, subIntent = subType ?i,
                       metaConfidence = confidence ?i,
                       suggestedFollowups = Some suggestions\<rparr>\<rparr>)"
      by (intro conjI exI[of _ s])
  qed
  have b: "\<not> hasSessionSlot st architectureId \<longrightarrow> ?o = (fallbackResponse, st)"
    using orchestrate_without_slot by blast
  have c: "ordinaryKey architectureId \<longrightarrow> hasSessionSlot st architectureId"
    using ordinaryKey_slot by blast
  have frame: "(\<forall>k. k \<noteq> architectureId \<longrightarrow> ownSessions (snd ?o) k = ownSessions st k)
       \<and> prototypeMessages (snd ?o) = prototypeMessages st
       \<and> prototypeMessageCount (snd ?o) = prototypeMessageCount st
       \<and> prototypeLastMessageTimestamp (snd ?o) = prototypeLastMessageTimestamp st"
  proof (cases "hasSessionSlot st architectureId")
    case True
    with a obtain s where
      "snd ?o = st\<lparr>ownSessions := (ownSessions st)(architectureId \<mapsto> s)\<rparr>" by blast
    then show ?thesis by simp
  next
    case False
    with b show ?thesis by simp
  qed
  from a b c frame show ?thesis unfolding Let_def by (intro conjI) blast+
qed

text \<open>
  A first request for the id \<^verbatim>\<open>a1\<close> on the store the module starts with, and a request
  for the id \<^verbatim>\<open>__proto__\<close>.
\<close>

lemma hi_enhanced: "intentType (detectEnhancedIntent ''hi'' True) = Greeting"
  unfolding detectEnhancedIntent_intentType by code_simp

lemma a1_ordinary: "ordinaryKey ''a1''"
  by (simp add: ordinaryKey_def objectPrototypeMethods_def)

lemma proto_without_slot: "\<not> hasSessionSlot noSessions ''__proto__''"
  by (simp add: hasSessionSlot_def noSessions_def lookupSession_def)

theorem orchestrateJarvisRequest_sessions_witness:
  "ordinaryKey ''a1''
   \<and> hasSessionSlot noSessions ''a1''
   \<and> (\<exists>s. snd (orchestrateJarvisRequest helloModel None (\<lambda>k. 0) noSessions ''hi'' ''a1''
                  exampleArchitecture 1 2 3)
             = noSessions\<lparr>ownSessions := (ownSessions noSessions)(''a1'' \<mapsto> s)\<rparr>
        \<and> intents s = [\<lparr>entryIntent = Greeting, entryTimestamp = 2\<rparr>]
        \<and> lastMessageTimestamp s = 3)
   \<and> \<not> hasSessionSlot noSessions ''__proto__''
   \<and> orchestrateJarvisRequest helloModel None (\<lambda>k. 0) noSessions ''hi'' ''__proto__''
        exampleArchitecture 1 2 3 = (fallbackResponse, noSessions)"
proof -
  note t = orchestrateJarvisRequest_sessions[where st = noSessions
      and architectureId = "''a1''" and message = "''hi''" and generate = helloModel
      and envModel = None and random = "\<lambda>k. 0" and architecture = exampleArchitecture
      and tNew = 1 and tIntent = 2 and tLast = 3, unfolded Let_def]
  note u = orchestrateJarvisRequest_sessions[where st = noSessions
      and architectureId = "''__proto__''" and message = "''hi''" and generate = helloModel
      and envModel = None and random = "\<lambda>k. 0" and architecture = exampleArchitecture
      and tNew = 1 and tIntent = 2 and tLast = 3, unfolded Let_def]
  from t have "ordinaryKey ''a1'' \<longrightarrow> hasSessionSlot noSessions ''a1''" by (elim conjE)
  with a1_ordinary have slot: "hasSessionSlot noSessions ''a1''" by simp
  from t have "hasSessionSlot noSessions ''a1'' \<longrightarrow>
          (\<exists>s. snd (orchestrateJarvisRequest helloModel None (\<lambda>k. 0) noSessions ''hi'' ''a1''
                       exampleArchitecture 1 2 3)
                 = noSessions\<lparr>ownSessions := (ownSessions noSessions)(''a1'' \<mapsto> s)\<rparr>
             \<and> intents s =
                 sliceLast 20 (historyOf noSessions ''a1''
                   @ [\<lparr>entryIntent = intentType (detectEnhancedIntent ''hi'' True),
                        entryTimestamp = 2\<rparr>])
             \<and> lastMessageTimestamp s = 3)
          \<and> fst (orchestrateJarvisRequest helloModel None (\<lambda>k. 0) noSessions ''hi'' ''a1''
                   exampleArchitecture 1 2 3) =
              (case generateFollowupSuggestions (\<lambda>k. 0) (detectEnhancedIntent ''hi'' True)
                      exampleArchitecture of
                 Inl error \<Rightarrow> fallbackResponse
               | Inr suggestions \<Rightarrow>
                   \<lparr>jarvisResult = processJarvisRequest helloModel None ''hi'' exampleArchitecture,
                    responseMetadata =
                      \<lparr>metaIntent = intentType (detectEnhancedIntent ''hi'' True),
                       subIntent = subType (detectEnhancedIntent ''hi'' True),
                       metaConfidence = confidence (detectEnhancedIntent ''hi'' True),
                       suggestedFollowups = Some suggestions\<rparr>\<rparr>)"
    by (elim conjE)
  from this slot have "(\<exists>s. snd (orchestrateJarvisRequest helloModel None (\<lambda>k. 0) noSessions ''hi'' ''a1''
                       exampleArchitecture 1 2 3)
                 = noSessions\<lparr>ownSessions := (ownSessions noSessions)(''a1'' \<mapsto> s)\<rparr>
             \<and> intents s =
                 sliceLast 20 (historyOf noSessions ''a1''
                   @ [\<lparr>entryIntent = intentType (detectEnhancedIntent ''hi'' True),
                        entryTimestamp = 2\<rparr>])
             \<and> lastMessageTimestamp s = 3)
          \<and> fst (orchestrateJarvisRequest helloModel None (\<lambda>k. 0) noSessions ''hi'' ''a1''
                   exampleArchitecture 1 2 3) =
              (case generateFollowupSuggestions (\<lambda>k. 0) (detectEnhancedIntent ''hi'' True)
                      exampleArchitecture of
                 Inl error \<Rightarrow> fallbackResponse
               | Inr suggestions \<Rightarrow>
                   \<lparr>jarvisResult = processJarvisRequest helloModel None ''hi'' exampleArchitecture,
                    responseMetadata =
                      \<lparr>metaIntent = intentType (detectEnhancedIntent ''hi'' True),
                       subIntent = subType (detectEnhancedIntent ''hi'' True),
                       metaConfidence = confidence (detectEnhancedIntent ''hi'' True),
                       suggestedFollowups = Some suggestions\<rparr>\<rparr>)"
    by (rule mp)
  then have "\<exists>s. snd (orchestrateJarvisRequest helloModel None (\<lambda>k. 0) noSessions ''hi'' ''a1''
                       exampleArchitecture 1 2 3)
                 = noSessions\<lparr>ownSessions := (ownSessions noSessions)(''a1'' \<mapsto> s)\<rparr>
             \<and> intents s =
                 sliceLast 20 (historyOf noSessions ''a1''
                   @ [\<lparr>entryIntent = intentType (detectEnhancedIntent ''hi'' True),
                        entryTimestamp = 2\<rparr>])
             \<and> lastMessageTimestamp s = 3"
    by (rule conjunct1)
  then obtain s where
    s: "snd (orchestrateJarvisRequest helloModel None (\<lambda>k. 0) noSessions ''hi'' ''a1''
               exampleArchitecture 1 2 3)
          = noSessions\<lparr>ownSessions := (ownSessions noSessions)(''a1'' \<mapsto> s)\<rparr>"
       "intents s = sliceLast 20 (historyOf noSessions ''a1''
                   @ [\<lparr>entryIntent = intentType (detectEnhancedIntent ''hi'' True),
                        entryTimestamp = 2\<rparr>])"
       "lastMessageTimestamp s = 3"
    by blast
  from s(2) have i: "intents s = [\<lparr>entryIntent = Greeting, entryTimestamp = 2\<rparr>]"
    by (simp add: hi_enhanced historyOf_def noSessions_def sliceLast_def)
  from u have "\<not> hasSessionSlot noSessions ''__proto__'' \<longrightarrow>
      orchestrateJarvisRequest helloModel None (\<lambda>k. 0) noSessions ''hi'' ''__proto__''
        exampleArchitecture 1 2 3 = (fallbackResponse, noSessions)"
    by (elim conjE)
  with proto_without_slot
  have p: "orchestrateJarvisRequest helloModel None (\<lambda>k. 0) noSessions ''hi'' ''__proto__''
        exampleArchitecture 1 2 3 = (fallbackResponse, noSessions)"
    by simp
  from s(1) i s(3) have "\<exists>s. snd (orchestrateJarvisRequest helloModel None (\<lambda>k. 0) noSessions
                  ''hi'' ''a1'' exampleArchitecture 1 2 3)
             = noSessions\<lparr>ownSessions := (ownSessions noSessions)(''a1'' \<mapsto> s)\<rparr>
        \<and> intents s = [\<lparr>entryIntent = Greeting, entryTimestamp = 2\<rparr>]
        \<and> lastMessageTimestamp s = 3"
    by (intro exI[of _ s] conjI)
  with a1_ordinary slot proto_without_slot p show ?thesis by (intro conjI)
qed

text \<open>
  The claim as it stands has every stored session unchanged by a request, and two equal
  requests observing the same state. The first request for \<^verbatim>\<open>a1\<close> stores a session there
  with one intent; the second, equal to the first, finds that session and leaves it with
  two.
\<close>

theorem sessions_change_counterexample:
  "ownSessions noSessions ''a1'' = None
   \<and> (\<exists>s. ownSessions afterFirst ''a1'' = Some s)
   \<and> afterFirst \<noteq> noSessions
   \<and> historyOf afterFirst ''a1'' = [\<lparr>entryIntent = Greeting, entryTimestamp = 2\<rparr>]
   \<and> historyOf afterSecond ''a1''
       = [\<lparr>entryIntent = Greeting, entryTimestamp = 2\<rparr>,
          \<lparr>entryIntent = Greeting, entryTimestamp = 5\<rparr>]
   \<and> afterSecond \<noteq> afterFirst"
proof -
  have n: "ownSessions noSessions ''a1'' = None" by (simp add: noSessions_def)
  from orchestrate_slot[OF ordinaryKey_slot[OF a1_ordinary], of helloModel None "\<lambda>k. 0"
      noSessions "''hi''" exampleArchitecture 1 2 3]
  obtain s1 where s1: "afterFirst = noSessions\<lparr>ownSessions := (ownSessions noSessions)(''a1'' \<mapsto> s1)\<rparr>"
    "intents s1 = sliceLast 20 (historyOf noSessions ''a1''
                   @ [\<lparr>entryIntent = intentType (detectEnhancedIntent ''hi'' True),
                        entryTimestamp = 2\<rparr>])"
    unfolding afterFirst_def by blast
  from s1(2) have i1: "intents s1 = [\<lparr>entryIntent = Greeting, entryTimestamp = 2\<rparr>]"
    by (simp add: hi_enhanced historyOf_def noSessions_def sliceLast_def)
  have o1: "ownSessions afterFirst ''a1'' = Some s1" unfolding s1(1) by simp
  with i1 have h1: "historyOf afterFirst ''a1'' = [\<lparr>entryIntent = Greeting, entryTimestamp = 2\<rparr>]"
    by (simp add: historyOf_def)
  from o1 n have d1: "afterFirst \<noteq> noSessions" by auto
  from orchestrate_slot[OF ordinaryKey_slot[OF a1_ordinary], of helloModel None "\<lambda>k. 0"
      afterFirst "''hi''" exampleArchitecture 4 5 6]
  obtain s2 where s2: "afterSecond = afterFirst\<lparr>ownSessions := (ownSessions afterFirst)(''a1'' \<mapsto> s2)\<rparr>"
    "intents s2 = sliceLast 20 (historyOf afterFirst ''a1''
                   @ [\<lparr>entryIntent = intentType (detectEnhancedIntent ''hi'' True),
                        entryTimestamp = 5\<rparr>])"
    unfolding afterSecond_def by blast
  from s2(2) have i2: "intents s2 = [\<lparr>entryIntent = Greeting, entryTimestamp = 2\<rparr>,
          \<lparr>entryIntent = Greeting, entryTimestamp = 5\<rparr>]"
    by (simp add: hi_enhanced h1 sliceLast_def)
  have o2: "ownSessions afterSecond ''a1'' = Some s2" unfolding s2(1) by simp
  with i2 have h2: "historyOf afterSecond ''a1''
       = [\<lparr>entryIntent = Greeting, entryTimestamp = 2\<rparr>,
          \<lparr>entryIntent = Greeting, entryTimestamp = 5\<rparr>]"
    by (simp add: historyOf_def)
  from h1 h2 have d2: "afterSecond \<noteq> afterFirst" by auto
  from o1 have "\<exists>s. ownSessions afterFirst ''a1'' = Some s" by blast
  with n d1 h1 h2 d2 show ?thesis by (intro conjI)
qed

end
